(* ===== verification/Prelude.thy ===== *)
theory Prelude
  imports Main "HOL-Library.Word"
begin

text \<open>
  Shared vocabulary of the development: Go's \<open>int64\<close> as a 64-bit word with its signed reading,
  the lists-as-tables lemmas (lookup by a key, descending order by a key) that the store and the
  services share, and the collections of rules that the component theories fill.

  \<^item> \<open>row_simps\<close>: equations that compute a lookup or an order after a row was appended;
  \<^item> \<open>branch_defs\<close>: definitions of small straight-line operations, unfolded together when a proof
    walks through the branches of a caller.
\<close>

named_theorems row_simps "computing lookups and orders over table rows"
named_theorems branch_defs "straight-line operations unfolded when walking the branches of a caller"

section \<open>Machine integers\<close>

type_synonym int64 = "64 word"

definition fits64 :: "int \<Rightarrow> bool" where
  "fits64 i \<longleftrightarrow> - (2 ^ 63) \<le> i \<and> i < 2 ^ 63"

definition max_int64 :: int where
  "max_int64 = 2 ^ 63 - 1"

lemma sint_word_of_int64:
  assumes "fits64 i"
  shows "sint (word_of_int i :: int64) = i"
  using assms by (simp add: fits64_def sint_sbintrunc' signed_take_bit_int_eq_self)

lemma fits64_sint [simp]: "fits64 (sint (w :: int64))"
  using sint_greater_eq [of w] sint_less [of w] by (simp add: fits64_def)

lemma sint_le_max_int64: "sint (w :: int64) \<le> max_int64"
  using sint_less [of w] by (simp add: max_int64_def)

section \<open>Tables as lists: lookup by a key\<close>

lemma find_None_key: "find (\<lambda>r. k r = x) rs = None \<longleftrightarrow> x \<notin> k ` set rs"
  by (auto simp: find_None_iff)

lemma find_Some_key:
  assumes "distinct (map k rs)"
  shows "find (\<lambda>r. k r = x) rs = Some r \<longleftrightarrow> r \<in> set rs \<and> k r = x"
  using assms
proof (induction rs)
  case Nil
  then show ?case by simp
next
  case (Cons a rs)
  then show ?case by (cases "k a = x") (auto simp: image_iff)
qed

lemma find_Some_keyD: "find P rs = Some r \<Longrightarrow> r \<in> set rs \<and> P r"
  by (auto simp: find_Some_iff)

lemma find_snoc [row_simps]:
  "find P (rs @ [r]) = (case find P rs of Some x \<Rightarrow> Some x | None \<Rightarrow> if P r then Some r else None)"
  by (induction rs) auto

section \<open>Descending order by a key (SQL's ORDER BY ... DESC)\<close>

definition sort_desc :: "('a \<Rightarrow> 'b::linorder) \<Rightarrow> 'a list \<Rightarrow> 'a list" where
  "sort_desc k xs = rev (sort_key k xs)"

lemma set_sort_desc [simp]: "set (sort_desc k xs) = set xs"
  by (simp add: sort_desc_def)

lemma length_sort_desc [simp]: "length (sort_desc k xs) = length xs"
  by (simp add: sort_desc_def)

lemma sort_desc_rev:
  assumes "sorted (map k xs)"
  shows "sort_desc k xs = rev xs"
  using assms by (simp add: sort_desc_def sort_key_id_if_sorted)

lemma sorted_sort_desc: "sorted_wrt (\<lambda>x y. k y \<le> k x) (sort_desc k xs)"
proof -
  have "sorted_wrt (\<lambda>x y. k x \<le> k y) (sort_key k xs)"
    using sorted_sort_key [of k xs] by (simp add: sorted_wrt_map)
  then show ?thesis by (simp add: sort_desc_def sorted_wrt_rev)
qed

lemma sorted_wrt_less_sorted:
  "sorted_wrt (<) (xs :: 'a::linorder list) \<Longrightarrow> sorted xs \<and> distinct xs"
  by (simp add: strict_sorted_iff)

lemma sorted_wrt_filter_map:
  "sorted_wrt R (map f xs) \<Longrightarrow> sorted_wrt R (map f (filter P xs))"
  by (induction xs) auto

section \<open>Conditional sums\<close>

lemma sum_list_map_filter_nonneg:
  "(\<And>x. x \<in> set xs \<Longrightarrow> (0::int) \<le> f x) \<Longrightarrow> 0 \<le> sum_list (map f xs)"
  by (induction xs) auto

end
