(* ===== verification/GoText.thy ===== *)
theory GoText
  imports Prelude
begin

text \<open>
  What the program uses of Go's \<^verbatim>\<open>strings\<close> and \<^verbatim>\<open>strconv\<close> packages. A Go string is a sequence of
  bytes, so it is a \<^typ>\<open>string\<close> here, one \<^typ>\<open>char\<close> per byte.

  \<^item> \<open>TrimSpace\<close>: white space is Unicode's, so the multi-byte encodings of the non-ASCII spaces
    are listed beside the six ASCII ones;
  \<^item> \<open>ParseInt64\<close>: \<^verbatim>\<open>strconv.ParseInt(s, 10, 64)\<close>, every failure (syntax, range) being \<open>None\<close>;
  \<^item> \<open>ToUpper\<close>, \<open>EqualFold\<close>, \<open>Contains\<close>: case mapping is the ASCII one, which is what Go computes
    on ASCII text; the callers apply them to a driver's ASCII message and against an ASCII constant
    whose letters have no other Unicode case variant.
\<close>

section \<open>strings\<close>

definition ToUpper :: "string \<Rightarrow> string" where
  "ToUpper = map (\<lambda>c. if 97 \<le> (of_char c :: int) \<and> of_char c \<le> (122::int)
                        then char_of (of_char c - (32::int)) else c)"

definition ToLower :: "string \<Rightarrow> string" where
  "ToLower = map (\<lambda>c. if 65 \<le> (of_char c :: int) \<and> of_char c \<le> (90::int)
                        then char_of (of_char c + (32::int)) else c)"

definition EqualFold :: "string \<Rightarrow> string \<Rightarrow> bool" where
  "EqualFold a b \<longleftrightarrow> ToLower a = ToLower b"

fun Contains :: "string \<Rightarrow> string \<Rightarrow> bool" where
  "Contains [] p = (p = [])"
| "Contains (c # s) p = (take (length p) (c # s) = p \<or> Contains s p)"

definition space_encodings :: "string list" where
  "space_encodings =
    [[CHR 0x09], [CHR 0x0A], [CHR 0x0B], [CHR 0x0C], [CHR 0x0D], [CHR 0x20],
     [CHR 0xC2, CHR 0x85], [CHR 0xC2, CHR 0xA0],
     [CHR 0xE1, CHR 0x9A, CHR 0x80],
     [CHR 0xE2, CHR 0x80, CHR 0x80], [CHR 0xE2, CHR 0x80, CHR 0x81], [CHR 0xE2, CHR 0x80, CHR 0x82],
     [CHR 0xE2, CHR 0x80, CHR 0x83], [CHR 0xE2, CHR 0x80, CHR 0x84], [CHR 0xE2, CHR 0x80, CHR 0x85],
     [CHR 0xE2, CHR 0x80, CHR 0x86], [CHR 0xE2, CHR 0x80, CHR 0x87], [CHR 0xE2, CHR 0x80, CHR 0x88],
     [CHR 0xE2, CHR 0x80, CHR 0x89], [CHR 0xE2, CHR 0x80, CHR 0x8A],
     [CHR 0xE2, CHR 0x80, CHR 0xA8], [CHR 0xE2, CHR 0x80, CHR 0xA9], [CHR 0xE2, CHR 0x80, CHR 0xAF],
     [CHR 0xE2, CHR 0x81, CHR 0x9F], [CHR 0xE3, CHR 0x80, CHR 0x80]]"

definition has_prefix :: "string \<Rightarrow> string \<Rightarrow> bool" where
  "has_prefix p s \<longleftrightarrow> take (length p) s = p"

definition space_len :: "string list \<Rightarrow> string \<Rightarrow> nat" where
  "space_len encs s = (case find (\<lambda>e. has_prefix e s) encs of Some e \<Rightarrow> length e | None \<Rightarrow> 0)"

function trim_front :: "string list \<Rightarrow> string \<Rightarrow> string" where
  "trim_front encs s =
     (if s \<noteq> [] \<and> 0 < space_len encs s then trim_front encs (drop (space_len encs s) s) else s)"
  by pat_completeness auto
termination
  by (relation "measure (\<lambda>(encs, s). length s)") auto

declare trim_front.simps [simp del]

definition TrimSpace :: "string \<Rightarrow> string" where
  "TrimSpace s =
     rev (trim_front (map rev space_encodings) (rev (trim_front space_encodings s)))"

lemma trim_front_idle: "space_len encs s = 0 \<Longrightarrow> trim_front encs s = s"
  by (subst trim_front.simps) simp

lemma space_len_trim_front: "trim_front encs s = [] \<or> space_len encs (trim_front encs s) = 0"
proof (induction encs s rule: trim_front.induct)
  case (1 encs s)
  then show ?case
    by (cases "s \<noteq> [] \<and> 0 < space_len encs s") (auto simp: trim_front.simps [of encs s])
qed

lemma trim_front_idem: "trim_front encs (trim_front encs s) = trim_front encs s"
proof -
  have "trim_front encs [] = []" by (subst trim_front.simps) simp
  with space_len_trim_front [of encs s] show ?thesis
    by (auto simp: trim_front_idle)
qed

lemma trim_front_suffix: "\<exists>p. s = p @ trim_front encs s"
proof (induction encs s rule: trim_front.induct)
  case (1 encs s)
  show ?case
  proof (cases "s \<noteq> [] \<and> 0 < space_len encs s")
    case True
    with "1.IH" obtain p where "drop (space_len encs s) s = p @ trim_front encs (drop (space_len encs s) s)"
      by blast
    then have "s = (take (space_len encs s) s @ p) @ trim_front encs (drop (space_len encs s) s)"
      by (metis append.assoc append_take_drop_id)
    moreover have "trim_front encs s = trim_front encs (drop (space_len encs s) s)"
      using True by (subst trim_front.simps) simp
    ultimately show ?thesis by metis
  next
    case False
    then have "trim_front encs s = s" by (subst trim_front.simps) auto
    then show ?thesis by simp
  qed
qed

text \<open>A trimmed string is a contiguous part of its input: trimming only cuts the two ends.\<close>

lemma TrimSpace_infix: "\<exists>p q. s = p @ TrimSpace s @ q"
proof -
  obtain p where p: "s = p @ trim_front space_encodings s"
    using trim_front_suffix by blast
  obtain q where "rev (trim_front space_encodings s)
      = q @ trim_front (map rev space_encodings) (rev (trim_front space_encodings s))"
    using trim_front_suffix by blast
  then have "trim_front space_encodings s = TrimSpace s @ rev q"
    unfolding TrimSpace_def by (metis rev_append rev_rev_ident)
  with p show ?thesis by metis
qed

section \<open>strconv\<close>

definition is_digit :: "char \<Rightarrow> bool" where
  "is_digit c \<longleftrightarrow> 48 \<le> (of_char c :: int) \<and> of_char c \<le> (57::int)"

definition digit_val :: "char \<Rightarrow> int" where
  "digit_val c = of_char c - 48"

definition digits_val :: "string \<Rightarrow> int" where
  "digits_val = foldl (\<lambda>n c. 10 * n + digit_val c) 0"

definition ParseUint :: "string \<Rightarrow> int option" where
  "ParseUint s = (if s \<noteq> [] \<and> list_all is_digit s then Some (digits_val s) else None)"

definition ParseInt64 :: "string \<Rightarrow> int64 option" where
  "ParseInt64 s =
     (let neg = (s \<noteq> [] \<and> hd s = CHR ''-'');
          sgn = (s \<noteq> [] \<and> (hd s = CHR ''-'' \<or> hd s = CHR ''+''))
      in case ParseUint (if sgn then tl s else s) of
           None \<Rightarrow> None
         | Some n \<Rightarrow>
             if neg then (if n \<le> 2 ^ 63 then Some (word_of_int (- n)) else None)
             else (if n < 2 ^ 63 then Some (word_of_int n) else None))"

lemma foldl_digits_nonneg:
  "list_all is_digit s \<Longrightarrow> 0 \<le> n \<Longrightarrow> 0 \<le> foldl (\<lambda>n c. 10 * n + digit_val c) n s"
  by (induction s arbitrary: n) (auto simp: digit_val_def is_digit_def)

lemma ParseUint_nonneg: "ParseUint s = Some n \<Longrightarrow> 0 \<le> n"
  by (auto simp: ParseUint_def digits_val_def intro: foldl_digits_nonneg split: if_splits)

lemma ParseInt64_unsigned:
  assumes "ParseUint s = Some n" and "n < 2 ^ 63"
  shows "ParseInt64 s = Some (word_of_int n)"
proof -
  have "s \<noteq> []" and "is_digit (hd s)"
    using assms(1) by (cases s; auto simp: ParseUint_def split: if_splits)+
  then show ?thesis using assms by (auto simp: ParseInt64_def is_digit_def)
qed

text \<open>What is parsed as a positive number was written as a number below \<open>2 ^ 63\<close>.\<close>

lemma ParseInt64_positive:
  assumes "ParseInt64 s = Some w" and "0 < sint w"
  shows "sint w < 2 ^ 63 \<and>
           (ParseUint s = Some (sint w) \<or> (s \<noteq> [] \<and> hd s = CHR ''+'' \<and> ParseUint (tl s) = Some (sint w)))"
proof -
  define sgn where "sgn \<longleftrightarrow> s \<noteq> [] \<and> (hd s = CHR ''-'' \<or> hd s = CHR ''+'')"
  obtain n where n: "ParseUint (if sgn then tl s else s) = Some n"
    using assms(1) by (auto simp: ParseInt64_def sgn_def Let_def split: option.splits)
  then have "0 \<le> n" by (rule ParseUint_nonneg)
  show ?thesis
  proof (cases "s \<noteq> [] \<and> hd s = CHR ''-''")
    case True
    then have "w = word_of_int (- n)" and "n \<le> 2 ^ 63"
      using assms(1) n by (auto simp: ParseInt64_def sgn_def Let_def split: option.splits if_splits)
    then have "sint w = - n"
      using \<open>0 \<le> n\<close> sint_word_of_int64 [of "- n"] by (simp add: fits64_def)
    with assms(2) \<open>0 \<le> n\<close> show ?thesis by simp
  next
    case False
    then have "w = word_of_int n" and n63: "n < 2 ^ 63"
      using assms(1) n by (auto simp: ParseInt64_def sgn_def Let_def split: option.splits if_splits)
    then have "sint w = n"
      using \<open>0 \<le> n\<close> sint_word_of_int64 [of n] by (simp add: fits64_def)
    with assms(2) n n63 False show ?thesis by (auto simp: sgn_def split: if_splits)
  qed
qed

section \<open>Text that trimming leaves alone\<close>

definition plain_char :: "char \<Rightarrow> bool" where
  "plain_char c \<longleftrightarrow> list_all (\<lambda>e. hd e \<noteq> c \<and> last e \<noteq> c) space_encodings"

lemma space_len_0: "list_all (\<lambda>e. e \<noteq> [] \<and> hd e \<noteq> c) encs \<Longrightarrow> space_len encs (c # s) = 0"
  by (induction encs) (auto simp: space_len_def has_prefix_def neq_Nil_conv split: option.splits)

lemma space_encodings_nonempty: "list_all (\<lambda>e. e \<noteq> []) space_encodings"
  by (simp add: space_encodings_def)

lemma TrimSpace_plain:
  assumes "s \<noteq> []" and "plain_char (hd s)" and "plain_char (last s)"
  shows "TrimSpace s = s"
proof -
  have "space_len space_encodings (hd s # tl s) = 0"
    using assms(2) space_encodings_nonempty
    by (intro space_len_0) (auto simp: plain_char_def list_all_iff)
  then have front: "trim_front space_encodings s = s" using assms(1) by (simp add: trim_front_idle)
  have "space_len (map rev space_encodings) (last s # rev (butlast s)) = 0"
    using assms(3) space_encodings_nonempty
    by (intro space_len_0) (auto simp: plain_char_def list_all_iff hd_rev)
  moreover have "last s # rev (butlast s) = rev s"
    using assms(1) by (metis append_butlast_last_id rev.simps(2) rev_rev_ident)
  ultimately have "trim_front (map rev space_encodings) (rev s) = rev s"
    by (metis trim_front_idle)
  then show ?thesis by (simp add: TrimSpace_def front)
qed

lemma plain_digit: "is_digit c \<Longrightarrow> plain_char c"
  by (auto simp: plain_char_def space_encodings_def is_digit_def)

lemma plain_Z: "plain_char (CHR ''Z'')"
  by (simp add: plain_char_def space_encodings_def)

end
