(* ===== verification/GoTime.thy ===== *)
theory GoTime
  imports GoText "HOL-Library.Monad_Syntax"
begin

text \<open>
  What the program uses of Go's \<^verbatim>\<open>time\<close> package: an instant (the program converts to UTC before it
  formats or returns a time, so no location is kept), formatting with the layout
  \<^verbatim>\<open>2006-01-02T15:04:05Z07:00\<close> and parsing with the same layout. \<open>ParseRFC3339\<close> follows
  \<^verbatim>\<open>time.Parse\<close>'s general loop chunk by chunk (the package's RFC 3339 fast path returns the same
  instants on the inputs it accepts): one- or two-digit hours, an optional fraction after the
  seconds, \<^verbatim>\<open>Z\<close> or a numeric offset, and the day of the month checked last.
\<close>

section \<open>Instants and the calendar\<close>

record gotime =
  tm_sec :: int    \<comment> \<open>seconds since 1970-01-01T00:00:00Z\<close>
  tm_nsec :: int

definition zero_time :: gotime where
  "zero_time = \<lparr>tm_sec = - 62135596800, tm_nsec = 0\<rparr>"

definition IsZero :: "gotime \<Rightarrow> bool" where
  "IsZero t \<longleftrightarrow> tm_sec t = - 62135596800 \<and> tm_nsec t = 0"

definition is_leap :: "int \<Rightarrow> bool" where
  "is_leap y \<longleftrightarrow> y mod 4 = 0 \<and> (y mod 100 \<noteq> 0 \<or> y mod 400 = 0)"

definition month_lengths :: "int \<Rightarrow> int list" where
  "month_lengths y =
     [31, if is_leap y then 29 else 28, 31, 30, 31, 30, 31, 31, 30, 31, 30, 31]"

definition days_in :: "int \<Rightarrow> int \<Rightarrow> int" where
  "days_in m y = month_lengths y ! nat (m - 1)"

text \<open>Days since 0001-01-01 in the proleptic Gregorian calendar.\<close>

definition year_start :: "int \<Rightarrow> int" where
  "year_start y = 365 * (y - 1) + (y - 1) div 4 - (y - 1) div 100 + (y - 1) div 400"

definition civil_to_days :: "int \<Rightarrow> int \<Rightarrow> int \<Rightarrow> int" where
  "civil_to_days y m d = year_start y + sum_list (take (nat (m - 1)) (month_lengths y)) + d - 1"

definition year_of_days :: "int \<Rightarrow> int \<times> int" where
  "year_of_days n =
     (let q400 = n div 146097; r400 = n mod 146097;
          q100 = min 3 (r400 div 36524); r100 = r400 - 36524 * q100;
          q4 = r100 div 1461; r4 = r100 mod 1461;
          q1 = min 3 (r4 div 365)
      in (400 * q400 + 100 * q100 + 4 * q4 + q1 + 1, r4 - 365 * q1))"

fun month_day :: "int \<Rightarrow> int list \<Rightarrow> int \<Rightarrow> int \<times> int" where
  "month_day m [] d = (m, d + 1)"
| "month_day m (l # ls) d = (if d < l then (m, d + 1) else month_day (m + 1) ls (d - l))"

definition days_to_civil :: "int \<Rightarrow> int \<times> int \<times> int" where
  "days_to_civil n =
     (case year_of_days n of (y, yd) \<Rightarrow> (y, month_day 1 (month_lengths y) yd))"

definition unix_of_civil :: "int \<Rightarrow> int \<Rightarrow> int \<Rightarrow> int \<Rightarrow> int \<Rightarrow> int \<Rightarrow> int" where
  "unix_of_civil y m d h mi s =
     (civil_to_days y m d - 719162) * 86400 + h * 3600 + mi * 60 + s"

section \<open>Format\<close>

definition digit_char :: "int \<Rightarrow> char" where
  "digit_char d = char_of (48 + d)"

fun dec_digits :: "int \<Rightarrow> string" where
  "dec_digits n = (if n < 10 then [digit_char n] else dec_digits (n div 10) @ [digit_char (n mod 10)])"

declare dec_digits.simps [simp del]

definition pad_int :: "nat \<Rightarrow> int \<Rightarrow> string" where
  "pad_int w i =
     (let ds = dec_digits \<bar>i\<bar>
      in (if i < 0 then ''-'' else '''') @ replicate (w - length ds) (CHR ''0'') @ ds)"

definition Format :: "gotime \<Rightarrow> string" where
  "Format t =
     (let days = tm_sec t div 86400 + 719162; sod = tm_sec t mod 86400
      in case days_to_civil days of (y, m, d) \<Rightarrow>
           pad_int 4 y @ ''-'' @ pad_int 2 m @ ''-'' @ pad_int 2 d @ ''T''
           @ pad_int 2 (sod div 3600) @ '':'' @ pad_int 2 (sod mod 3600 div 60) @ '':''
           @ pad_int 2 (sod mod 60) @ ''Z'')"

section \<open>Parse\<close>

fun getnum :: "string \<Rightarrow> bool \<Rightarrow> (int \<times> string) option" where
  "getnum (a # b # s) fixed =
     (if \<not> is_digit a then None
      else if \<not> is_digit b then (if fixed then None else Some (digit_val a, b # s))
      else Some (10 * digit_val a + digit_val b, s))"
| "getnum [a] fixed = (if is_digit a \<and> \<not> fixed then Some (digit_val a, []) else None)"
| "getnum [] fixed = None"

fun skip_char :: "char \<Rightarrow> string \<Rightarrow> string option" where
  "skip_char c (a # s) = (if a = c then Some s else None)"
| "skip_char c [] = None"

definition get_year :: "string \<Rightarrow> (int \<times> string) option" where
  "get_year s = (if 4 \<le> length s \<and> list_all is_digit (take 4 s)
                 then Some (digits_val (take 4 s), drop 4 s) else None)"

definition get_ranged :: "string \<Rightarrow> bool \<Rightarrow> int \<Rightarrow> int \<Rightarrow> (int \<times> string) option" where
  "get_ranged s fixed lo hi =
     (case getnum s fixed of
        Some (n, r) \<Rightarrow> if lo \<le> n \<and> n \<le> hi then Some (n, r) else None
      | None \<Rightarrow> None)"

definition get_fraction :: "string \<Rightarrow> int \<times> string" where
  "get_fraction s =
     (if 2 \<le> length s \<and> (s ! 0 = CHR ''.'' \<or> s ! 0 = CHR '','') \<and> is_digit (s ! 1)
      then let ds = takeWhile is_digit (tl s); k = take 9 ds
           in (digits_val k * 10 ^ (9 - length k), dropWhile is_digit (tl s))
      else (0, s))"

definition get_offset :: "string \<Rightarrow> (int \<times> string) option" where
  "get_offset s =
     (if s \<noteq> [] \<and> s ! 0 = CHR ''Z'' then Some (0, tl s)
      else if length s < 6 \<or> s ! 3 \<noteq> CHR '':'' then None
      else do {
        (hr, _) \<leftarrow> getnum (take 2 (drop 1 s)) True;
        (mm, _) \<leftarrow> getnum (take 2 (drop 4 s)) True;
        if 24 < hr \<or> 60 < mm then None
        else if s ! 0 = CHR ''+'' then Some ((hr * 60 + mm) * 60, drop 6 s)
        else if s ! 0 = CHR ''-'' then Some (- ((hr * 60 + mm) * 60), drop 6 s)
        else None })"

definition ParseRFC3339 :: "string \<Rightarrow> gotime option" where
  "ParseRFC3339 s0 = do {
     (y, s1) \<leftarrow> get_year s0;
     s2 \<leftarrow> skip_char (CHR ''-'') s1;
     (m, s3) \<leftarrow> get_ranged s2 True 1 12;
     s4 \<leftarrow> skip_char (CHR ''-'') s3;
     (d, s5) \<leftarrow> getnum s4 True;
     s6 \<leftarrow> skip_char (CHR ''T'') s5;
     (h, s7) \<leftarrow> get_ranged s6 False 0 23;
     s8 \<leftarrow> skip_char (CHR '':'') s7;
     (mi, s9) \<leftarrow> get_ranged s8 True 0 59;
     s10 \<leftarrow> skip_char (CHR '':'') s9;
     (sec, s11) \<leftarrow> get_ranged s10 True 0 59;
     let (ns, s12) = get_fraction s11;
     (off, s13) \<leftarrow> get_offset s12;
     if s13 \<noteq> [] then None
     else if d < 1 \<or> days_in m y < d then None
     else Some \<lparr>tm_sec = unix_of_civil y m d h mi sec - off, tm_nsec = ns\<rparr> }"

text \<open>The store reads its columns with the error ignored: a text it cannot parse is the zero time.\<close>

definition parse_or_zero :: "string \<Rightarrow> gotime" where
  "parse_or_zero s = (case ParseRFC3339 s of Some t \<Rightarrow> t | None \<Rightarrow> zero_time)"

section \<open>The calendar round trip\<close>

lemma year_of_days_start:
  assumes "year_of_days n = (y, yd)"
  shows "year_start y + yd = n \<and> 0 \<le> yd \<and> yd < (if is_leap y then 366 else 365)"
proof -
  define q400 where "q400 = n div 146097"
  define r400 where "r400 = n mod 146097"
  define q100 where "q100 = min 3 (r400 div 36524)"
  define r100 where "r100 = r400 - 36524 * q100"
  define q4 where "q4 = r100 div 1461"
  define r4 where "r4 = r100 mod 1461"
  define q1 where "q1 = min 3 (r4 div 365)"
  note defs = q400_def r400_def q100_def r100_def q4_def r4_def q1_def
  have n: "n = 146097 * q400 + r400" and r400: "0 \<le> r400" "r400 < 146097"
    by (simp_all add: q400_def r400_def)
  have q100: "0 \<le> q100" "q100 \<le> 3" and r100: "0 \<le> r100" "r100 \<le> 36524" "q100 < 3 \<longrightarrow> r100 < 36524"
    using r400 by (auto simp: q100_def r100_def min_def)
  have r100': "r100 = 1461 * q4 + r4" and q4: "0 \<le> q4" "q4 \<le> 24" and r4: "0 \<le> r4" "r4 < 1461"
    using r100 by (auto simp: q4_def r4_def)
  have q1: "0 \<le> q1" "q1 \<le> 3" and yd: "0 \<le> r4 - 365 * q1" "r4 - 365 * q1 \<le> 365"
      "q1 < 3 \<longrightarrow> r4 - 365 * q1 < 365"
    using r4 by (auto simp: q1_def min_def)
  have "year_of_days n = (400 * q400 + 100 * q100 + 4 * q4 + q1 + 1, r4 - 365 * q1)"
    unfolding year_of_days_def Let_def defs by (rule refl)
  then have y: "y = 400 * q400 + 100 * q100 + 4 * q4 + q1 + 1" and yd_eq: "yd = r4 - 365 * q1"
    using assms by simp_all
  have d4: "(y - 1) div 4 = 100 * q400 + 25 * q100 + q4"
    and d100: "(y - 1) div 100 = 4 * q400 + q100" and d400: "(y - 1) div 400 = q400"
    using y q100 q4 q1 by linarith+
  have start: "year_start y + yd = n"
    unfolding year_start_def d4 d100 d400 using y yd_eq n r100' by (simp add: r100_def)
  have "is_leap y" if "yd = 365"
  proof -
    from that yd yd_eq q1 r4 have 3: "q1 = 3" and 1460: "r4 = 1460" by auto
    have "q4 = 24 \<Longrightarrow> q100 = 3" using 1460 r100 r100' q100 by auto
    then have "q4 < 24 \<or> (q4 = 24 \<and> q100 = 3)" using q4 by auto
    then show ?thesis
    proof
      assume "q4 < 24"
      have "y = 4 * (100 * q400 + 25 * q100 + q4 + 1)" using y 3 by simp
      then have "y mod 4 = 0" by simp
      have "y mod 100 = (4 * (q4 + 1) + 100 * (4 * q400 + q100)) mod 100"
        by (rule arg_cong [where f = "\<lambda>v. v mod 100"]) (simp add: y 3)
      also have "\<dots> = 4 * (q4 + 1)"
        unfolding mod_mult_self2 using q4 \<open>q4 < 24\<close> by (intro mod_pos_pos_trivial) auto
      finally have "y mod 100 \<noteq> 0" using q4 by simp
      with \<open>y mod 4 = 0\<close> show ?thesis by (simp add: is_leap_def)
    next
      assume "q4 = 24 \<and> q100 = 3"
      then have "y = 400 * (q400 + 1)" using y 3 by simp
      moreover have "(400 * (q400 + 1)) mod 4 = 0" by (simp add: mod_eq_0_iff_dvd)
      ultimately have "y mod 4 = 0" and "y mod 400 = 0" by simp_all
      then show ?thesis by (simp add: is_leap_def)
    qed
  qed
  with start yd yd_eq show ?thesis by fastforce
qed

lemma month_day_sum:
  assumes "0 \<le> d" and "d < sum_list ls" and "\<forall>l \<in> set ls. 0 < l" and "month_day m0 ls d = (m, k)"
  shows "m0 \<le> m \<and> m < m0 + int (length ls) \<and> 1 \<le> k \<and> k \<le> ls ! nat (m - m0)
    \<and> sum_list (take (nat (m - m0)) ls) + k - 1 = d"
  using assms
proof (induction ls arbitrary: m0 d)
  case Nil
  then show ?case by simp
next
  case (Cons l ls)
  show ?case
  proof (cases "d < l")
    case True
    with Cons.prems show ?thesis by auto
  next
    case False
    with Cons.prems have "m0 + 1 \<le> m \<and> m < m0 + 1 + int (length ls) \<and> 1 \<le> k \<and> k \<le> ls ! nat (m - (m0 + 1))
        \<and> sum_list (take (nat (m - (m0 + 1))) ls) + k - 1 = d - l"
      by (intro Cons.IH) auto
    moreover from this have "nat (m - m0) = Suc (nat (m - (m0 + 1)))" by arith
    ultimately show ?thesis by auto
  qed
qed

lemma sum_month_lengths: "sum_list (month_lengths y) = (if is_leap y then 366 else 365)"
  by (simp add: month_lengths_def)

lemma civil_roundtrip:
  assumes "days_to_civil n = (y, m, d)"
  shows "civil_to_days y m d = n \<and> 1 \<le> m \<and> m \<le> 12 \<and> 1 \<le> d \<and> d \<le> days_in m y \<and> d \<le> 31"
proof -
  obtain yd where yd: "year_of_days n = (y, yd)" and md: "month_day 1 (month_lengths y) yd = (m, d)"
    using assms by (auto simp: days_to_civil_def split: prod.splits)
  from year_of_days_start [OF yd]
  have start: "year_start y + yd = n" and b: "0 \<le> yd" "yd < sum_list (month_lengths y)"
    by (auto simp: sum_month_lengths)
  have "\<forall>l \<in> set (month_lengths y). 0 < l \<and> l \<le> 31" by (simp add: month_lengths_def)
  with month_day_sum [OF b _ md]
  have *: "1 \<le> m" "m < 1 + int (length (month_lengths y))" "1 \<le> d" "d \<le> month_lengths y ! nat (m - 1)"
    "sum_list (take (nat (m - 1)) (month_lengths y)) + d - 1 = yd"
    and len: "\<forall>l \<in> set (month_lengths y). l \<le> 31" by auto
  have "nat (m - 1) < length (month_lengths y)" using * by auto
  then have "month_lengths y ! nat (m - 1) \<le> 31" using len nth_mem by blast
  moreover have "length (month_lengths y) = 12" by (simp add: month_lengths_def)
  ultimately show ?thesis
    using * start by (auto simp: civil_to_days_def days_in_def)
qed

section \<open>What was formatted parses back, to the second\<close>

lemma digit_char_digit [simp]: "0 \<le> d \<Longrightarrow> d < 10 \<Longrightarrow> is_digit (digit_char d)"
  by (simp add: is_digit_def digit_char_def)

lemma digit_val_char [simp]: "0 \<le> d \<Longrightarrow> d < 10 \<Longrightarrow> digit_val (digit_char d) = d"
  by (simp add: digit_val_def digit_char_def)

lemma dec_digits_small: "n < 10 \<Longrightarrow> dec_digits n = [digit_char n]"
  by (subst dec_digits.simps) simp

lemma dec_digits_step: "10 \<le> n \<Longrightarrow> dec_digits n = dec_digits (n div 10) @ [digit_char (n mod 10)]"
  by (subst dec_digits.simps) simp

lemma zero_char: "CHR ''0'' = digit_char 0"
  unfolding digit_char_def by code_simp

lemma pad_int_2:
  assumes "0 \<le> n" and "n < 100"
  shows "pad_int 2 n = [digit_char (n div 10), digit_char (n mod 10)]"
proof (cases "n < 10")
  case True
  with assms show ?thesis by (simp add: pad_int_def dec_digits_small zero_char)
next
  case False
  with assms show ?thesis by (simp add: pad_int_def dec_digits_small dec_digits_step)
qed

lemma pad_int_4:
  assumes "0 \<le> n" and "n < 10000"
  shows "pad_int 4 n = [digit_char (n div 1000), digit_char (n div 100 mod 10),
                        digit_char (n div 10 mod 10), digit_char (n mod 10)]"
proof -
  consider "n < 10" | "10 \<le> n" "n < 100" | "100 \<le> n" "n < 1000" | "1000 \<le> n"
    by linarith
  then show ?thesis
    by cases (use assms in \<open>simp_all add: pad_int_def dec_digits_small dec_digits_step zero_char
      zdiv_zmult2_eq [symmetric] numeral_eq_Suc\<close>)
qed

lemma getnum_pad:
  "0 \<le> n \<Longrightarrow> n < 100 \<Longrightarrow> getnum (pad_int 2 n @ s) fixed = Some (n, s)"
  by (simp add: pad_int_2)

lemma get_year_digits:
  "\<lbrakk>0 \<le> a; a < 10; 0 \<le> b; b < 10; 0 \<le> c; c < 10; 0 \<le> d; d < 10\<rbrakk> \<Longrightarrow>
     get_year ([digit_char a, digit_char b, digit_char c, digit_char d] @ s)
       = Some (1000 * a + 100 * b + 10 * c + d, s)"
  by (simp add: get_year_def digits_val_def)

lemma get_year_pad:
  assumes "0 \<le> y" and "y < 10000"
  shows "get_year (pad_int 4 y @ s) = Some (y, s)"
proof -
  define a where "a = y div 10"
  define b where "b = a div 10"
  define e where "e = [y mod 10, a mod 10, b mod 10, b div 10]"
  have div: "y div 100 = b" "y div 1000 = b div 10" "y div 10 = a"
    by (simp_all add: a_def b_def zdiv_zmult2_eq [symmetric])
  have y: "y = 10 * a + e ! 0" "a = 10 * b + e ! 1" "b = 10 * e ! 3 + e ! 2"
    by (simp_all add: e_def a_def b_def)
  have "0 \<le> b div 10" "b div 10 < 10" using assms by (simp_all flip: div(2))
  then have rng: "0 \<le> e ! 3" "e ! 3 < 10" "0 \<le> e ! 2" "e ! 2 < 10" "0 \<le> e ! 1" "e ! 1 < 10"
    "0 \<le> e ! 0" "e ! 0 < 10" by (simp_all add: e_def)
  have "pad_int 4 y = [digit_char (e ! 3), digit_char (e ! 2), digit_char (e ! 1), digit_char (e ! 0)]"
    unfolding pad_int_4 [OF assms] div by (simp add: e_def)
  then have "get_year (pad_int 4 y @ s) = Some (1000 * e ! 3 + 100 * e ! 2 + 10 * e ! 1 + e ! 0, s)"
    by (simp only: get_year_digits [OF rng])
  also have "1000 * e ! 3 + 100 * e ! 2 + 10 * e ! 1 + e ! 0 = y" using y by linarith
  finally show ?thesis .
qed

lemma get_ranged_pad:
  "0 \<le> n \<Longrightarrow> n < 100 \<Longrightarrow> lo \<le> n \<Longrightarrow> n \<le> hi \<Longrightarrow> get_ranged (pad_int 2 n @ s) fixed lo hi = Some (n, s)"
  by (simp add: get_ranged_def getnum_pad)

lemma parse_fields:
  assumes "0 \<le> y" "y < 10000" "1 \<le> m" "m \<le> 12" "1 \<le> d" "d \<le> days_in m y" "d \<le> 31"
    "0 \<le> h" "h < 24" "0 \<le> mi" "mi < 60" "0 \<le> sc" "sc < 60"
  shows "ParseRFC3339 (pad_int 4 y @ ''-'' @ pad_int 2 m @ ''-'' @ pad_int 2 d @ ''T'' @ pad_int 2 h
           @ '':'' @ pad_int 2 mi @ '':'' @ pad_int 2 sc @ ''Z'')
       = Some \<lparr>tm_sec = unix_of_civil y m d h mi sc, tm_nsec = 0\<rparr>"
proof -
  have "get_fraction ''Z'' = (0, ''Z'')" and "get_offset ''Z'' = Some (0, [])"
    by (simp_all add: get_fraction_def get_offset_def)
  then show ?thesis
    using assms by (simp add: ParseRFC3339_def get_year_pad getnum_pad get_ranged_pad)
qed

lemma seconds_of_day: "(s::int) div 3600 * 3600 + s mod 3600 div 60 * 60 + s mod 60 = s"
proof -
  have "s mod 60 = s mod 3600 mod 60" by (simp add: mod_mod_cancel)
  then show ?thesis by simp
qed

lemma Format_parses:
  assumes y: "fst (days_to_civil (tm_sec t div 86400 + 719162)) \<in> {0..9999}"
  shows "ParseRFC3339 (Format t) = Some (t\<lparr>tm_nsec := 0\<rparr>)"
proof -
  define days where "days = tm_sec t div 86400 + 719162"
  define sod where "sod = tm_sec t mod 86400"
  obtain yr m d where civ: "days_to_civil days = (yr, m, d)" by (metis prod_cases3)
  note rt = civil_roundtrip [OF civ]
  have yr: "0 \<le> yr" "yr < 10000" using y civ by (auto simp: days_def)
  have sod: "0 \<le> sod" "sod < 86400" by (simp_all add: sod_def)
  have b: "0 \<le> sod div 3600" "sod div 3600 < 24" "0 \<le> sod mod 3600 div 60" "sod mod 3600 div 60 < 60"
    "0 \<le> sod mod 60" "sod mod 60 < 60" using sod by auto
  have sum: "(days - 719162) * 86400 + sod div 3600 * 3600 + sod mod 3600 div 60 * 60 + sod mod 60 = tm_sec t"
  proof -
    have "(days - 719162) * 86400 + (sod div 3600 * 3600 + sod mod 3600 div 60 * 60 + sod mod 60)
        = (days - 719162) * 86400 + sod"
      by (simp only: seconds_of_day)
    also have "\<dots> = tm_sec t" by (simp add: days_def sod_def)
    finally show ?thesis by (simp only: add.assoc)
  qed
  have fmt: "Format t = pad_int 4 yr @ ''-'' @ pad_int 2 m @ ''-'' @ pad_int 2 d @ ''T''
      @ pad_int 2 (sod div 3600) @ '':'' @ pad_int 2 (sod mod 3600 div 60) @ '':''
      @ pad_int 2 (sod mod 60) @ ''Z''"
    by (simp only: Format_def Let_def days_def [symmetric] sod_def [symmetric] civ prod.case)
  have sec: "unix_of_civil yr m d (sod div 3600) (sod mod 3600 div 60) (sod mod 60) = tm_sec t"
    using sum rt by (simp only: unix_of_civil_def)
  have "ParseRFC3339 (Format t) = Some \<lparr>tm_sec = tm_sec t, tm_nsec = 0\<rparr>"
    unfolding fmt sec [symmetric] using rt b yr by (intro parse_fields) blast+
  then show ?thesis by simp
qed

lemma parse_or_zero_Format:
  "fst (days_to_civil (tm_sec t div 86400 + 719162)) \<in> {0..9999} \<Longrightarrow>
     parse_or_zero (Format t) = t\<lparr>tm_nsec := 0\<rparr>"
  by (simp add: parse_or_zero_def Format_parses)

section \<open>Printed numbers and times are read back\<close>

lemma ParseUint_snoc:
  "\<lbrakk>ParseUint s = Some n; is_digit c\<rbrakk> \<Longrightarrow> ParseUint (s @ [c]) = Some (10 * n + digit_val c)"
  by (auto simp: ParseUint_def digits_val_def split: if_splits)

lemma ParseUint_dec_digits: "0 \<le> n \<Longrightarrow> ParseUint (dec_digits n) = Some n"
proof (induction n rule: dec_digits.induct)
  case (1 n)
  show ?case
  proof (cases "n < 10")
    case True
    with 1 show ?thesis by (simp add: dec_digits_small ParseUint_def digits_val_def)
  next
    case False
    with 1 have "ParseUint (dec_digits (n div 10)) = Some (n div 10)" by simp
    from ParseUint_snoc [OF this, of "digit_char (n mod 10)"] False show ?thesis
      by (simp add: dec_digits_step)
  qed
qed

lemma dec_digits_digits: "0 \<le> n \<Longrightarrow> dec_digits n \<noteq> [] \<and> list_all is_digit (dec_digits n)"
  using ParseUint_dec_digits [of n] by (auto simp: ParseUint_def split: if_splits)

lemma ParseInt64_dec_digits:
  assumes "0 \<le> sint (w :: int64)"
  shows "ParseInt64 (TrimSpace (dec_digits (sint w))) = Some w"
proof -
  have d: "dec_digits (sint w) \<noteq> []" "list_all is_digit (dec_digits (sint w))"
    using dec_digits_digits [OF assms] by blast+
  then have "TrimSpace (dec_digits (sint w)) = dec_digits (sint w)"
    by (intro TrimSpace_plain) (auto simp: list_all_iff intro: plain_digit)
  then show ?thesis
    using ParseInt64_unsigned [OF ParseUint_dec_digits [OF assms]] sint_less [of w] by simp
qed

lemma TrimSpace_Format:
  assumes "fst (days_to_civil (tm_sec t div 86400 + 719162)) \<in> {0..9999}"
  shows "TrimSpace (Format t) = Format t"
proof -
  obtain y m d where civ: "days_to_civil (tm_sec t div 86400 + 719162) = (y, m, d)"
    by (metis prod_cases3)
  with assms have y: "0 \<le> y" "y < 10000" by auto
  then have "is_digit (digit_char (y div 1000))" by simp
  then have "plain_char (hd (Format t))"
    using plain_digit by (simp add: Format_def Let_def civ pad_int_4 [OF y])
  moreover have "last (Format t) = CHR ''Z''" and "Format t \<noteq> []"
    by (simp_all add: Format_def Let_def civ)
  ultimately show ?thesis using plain_Z by (intro TrimSpace_plain) simp_all
qed

end
