(* ===== verification/Domain.thy ===== *)
theory Domain
  imports GoTime
begin

text \<open>
  The wallet core's data and pure rules (\<^verbatim>\<open>internal/wallet\<close>): the sentinel errors, accounts,
  transactions, audit entries, the role and access rules, the audit outcome vocabulary, and the
  health verdict. Go's named string types (\<^verbatim>\<open>Kind\<close>, \<^verbatim>\<open>Role\<close>, \<^verbatim>\<open>AuditOutcome\<close>) hold any
  string, so they are strings here and their constants are definitions.

  An error is a value: a sentinel, a message made on the spot, or a message wrapped around another
  error with \<^verbatim>\<open>fmt.Errorf("...: %w", err)\<close>; \<open>errors_is\<close> is \<^verbatim>\<open>errors.Is\<close>, which looks
  through the wrapping. A function returning \<^verbatim>\<open>(T, error)\<close> returns a sum, \<open>Inl\<close> the error; one
  returning only \<^verbatim>\<open>error\<close> returns an option, \<open>None\<close> being nil.
\<close>

section \<open>Errors\<close>

datatype sentinel =
    ErrNotFound | ErrAccountExists | ErrInvalidInput | ErrDuplicateRef
  | ErrInsufficientBalance | ErrInvalidCredentials | ErrForbidden
  | ErrNoRows            \<comment> \<open>database/sql\<close>
  | ErrPasswordTooLong   \<comment> \<open>bcrypt\<close>

datatype goerr =
    Sentinel sentinel
  | ErrorsNew string
  | Errorf string goerr

fun errors_is :: "goerr \<Rightarrow> sentinel \<Rightarrow> bool" where
  "errors_is (Sentinel s) t = (s = t)"
| "errors_is (ErrorsNew m) t = False"
| "errors_is (Errorf m e) t = errors_is e t"

fun sentinel_text :: "sentinel \<Rightarrow> string" where
  "sentinel_text ErrNotFound = ''not found''"
| "sentinel_text ErrAccountExists = ''account already exists''"
| "sentinel_text ErrInvalidInput = ''invalid input''"
| "sentinel_text ErrDuplicateRef = ''duplicate ref''"
| "sentinel_text ErrInsufficientBalance = ''insufficient balance''"
| "sentinel_text ErrInvalidCredentials = ''invalid credentials''"
| "sentinel_text ErrForbidden = ''forbidden''"
| "sentinel_text ErrNoRows = ''sql: no rows in result set''"
| "sentinel_text ErrPasswordTooLong = ''bcrypt: password length exceeds 72 bytes''"

fun err_text :: "goerr \<Rightarrow> string" where
  "err_text (Sentinel s) = sentinel_text s"
| "err_text (ErrorsNew m) = m"
| "err_text (Errorf m e) = m @ '': '' @ err_text e"

section \<open>Accounts and transactions\<close>

definition KindEarn :: string where "KindEarn = ''earn''"
definition KindSpend :: string where "KindSpend = ''spend''"
definition KindRedeem :: string where "KindRedeem = ''redeem''"

definition RoleMember :: string where "RoleMember = ''member''"
definition RoleAdmin :: string where "RoleAdmin = ''admin''"

lemmas kind_consts = KindEarn_def KindSpend_def KindRedeem_def
lemmas role_consts = RoleMember_def RoleAdmin_def

record account =
  acc_ID :: string
  acc_Name :: string
  acc_CreatedAt :: gotime

record txn =
  t_Ref :: string
  t_AccountID :: string
  t_Kind :: string
  t_Points :: int64
  t_Reward :: string
  t_OccurredAt :: gotime

definition zero_txn :: txn where
  "zero_txn = \<lparr>t_Ref = [], t_AccountID = [], t_Kind = [], t_Points = 0, t_Reward = [],
     t_OccurredAt = zero_time\<rparr>"

record account_summary =
  as_ID :: string
  as_Name :: string
  as_Role :: string
  as_Balance :: int64

text \<open>The change of balance a kind stands for: the direction comes from the kind, not the value.\<close>

definition signed_points :: "string \<Rightarrow> int64 \<Rightarrow> int" where
  "signed_points k p =
     (if k = KindEarn then sint p else if k = KindSpend \<or> k = KindRedeem then - sint p else 0)"

section \<open>Roles and the access rule (auth.go)\<close>

record identity =
  id_AccountID :: string
  id_Role :: string

definition ParseRole :: "string \<Rightarrow> goerr + string" where
  "ParseRole s =
     (if s = RoleMember then Inr RoleMember
      else if s = RoleAdmin then Inr RoleAdmin
      else Inl (Sentinel ErrInvalidInput))"

definition Authorize :: "identity \<Rightarrow> string \<Rightarrow> goerr option" where
  "Authorize i target =
     (if id_Role i = RoleAdmin then None
      else if id_AccountID i = target then None
      else Some (Sentinel ErrForbidden))"

lemma ParseRole_Inr: "ParseRole s = Inr r \<longleftrightarrow> r = s \<and> (s = RoleMember \<or> s = RoleAdmin)"
  by (auto simp: ParseRole_def)

lemma Authorize_None: "Authorize i a = None \<longleftrightarrow> id_Role i = RoleAdmin \<or> id_AccountID i = a"
  by (simp add: Authorize_def)

lemma Authorize_Some: "Authorize i a = Some e \<Longrightarrow> e = Sentinel ErrForbidden"
  by (auto simp: Authorize_def split: if_splits)

section \<open>The audit vocabulary (audit.go)\<close>

definition OutcomeAccepted :: string where "OutcomeAccepted = ''accepted''"
definition OutcomeRejected :: string where "OutcomeRejected = ''rejected''"
definition OutcomeDuplicate :: string where "OutcomeDuplicate = ''duplicate''"

lemmas outcome_consts = OutcomeAccepted_def OutcomeRejected_def OutcomeDuplicate_def

definition valid_outcome :: "string \<Rightarrow> bool" where
  "valid_outcome o1 \<longleftrightarrow> o1 = OutcomeAccepted \<or> o1 = OutcomeRejected \<or> o1 = OutcomeDuplicate"

record audit_entry =
  ae_ID :: int64
  ae_Ref :: string
  ae_AccountID :: string
  ae_Kind :: string
  ae_Points :: int64
  ae_Outcome :: string
  ae_Reason :: string
  ae_CreatedAt :: gotime

section \<open>Health (health.go)\<close>

record health =
  hl_Status :: string
  hl_DB :: string

text \<open>\<open>ping\<close> is the result of the pinger: \<open>None\<close> when the database answered.\<close>

definition Check :: "goerr option \<Rightarrow> health" where
  "Check ping =
     (case ping of
        Some e \<Rightarrow> \<lparr>hl_Status = ''degraded'', hl_DB = ''down''\<rparr>
      | None \<Rightarrow> \<lparr>hl_Status = ''ok'', hl_DB = ''up''\<rparr>)"

end
