(* ===== verification/Services.thy ===== *)
theory Services
  imports Domain
begin

text \<open>
  The wallet core's services (\<^verbatim>\<open>wallet.go\<close>, \<^verbatim>\<open>audit.go\<close>, \<^verbatim>\<open>health.go\<close>) over the
  repository interfaces they are given. An interface value is a record of its methods over a
  storage state; a service method takes the interface, its arguments and the state. bcrypt is
  third-party, so it is the record \<open>bcrypt\<close> of its two functions.

  The locales \<open>txn_contract\<close>, \<open>account_contract\<close>, \<open>audit_contract\<close> and their union
  \<open>wallet_contract\<close> state what the interfaces promise, over an abstract view of the state:
  the transaction held under a reference, the exact balance of an account, the credential of an
  account, the audit log. What the services guarantee is proved here once from these laws; the
  store interprets the locales. The index \<open>'e\<close> is whatever the outside world decides during one
  call (which database calls fail, what the clock says); \<open>quiet e\<close> says that no call whose failure
  was reported took effect nevertheless.
\<close>

section \<open>Interfaces\<close>

record 's account_repository =
  repo_CreateAccount :: "account \<Rightarrow> string \<Rightarrow> 's \<Rightarrow> goerr option \<times> 's"
  repo_GetAccount :: "string \<Rightarrow> 's \<Rightarrow> goerr + account"
  repo_Balance :: "string \<Rightarrow> 's \<Rightarrow> goerr + int64"
  repo_GetCredential :: "string \<Rightarrow> 's \<Rightarrow> goerr + string \<times> string"
  repo_ListAccounts :: "'s \<Rightarrow> goerr + account_summary list"
  repo_ListTransactions :: "string \<Rightarrow> 's \<Rightarrow> goerr + txn list"

record 's txn_repository =
  repo_RecordTransaction :: "txn \<Rightarrow> 's \<Rightarrow> (goerr + txn \<times> bool) \<times> 's"

record 's audit_repository =
  repo_AppendAudit :: "audit_entry \<Rightarrow> 's \<Rightarrow> (goerr + audit_entry) \<times> 's"
  repo_ListAudit :: "string \<Rightarrow> 's \<Rightarrow> goerr + audit_entry list"

record bcrypt =
  bc_GenerateFromPassword :: "string \<Rightarrow> int \<Rightarrow> goerr + string"
  bc_CompareHashAndPassword :: "string \<Rightarrow> string \<Rightarrow> goerr option"

section \<open>WalletService\<close>

definition bcryptCost :: int where "bcryptCost = 12"

definition dummyHash :: string where
  "dummyHash = ''$2a$12$LvEsOpgtZcSXg09X9vIgQeFp57IJxh35CAAcKhJJQExocBPl/Fta.''"

definition hash_secret :: "bcrypt \<Rightarrow> string \<Rightarrow> goerr + string" where
  "hash_secret bc secret =
     (if secret = [] then Inr []
      else case bc_GenerateFromPassword bc secret bcryptCost of
             Inl err \<Rightarrow> if errors_is err ErrPasswordTooLong then Inl (Sentinel ErrInvalidInput) else Inl err
           | Inr h \<Rightarrow> Inr h)"

definition svc_CreateAccount ::
    "bcrypt \<Rightarrow> 's account_repository \<Rightarrow> account \<Rightarrow> string \<Rightarrow> 's \<Rightarrow> goerr option \<times> 's" where
  "svc_CreateAccount bc repo a secret s =
     (if acc_ID a = [] \<or> acc_Name a = [] then (Some (Sentinel ErrInvalidInput), s)
      else case hash_secret bc secret of
             Inl err \<Rightarrow> (Some err, s)
           | Inr passwordHash \<Rightarrow> repo_CreateAccount repo a passwordHash s)"

text \<open>
  \<open>svc_Login\<close> also returns the bcrypt comparisons it ran, as pairs of hash and secret, because
  running one on every path is part of what it promises.
\<close>

definition svc_Login ::
    "bcrypt \<Rightarrow> 's account_repository \<Rightarrow> string \<Rightarrow> string \<Rightarrow> 's
       \<Rightarrow> (goerr + identity) \<times> (string \<times> string) list" where
  "svc_Login bc repo accountID secret s =
     (case repo_GetCredential repo accountID s of
        Inl err \<Rightarrow> (Inl (Sentinel ErrInvalidCredentials), [(dummyHash, secret)])
      | Inr (hash, role) \<Rightarrow>
          if hash = [] then (Inl (Sentinel ErrInvalidCredentials), [(dummyHash, secret)])
          else case bc_CompareHashAndPassword bc hash secret of
                 Some cmpErr \<Rightarrow> (Inl (Sentinel ErrInvalidCredentials), [(hash, secret)])
               | None \<Rightarrow> (Inr \<lparr>id_AccountID = accountID, id_Role = role\<rparr>, [(hash, secret)]))"

definition svc_GetAccount :: "'s account_repository \<Rightarrow> string \<Rightarrow> 's \<Rightarrow> goerr + account" where
  "svc_GetAccount repo i s = repo_GetAccount repo i s"

definition svc_Balance :: "'s account_repository \<Rightarrow> string \<Rightarrow> 's \<Rightarrow> goerr + int64" where
  "svc_Balance repo i s = repo_Balance repo i s"

definition svc_ListAccounts :: "'s account_repository \<Rightarrow> 's \<Rightarrow> goerr + account_summary list" where
  "svc_ListAccounts repo s = repo_ListAccounts repo s"

definition svc_ListTransactions :: "'s account_repository \<Rightarrow> string \<Rightarrow> 's \<Rightarrow> goerr + txn list" where
  "svc_ListTransactions repo i s = repo_ListTransactions repo i s"

definition svc_RecordEarn ::
    "'s txn_repository \<Rightarrow> txn \<Rightarrow> 's \<Rightarrow> (goerr + txn \<times> bool) \<times> 's" where
  "svc_RecordEarn repo t s =
     (if t_Ref t = [] \<or> t_AccountID t = [] \<or> sint (t_Points t) \<le> 0
      then (Inl (Sentinel ErrInvalidInput), s)
      else repo_RecordTransaction repo (t\<lparr>t_Kind := KindEarn\<rparr>) s)"

definition svc_RecordSpend ::
    "'s txn_repository \<Rightarrow> txn \<Rightarrow> 's \<Rightarrow> (goerr + txn \<times> bool) \<times> 's" where
  "svc_RecordSpend repo t s =
     (if t_Ref t = [] \<or> t_AccountID t = [] \<or> sint (t_Points t) \<le> 0
      then (Inl (Sentinel ErrInvalidInput), s)
      else repo_RecordTransaction repo (t\<lparr>t_Kind := KindSpend\<rparr>) s)"

definition svc_RecordRedeem ::
    "'s txn_repository \<Rightarrow> txn \<Rightarrow> 's \<Rightarrow> (goerr + txn \<times> bool) \<times> 's" where
  "svc_RecordRedeem repo t s =
     (if t_Ref t = [] \<or> t_AccountID t = [] \<or> sint (t_Points t) \<le> 0 \<or> t_Reward t = []
      then (Inl (Sentinel ErrInvalidInput), s)
      else repo_RecordTransaction repo (t\<lparr>t_Kind := KindRedeem\<rparr>) s)"

section \<open>AuditService\<close>

definition svc_Record ::
    "'s audit_repository \<Rightarrow> audit_entry \<Rightarrow> 's \<Rightarrow> (goerr + audit_entry) \<times> 's" where
  "svc_Record repo e s =
     (if \<not> valid_outcome (ae_Outcome e) then (Inl (Sentinel ErrInvalidInput), s)
      else repo_AppendAudit repo e s)"

definition svc_List :: "'s audit_repository \<Rightarrow> string \<Rightarrow> 's \<Rightarrow> goerr + audit_entry list" where
  "svc_List repo accountID s = repo_ListAudit repo accountID s"

section \<open>Facts that need no contract\<close>

text \<open>Every way a login can fail is the same error, and one comparison runs on every path.\<close>

lemma svc_Login_error:
  "fst (svc_Login bc repo a secret s) = Inl err \<Longrightarrow> err = Sentinel ErrInvalidCredentials"
  by (auto simp: svc_Login_def split: sum.splits if_splits option.splits)

lemma svc_Login_one_compare: "\<exists>h. snd (svc_Login bc repo a secret s) = [(h, secret)]"
  by (auto simp: svc_Login_def split: sum.splits if_splits option.splits)

datatype svc_call = CallEarn txn | CallSpend txn | CallRedeem txn

text \<open>
  A run of service calls, one after the other, each with its own outside world. This is how the
  single writer orders the requests that reach it.
\<close>

fun svc_call_step ::
    "'s txn_repository \<Rightarrow> svc_call \<Rightarrow> 's \<Rightarrow> (goerr + txn \<times> bool) \<times> 's" where
  "svc_call_step repo (CallEarn t) s = svc_RecordEarn repo t s"
| "svc_call_step repo (CallSpend t) s = svc_RecordSpend repo t s"
| "svc_call_step repo (CallRedeem t) s = svc_RecordRedeem repo t s"

fun svc_run ::
    "('e \<Rightarrow> 's txn_repository) \<Rightarrow> ('e \<times> svc_call) list \<Rightarrow> 's \<Rightarrow> (goerr + txn \<times> bool) list \<times> 's" where
  "svc_run repo [] s = ([], s)"
| "svc_run repo ((e, c) # cs) s =
     (let (r, s') = svc_call_step (repo e) c s; (rs, s'') = svc_run repo cs s'
      in (r # rs, s''))"

text \<open>What a list of results adds to an account: the signed points of the newly created ones.\<close>

fun created_effect :: "string \<Rightarrow> goerr + txn \<times> bool \<Rightarrow> int" where
  "created_effect a (Inr (u, True)) =
     (if t_AccountID u = a then signed_points (t_Kind u) (t_Points u) else 0)"
| "created_effect a r = 0"

text \<open>The transaction a service call hands to the repository.\<close>

fun svc_txn :: "svc_call \<Rightarrow> txn" where
  "svc_txn (CallEarn t) = t\<lparr>t_Kind := KindEarn\<rparr>"
| "svc_txn (CallSpend t) = t\<lparr>t_Kind := KindSpend\<rparr>"
| "svc_txn (CallRedeem t) = t\<lparr>t_Kind := KindRedeem\<rparr>"

lemma svc_call_step_cases:
  "svc_call_step repo c s = (Inl (Sentinel ErrInvalidInput), s)
   \<or> (svc_call_step repo c s = repo_RecordTransaction repo (svc_txn c) s
      \<and> t_Ref (svc_txn c) \<noteq> [] \<and> t_AccountID (svc_txn c) \<noteq> [] \<and> 0 < sint (t_Points (svc_txn c)))"
  by (cases c) (auto simp: svc_RecordEarn_def svc_RecordSpend_def svc_RecordRedeem_def)

lemma svc_call_step_Inr:
  "svc_call_step repo c s = (Inr q, s') \<Longrightarrow> repo_RecordTransaction repo (svc_txn c) s = (Inr q, s')"
  using svc_call_step_cases [of repo c s] by auto

section \<open>The contract of a transaction repository\<close>

text \<open>The two ways a call can leave the view of the ledger: as it was, or with one more entry.\<close>

definition same_view ::
    "('s \<Rightarrow> string \<Rightarrow> txn option) \<Rightarrow> ('s \<Rightarrow> string \<Rightarrow> int) \<Rightarrow> 's \<Rightarrow> 's \<Rightarrow> bool" where
  "same_view held bal s s' \<longleftrightarrow> held s' = held s \<and> bal s' = bal s"

definition took ::
    "('s \<Rightarrow> string \<Rightarrow> txn option) \<Rightarrow> ('s \<Rightarrow> string \<Rightarrow> int) \<Rightarrow> txn \<Rightarrow> txn \<Rightarrow> 's \<Rightarrow> 's \<Rightarrow> bool" where
  "took held bal t u s s' \<longleftrightarrow>
     held s (t_Ref t) = None \<and> held s' = (held s)(t_Ref t \<mapsto> u) \<and>
     bal s' = (bal s)(t_AccountID t := bal s (t_AccountID t) + signed_points (t_Kind t) (t_Points t)) \<and>
     t_Ref u = t_Ref t \<and> t_AccountID u = t_AccountID t \<and> t_Kind u = t_Kind t \<and>
     t_Points u = t_Points t \<and> t_Reward u = t_Reward t \<and> 0 < sint (t_Points t) \<and>
     (t_Kind t = KindEarn \<or> 0 \<le> bal s' (t_AccountID t))"

fun created_refs :: "(goerr + txn \<times> bool) list \<Rightarrow> string list" where
  "created_refs [] = []"
| "created_refs (Inr (u, True) # rs) = t_Ref u # created_refs rs"
| "created_refs (r # rs) = created_refs rs"

lemma created_effect_other: "\<nexists>u. r = Inr (u, True) \<Longrightarrow> created_effect a r = 0"
  by (cases "(a, r)" rule: created_effect.cases) auto

lemma created_refs_other: "\<nexists>u. r = Inr (u, True) \<Longrightarrow> created_refs (r # rs) = created_refs rs"
  by (cases "r # rs" rule: created_refs.cases) auto

locale txn_contract =
  fixes repo :: "'e \<Rightarrow> 's txn_repository"
    and quiet :: "'e \<Rightarrow> bool"
    and invar :: "'s \<Rightarrow> bool"
    and held :: "'s \<Rightarrow> string \<Rightarrow> txn option"
    and bal :: "'s \<Rightarrow> string \<Rightarrow> int"
  assumes invar_record:
      "\<lbrakk>invar s; repo_RecordTransaction (repo e) t s = (r, s')\<rbrakk> \<Longrightarrow> invar s'"
    and record_created:
      "\<lbrakk>invar s; repo_RecordTransaction (repo e) t s = (Inr (u, True), s')\<rbrakk> \<Longrightarrow> took held bal t u s s'"
    and record_replay:
      "\<lbrakk>invar s; repo_RecordTransaction (repo e) t s = (Inr (u, False), s')\<rbrakk>
         \<Longrightarrow> held s (t_Ref t) = Some u \<and> same_view held bal s s'"
    and record_refused:
      "\<lbrakk>invar s; repo_RecordTransaction (repo e) t s = (Inl err, s')\<rbrakk>
         \<Longrightarrow> same_view held bal s s' \<or> (\<not> quiet e \<and> (\<exists>u. took held bal t u s s'))"
    and record_insufficient:
      "\<lbrakk>invar s; repo_RecordTransaction (repo e) t s = (Inl err, s'); errors_is err ErrInsufficientBalance\<rbrakk>
         \<Longrightarrow> same_view held bal s s' \<and> held s (t_Ref t) = None
             \<and> bal s (t_AccountID t) + signed_points (t_Kind t) (t_Points t) < 0"
begin

lemma record_view:
  assumes "invar s" and "repo_RecordTransaction (repo e) t s = (r, s')"
  shows "same_view held bal s s' \<or> (\<exists>u. took held bal t u s s')"
proof (cases r)
  case (Inl err)
  with assms record_refused show ?thesis by blast
next
  case (Inr p)
  then obtain u b where r: "r = Inr (u, b)" by (cases p) auto
  show ?thesis
  proof (cases b)
    case True
    then have "took held bal t u s s'" using assms r by (intro record_created) auto
    then show ?thesis by blast
  next
    case False
    then have "held s (t_Ref t) = Some u \<and> same_view held bal s s'"
      using assms r by (intro record_replay) auto
    then show ?thesis by blast
  qed
qed

lemma call_view:
  assumes "invar s" and "svc_call_step (repo e) c s = (r, s')"
  shows "invar s' \<and> (same_view held bal s s' \<or> (\<exists>u. took held bal (svc_txn c) u s s'))"
  using svc_call_step_cases [of "repo e" c s]
proof
  assume "svc_call_step (repo e) c s = (Inl (Sentinel ErrInvalidInput), s)"
  with assms show ?thesis by (simp add: same_view_def)
next
  assume "svc_call_step (repo e) c s = repo_RecordTransaction (repo e) (svc_txn c) s
    \<and> t_Ref (svc_txn c) \<noteq> [] \<and> t_AccountID (svc_txn c) \<noteq> [] \<and> 0 < sint (t_Points (svc_txn c))"
  with assms show ?thesis using record_view invar_record by metis
qed

lemma took_nonneg:
  assumes "took held bal t u s s'" and "\<forall>a. 0 \<le> bal s a"
  shows "0 \<le> bal s' a"
proof (cases "a = t_AccountID t \<and> t_Kind t = KindEarn")
  case True
  with assms show ?thesis
    by (auto simp: took_def signed_points_def intro!: add_nonneg_nonneg)
next
  case False
  with assms show ?thesis by (auto simp: took_def)
qed

lemma call_nonneg:
  assumes "invar s" and "svc_call_step (repo e) c s = (r, s')" and "\<forall>a. 0 \<le> bal s a"
  shows "\<forall>a. 0 \<le> bal s' a"
  using call_view [OF assms(1,2)] took_nonneg [OF _ assms(3)] assms(3)
  by (auto simp: same_view_def)

lemma call_held:
  assumes "invar s" and "svc_call_step (repo e) c s = (r, s')" and "held s k = Some u"
  shows "held s' k = Some u"
  using call_view [OF assms(1,2)] assms(3) by (auto simp: same_view_def took_def)

text \<open>A call that returned a transaction leaves exactly that one held under the reference.\<close>

lemma call_returns_held:
  assumes "invar s" and "svc_call_step (repo e) c s = (Inr (u, b), s')"
  shows "held s' (t_Ref (svc_txn c)) = Some u \<and> (b \<longleftrightarrow> held s (t_Ref (svc_txn c)) = None)"
proof -
  have rec: "repo_RecordTransaction (repo e) (svc_txn c) s = (Inr (u, b), s')"
    using svc_call_step_cases [of "repo e" c s] assms(2) by auto
  show ?thesis
  proof (cases b)
    case True
    then have "took held bal (svc_txn c) u s s'" using assms(1) rec by (intro record_created) auto
    with True show ?thesis by (simp add: took_def)
  next
    case False
    then have "held s (t_Ref (svc_txn c)) = Some u \<and> same_view held bal s s'"
      using assms(1) rec by (intro record_replay) auto
    with False show ?thesis by (auto simp: same_view_def)
  qed
qed

lemma call_quiet_refused:
  assumes "invar s" and "quiet e" and "svc_call_step (repo e) c s = (Inl err, s')"
  shows "same_view held bal s s'"
  using svc_call_step_cases [of "repo e" c s] assms record_refused by (fastforce simp: same_view_def)

lemma call_effect:
  assumes "invar s" and "quiet e" and "svc_call_step (repo e) c s = (r, s')"
  shows "bal s' a = bal s a + created_effect a r"
proof (cases "\<exists>u. r = Inr (u, True)")
  case True
  then obtain u where r: "r = Inr (u, True)" by blast
  then have "repo_RecordTransaction (repo e) (svc_txn c) s = (Inr (u, True), s')"
    using svc_call_step_cases [of "repo e" c s] assms(3) by auto
  with record_created [OF assms(1)] have "took held bal (svc_txn c) u s s'" by blast
  then show ?thesis by (auto simp: r took_def)
next
  case False
  then have "created_effect a r = 0" by (rule created_effect_other)
  moreover have "same_view held bal s s'"
  proof (cases r)
    case (Inl err)
    with assms call_quiet_refused show ?thesis by blast
  next
    case (Inr p)
    with False obtain u where "r = Inr (u, False)" by (cases p) auto
    with assms svc_call_step_cases [of "repo e" c s] record_replay [OF assms(1)] show ?thesis
      by (metis Pair_inject sum.distinct(1))
  qed
  ultimately show ?thesis by (simp add: same_view_def)
qed

text \<open>Runs of calls.\<close>

lemma run_invar: "\<lbrakk>invar s; svc_run repo cs s = (rs, s')\<rbrakk> \<Longrightarrow> invar s'"
proof (induction cs arbitrary: s rs)
  case Nil
  then show ?case by simp
next
  case (Cons ec cs)
  then show ?case using call_view by (cases ec) (fastforce split: prod.splits)
qed

lemma run_nonneg:
  "\<lbrakk>invar s; \<forall>a. 0 \<le> bal s a; svc_run repo cs s = (rs, s')\<rbrakk> \<Longrightarrow> \<forall>a. 0 \<le> bal s' a"
proof (induction cs arbitrary: s rs)
  case Nil
  then show ?case by simp
next
  case (Cons ec cs)
  obtain e c where ec: "ec = (e, c)" by (cases ec) auto
  obtain r s1 where step: "svc_call_step (repo e) c s = (r, s1)" by fastforce
  with Cons.prems call_view call_nonneg have "invar s1" and "\<forall>a. 0 \<le> bal s1 a" by blast+
  with Cons.IH Cons.prems(3) step ec show ?case by (auto split: prod.splits)
qed

lemma run_held:
  "\<lbrakk>invar s; held s k = Some u; svc_run repo cs s = (rs, s')\<rbrakk> \<Longrightarrow> held s' k = Some u"
proof (induction cs arbitrary: s rs)
  case Nil
  then show ?case by simp
next
  case (Cons ec cs)
  obtain e c where ec: "ec = (e, c)" by (cases ec) auto
  obtain r s1 where step: "svc_call_step (repo e) c s = (r, s1)" by fastforce
  with Cons.prems call_view call_held have "invar s1" and "held s1 k = Some u" by blast+
  with Cons.IH Cons.prems(3) step ec show ?case by (auto split: prod.splits)
qed

lemma run_effect:
  "\<lbrakk>invar s; \<forall>ec \<in> set cs. quiet (fst ec); svc_run repo cs s = (rs, s')\<rbrakk>
     \<Longrightarrow> bal s' a = bal s a + sum_list (map (created_effect a) rs)"
proof (induction cs arbitrary: s rs)
  case Nil
  then show ?case by simp
next
  case (Cons ec cs)
  obtain e c where ec: "ec = (e, c)" by (cases ec) auto
  obtain r s1 where step: "svc_call_step (repo e) c s = (r, s1)" by fastforce
  obtain rs' where rs: "svc_run repo cs s1 = (rs', s')" "rs = r # rs'"
    using Cons.prems(3) step ec by (auto split: prod.splits)
  have "invar s1" using call_view [OF Cons.prems(1) step] by blast
  then have "bal s' a = bal s1 a + sum_list (map (created_effect a) rs')"
    using Cons.IH Cons.prems(2) rs(1) by auto
  moreover have "bal s1 a = bal s a + created_effect a r"
    using call_effect [OF Cons.prems(1) _ step] Cons.prems(2) ec by simp
  ultimately show ?case by (simp add: rs(2))
qed

text \<open>A reference that is held never appears among the created ones, so none is created twice.\<close>

lemma run_created_refs:
  "\<lbrakk>invar s; svc_run repo cs s = (rs, s')\<rbrakk>
     \<Longrightarrow> distinct (created_refs rs) \<and> (\<forall>k \<in> set (created_refs rs). held s k = None)"
proof (induction cs arbitrary: s rs)
  case Nil
  then show ?case by simp
next
  case (Cons ec cs)
  obtain e c where ec: "ec = (e, c)" by (cases ec) auto
  obtain r s1 where step: "svc_call_step (repo e) c s = (r, s1)" by fastforce
  obtain rs' where rs: "svc_run repo cs s1 = (rs', s')" "rs = r # rs'"
    using Cons.prems(2) step ec by (auto split: prod.splits)
  have "invar s1" using call_view [OF Cons.prems(1) step] by blast
  with Cons.IH rs(1) have IH: "distinct (created_refs rs')" "\<forall>k \<in> set (created_refs rs'). held s1 k = None"
    by blast+
  then have bk: "\<forall>k \<in> set (created_refs rs'). held s k = None"
    using call_held [OF Cons.prems(1) step] by (metis not_Some_eq)
  show ?case
  proof (cases "\<exists>u. r = Inr (u, True)")
    case True
    then obtain u where r: "r = Inr (u, True)" by blast
    with step Cons.prems(1) call_returns_held
    have u: "held s1 (t_Ref (svc_txn c)) = Some u" "held s (t_Ref (svc_txn c)) = None" by blast+
    have "repo_RecordTransaction (repo e) (svc_txn c) s = (Inr (u, True), s1)"
      using svc_call_step_cases [of "repo e" c s] step r by auto
    with record_created [OF Cons.prems(1)] have "took held bal (svc_txn c) u s s1" by blast
    then have "t_Ref u = t_Ref (svc_txn c)" by (simp add: took_def)
    with u IH bk show ?thesis by (auto simp: rs(2) r)
  next
    case False
    then have "created_refs rs = created_refs rs'"
      unfolding rs(2) by (rule created_refs_other)
    with IH bk show ?thesis by simp
  qed
qed

end

section \<open>The contract of an account repository\<close>

text \<open>A credential is the stored hash (empty when there is none) and the role.\<close>

definition opened ::
    "('s \<Rightarrow> string \<Rightarrow> (string \<times> string) option) \<Rightarrow> string \<Rightarrow> string \<Rightarrow> 's \<Rightarrow> 's \<Rightarrow> bool" where
  "opened cred i h s s' \<longleftrightarrow> cred s i = None \<and> cred s' = (cred s)(i \<mapsto> (h, RoleMember))"

locale account_contract =
  fixes arepo :: "'e \<Rightarrow> 's account_repository"
    and quiet :: "'e \<Rightarrow> bool"
    and invar :: "'s \<Rightarrow> bool"
    and cred :: "'s \<Rightarrow> string \<Rightarrow> (string \<times> string) option"
  assumes invar_create:
      "\<lbrakk>invar s; repo_CreateAccount (arepo e) a h s = (r, s')\<rbrakk> \<Longrightarrow> invar s'"
    and create_opened:
      "\<lbrakk>invar s; repo_CreateAccount (arepo e) a h s = (None, s')\<rbrakk> \<Longrightarrow> opened cred (acc_ID a) h s s'"
    and create_refused:
      "\<lbrakk>invar s; repo_CreateAccount (arepo e) a h s = (Some err, s')\<rbrakk>
         \<Longrightarrow> cred s' = cred s \<or> (\<not> quiet e \<and> opened cred (acc_ID a) h s s')"
    and credential_stored:
      "\<lbrakk>invar s; repo_GetCredential (arepo e) i s = Inr c\<rbrakk> \<Longrightarrow> cred s i = Some c"
begin

lemma login_identity:
  assumes "invar s" and "fst (svc_Login bc (arepo e) i secret s) = Inr who"
  shows "id_AccountID who = i \<and>
    (\<exists>h. cred s i = Some (h, id_Role who) \<and> h \<noteq> [] \<and> bc_CompareHashAndPassword bc h secret = None)"
proof -
  obtain h r where "repo_GetCredential (arepo e) i s = Inr (h, r)"
    and "h \<noteq> []" "bc_CompareHashAndPassword bc h secret = None"
    and "who = \<lparr>id_AccountID = i, id_Role = r\<rparr>"
    using assms(2) by (auto simp: svc_Login_def split: sum.splits if_splits option.splits)
  with credential_stored [OF assms(1)] show ?thesis by fastforce
qed

lemma create_view:
  assumes "invar s" and "svc_CreateAccount bc (arepo e) a secret s = (r, s')"
  shows "invar s' \<and> (cred s' = cred s \<or> (\<exists>h. opened cred (acc_ID a) h s s'))"
proof (cases "s' = s")
  case True
  with assms(1) show ?thesis by simp
next
  case False
  then obtain h where rep: "repo_CreateAccount (arepo e) a h s = (r, s')"
    using assms(2) by (auto simp: svc_CreateAccount_def split: sum.splits if_splits)
  have "invar s'" using invar_create [OF assms(1) rep] .
  moreover have "cred s' = cred s \<or> opened cred (acc_ID a) h s s'"
    using rep create_opened [OF assms(1)] create_refused [OF assms(1)] by (cases r) blast+
  ultimately show ?thesis by blast
qed

text \<open>Creating an account never makes an admin and never touches another credential.\<close>

lemma create_no_admin:
  assumes "invar s" and "svc_CreateAccount bc (arepo e) a secret s = (r, s')"
    and "cred s' i = Some (h, RoleAdmin)"
  shows "cred s i = Some (h, RoleAdmin)"
  using create_view [OF assms(1,2)] assms(3)
  by (auto simp: opened_def role_consts split: if_splits)

lemma create_keeps:
  assumes "invar s" and "svc_CreateAccount bc (arepo e) a secret s = (r, s')" and "cred s i = Some c"
  shows "cred s' i = Some c"
  using create_view [OF assms(1,2)] assms(3) by (auto simp: opened_def)

text \<open>The account just created logs in with its secret, wherever its credential can be read.\<close>

lemma create_then_login:
  assumes "invar s" and "svc_CreateAccount bc (arepo e) a secret s = (None, s')"
    and "secret \<noteq> []"
    and hash: "\<And>h. bc_GenerateFromPassword bc secret bcryptCost = Inr h \<Longrightarrow>
                 h \<noteq> [] \<and> bc_CompareHashAndPassword bc h secret = None"
    and read: "repo_GetCredential (arepo e') (acc_ID a) s' = Inr c"
  shows "fst (svc_Login bc (arepo e') (acc_ID a) secret s')
       = Inr \<lparr>id_AccountID = acc_ID a, id_Role = RoleMember\<rparr>"
proof -
  obtain h where h: "bc_GenerateFromPassword bc secret bcryptCost = Inr h"
    and rep: "repo_CreateAccount (arepo e) a h s = (None, s')"
    using assms(2,3) by (auto simp: svc_CreateAccount_def hash_secret_def split: sum.splits if_splits)
  have "opened cred (acc_ID a) h s s'" using create_opened [OF assms(1) rep] .
  moreover have "cred s' (acc_ID a) = Some c"
    using credential_stored [OF invar_create [OF assms(1) rep] read] .
  ultimately have "c = (h, RoleMember)" by (simp add: opened_def)
  with read hash [OF h] show ?thesis by (simp add: svc_Login_def)
qed

end

section \<open>The contract of an audit repository\<close>

text \<open>The stored entry is the given one with the id and the time the store assigned.\<close>

definition same_attempt :: "audit_entry \<Rightarrow> audit_entry \<Rightarrow> bool" where
  "same_attempt e x \<longleftrightarrow>
     ae_Ref x = ae_Ref e \<and> ae_AccountID x = ae_AccountID e \<and> ae_Kind x = ae_Kind e \<and>
     ae_Points x = ae_Points e \<and> ae_Outcome x = ae_Outcome e \<and> ae_Reason x = ae_Reason e"

locale audit_contract =
  fixes aud :: "'e \<Rightarrow> 's audit_repository"
    and quiet :: "'e \<Rightarrow> bool"
    and invar :: "'s \<Rightarrow> bool"
    and log :: "'s \<Rightarrow> audit_entry list"    \<comment> \<open>newest first\<close>
  assumes invar_append:
      "\<lbrakk>invar s; repo_AppendAudit (aud e) x s = (r, s')\<rbrakk> \<Longrightarrow> invar s'"
    and append_logged:
      "\<lbrakk>invar s; repo_AppendAudit (aud e) x s = (Inr y, s')\<rbrakk> \<Longrightarrow> same_attempt x y \<and> log s' = y # log s"
    and append_refused:
      "\<lbrakk>invar s; repo_AppendAudit (aud e) x s = (Inl err, s')\<rbrakk>
         \<Longrightarrow> log s' = log s \<or> (\<not> quiet e \<and> (\<exists>y. same_attempt x y \<and> log s' = y # log s))"
    and list_log:
      "\<lbrakk>invar s; repo_ListAudit (aud e) a s = Inr ys\<rbrakk>
         \<Longrightarrow> ys = (if a = [] then log s else filter (\<lambda>y. ae_AccountID y = a) (log s))"
begin

text \<open>A call adds at most the one entry it was given: the log is append-only.\<close>

lemma record_appends:
  assumes "invar s" and "svc_Record (aud e) x s = (r, s')"
  shows "invar s' \<and> (log s' = log s \<or> (\<exists>y. same_attempt x y \<and> log s' = y # log s))"
proof (cases "valid_outcome (ae_Outcome x)")
  case False
  with assms show ?thesis by (simp add: svc_Record_def)
next
  case True
  with assms(2) have rep: "repo_AppendAudit (aud e) x s = (r, s')" by (simp add: svc_Record_def)
  have "log s' = log s \<or> (\<exists>y. same_attempt x y \<and> log s' = y # log s)"
    using rep append_logged [OF assms(1)] append_refused [OF assms(1)] by (cases r) blast+
  with invar_append [OF assms(1) rep] show ?thesis by blast
qed

text \<open>Recording the same attempt twice yields two entries.\<close>

lemma record_twice:
  assumes "invar s" and "svc_Record (aud e) x s = (Inr y, s')" and "svc_Record (aud e') x s' = (Inr z, s'')"
  shows "log s'' = z # y # log s \<and> same_attempt x y \<and> same_attempt x z"
proof -
  have v: "valid_outcome (ae_Outcome x)"
    using assms(2) by (auto simp: svc_Record_def split: if_splits)
  then have 1: "repo_AppendAudit (aud e) x s = (Inr y, s')"
    and 2: "repo_AppendAudit (aud e') x s' = (Inr z, s'')"
    using assms(2,3) by (simp_all add: svc_Record_def)
  have "invar s'" using invar_append [OF assms(1) 1] .
  then show ?thesis using append_logged [OF assms(1) 1] append_logged [OF _ 2] by simp
qed

end

section \<open>The contract of the wallet's storage\<close>

text \<open>
  One storage behind both interfaces: neither kind of write disturbs the other's view, a balance
  that is reported is the exact one, and the listing reports the same balances.
\<close>

locale wallet_contract =
    txn_contract repo quiet invar held bal + account_contract arepo quiet invar cred
  for repo :: "'e \<Rightarrow> 's txn_repository"
    and quiet :: "'e \<Rightarrow> bool"
    and invar :: "'s \<Rightarrow> bool"
    and held :: "'s \<Rightarrow> string \<Rightarrow> txn option"
    and bal :: "'s \<Rightarrow> string \<Rightarrow> int"
    and arepo :: "'e \<Rightarrow> 's account_repository"
    and cred :: "'s \<Rightarrow> string \<Rightarrow> (string \<times> string) option" +
  assumes create_frame:
      "\<lbrakk>invar s; repo_CreateAccount (arepo e) a h s = (ro, s')\<rbrakk> \<Longrightarrow> same_view held bal s s'"
    and record_frame:
      "\<lbrakk>invar s; repo_RecordTransaction (repo e) t s = (r, s')\<rbrakk> \<Longrightarrow> cred s' = cred s"
    and record_known:
      "\<lbrakk>invar s; repo_RecordTransaction (repo e) t s = (Inr p, s')\<rbrakk> \<Longrightarrow> cred s (t_AccountID t) \<noteq> None"
    and balance_exact:
      "\<lbrakk>invar s; repo_Balance (arepo e) i s = Inr b\<rbrakk> \<Longrightarrow> sint b = bal s i \<and> cred s i \<noteq> None"
    and listing_exact:
      "\<lbrakk>invar s; repo_ListAccounts (arepo e) s = Inr xs\<rbrakk>
         \<Longrightarrow> \<forall>x \<in> set xs. sint (as_Balance x) = bal s (as_ID x) \<and> cred s (as_ID x) \<noteq> None"
begin

text \<open>The balance read after a created transaction is the one read before it, moved by its points.\<close>

lemma balance_moves:
  assumes "invar s" and "repo_Balance (arepo e) (t_AccountID (svc_txn c)) s = Inr b"
    and "svc_call_step (repo e') c s = (Inr (u, True), s')"
    and "repo_Balance (arepo e'') (t_AccountID (svc_txn c)) s' = Inr b'"
  shows "sint b' = sint b + signed_points (t_Kind (svc_txn c)) (t_Points (svc_txn c))"
proof -
  have rep: "repo_RecordTransaction (repo e') (svc_txn c) s = (Inr (u, True), s')"
    using svc_call_step_cases [of "repo e'" c s] assms(3) by auto
  have "took held bal (svc_txn c) u s s'" by (rule record_created [OF assms(1) rep])
  moreover have "sint b = bal s (t_AccountID (svc_txn c))"
    using balance_exact [OF assms(1,2)] by blast
  moreover have "sint b' = bal s' (t_AccountID (svc_txn c))"
    using balance_exact [OF invar_record [OF assms(1) rep] assms(4)] by blast
  ultimately show ?thesis by (simp add: took_def)
qed

lemma listing_agrees:
  assumes "invar s" and "repo_ListAccounts (arepo e) s = Inr xs" and "x \<in> set xs"
    and "repo_Balance (arepo e') (as_ID x) s = Inr b"
  shows "as_Balance x = b"
proof -
  have "sint (as_Balance x) = sint b"
    using listing_exact [OF assms(1,2)] balance_exact [OF assms(1,4)] assms(3) by simp
  then show ?thesis by (simp add: signed_word_eqI)
qed

end

section \<open>The contract of the whole storage\<close>

text \<open>
  How a state may evolve whatever is asked of it: a reference that is held stays held with the same
  transaction, a credential stays, nobody becomes an admin, the audit log only grows at its new end.
\<close>

definition evolves ::
    "('s \<Rightarrow> string \<Rightarrow> txn option) \<Rightarrow> ('s \<Rightarrow> string \<Rightarrow> (string \<times> string) option) \<Rightarrow>
       ('s \<Rightarrow> audit_entry list) \<Rightarrow> 's \<Rightarrow> 's \<Rightarrow> bool" where
  "evolves held cred log s s' \<longleftrightarrow>
     (\<forall>k u. held s k = Some u \<longrightarrow> held s' k = Some u) \<and>
     (\<forall>i c. cred s i = Some c \<longrightarrow> cred s' i = Some c) \<and>
     (\<forall>i h. cred s' i = Some (h, RoleAdmin) \<longrightarrow> cred s i = Some (h, RoleAdmin)) \<and>
     (\<exists>new. log s' = new @ log s)"

lemma evolves_refl: "evolves held cred log s s"
  by (simp add: evolves_def)

lemma evolves_trans:
  assumes 1: "evolves held cred log s s1" and 2: "evolves held cred log s1 s2"
  shows "evolves held cred log s s2"
proof -
  obtain n1 n2 where "log s1 = n1 @ log s" and "log s2 = n2 @ log s1"
    using 1 2 unfolding evolves_def by blast
  then have "\<exists>new. log s2 = new @ log s" by simp
  moreover have "held s k = Some u \<Longrightarrow> held s2 k = Some u" for k u
    using 1 2 unfolding evolves_def by blast
  moreover have "cred s i = Some c \<Longrightarrow> cred s2 i = Some c" for i c
    using 1 2 unfolding evolves_def by blast
  moreover have "cred s2 i = Some (h, RoleAdmin) \<Longrightarrow> cred s i = Some (h, RoleAdmin)" for i h
    using 1 2 unfolding evolves_def by blast
  ultimately show ?thesis unfolding evolves_def by blast
qed

text \<open>
  \<open>keeps \<dots> P s s'\<close>: from a state within the invariant, \<open>s'\<close> is within it too, no balance went below
  zero, only balances of accounts in \<open>P\<close> moved, and the state evolved.
\<close>

definition keeps ::
    "('s \<Rightarrow> bool) \<Rightarrow> ('s \<Rightarrow> string \<Rightarrow> txn option) \<Rightarrow> ('s \<Rightarrow> string \<Rightarrow> int) \<Rightarrow>
       ('s \<Rightarrow> string \<Rightarrow> (string \<times> string) option) \<Rightarrow> ('s \<Rightarrow> audit_entry list) \<Rightarrow>
       (string \<Rightarrow> bool) \<Rightarrow> 's \<Rightarrow> 's \<Rightarrow> bool" where
  "keeps invar held bal cred log P s s' \<longleftrightarrow>
     (invar s \<longrightarrow> invar s' \<and> ((\<forall>a. 0 \<le> bal s a) \<longrightarrow> (\<forall>a. 0 \<le> bal s' a)) \<and>
        (\<forall>a. bal s' a \<noteq> bal s a \<longrightarrow> P a) \<and> evolves held cred log s s')"

lemma keepsI:
  assumes "invar s \<Longrightarrow> invar s'"
    and "\<lbrakk>invar s; \<forall>a. 0 \<le> bal s a\<rbrakk> \<Longrightarrow> \<forall>a. 0 \<le> bal s' a"
    and "\<And>a. \<lbrakk>invar s; bal s' a \<noteq> bal s a\<rbrakk> \<Longrightarrow> P a"
    and "invar s \<Longrightarrow> evolves held cred log s s'"
  shows "keeps invar held bal cred log P s s'"
  using assms unfolding keeps_def by blast

lemma keeps_refl [simp]: "keeps invar held bal cred log P s s"
  by (simp add: keeps_def evolves_refl)

lemma keeps_trans:
  assumes 1: "keeps invar held bal cred log P s s1" and 2: "keeps invar held bal cred log P s1 s2"
  shows "keeps invar held bal cred log P s s2"
proof (rule keepsI)
  assume inv: "invar s"
  with 1 have s1: "invar s1" by (simp add: keeps_def)
  with 2 show "invar s2" by (simp add: keeps_def)
  show "evolves held cred log s s2"
    using 1 2 inv s1 evolves_trans [of held cred log s s1 s2] by (simp add: keeps_def)
  show "\<forall>a. 0 \<le> bal s2 a" if "\<forall>a. 0 \<le> bal s a"
    using 1 2 inv s1 that by (simp add: keeps_def)
  show "P a" if "bal s2 a \<noteq> bal s a" for a
    using 1 2 inv s1 that by (cases "bal s1 a = bal s a") (auto simp: keeps_def)
qed

lemma keeps_mono:
  assumes "keeps invar held bal cred log P s s'" and "\<And>a. P a \<Longrightarrow> Q a"
  shows "keeps invar held bal cred log Q s s'"
  using assms unfolding keeps_def by blast

locale api_contract =
    wallet_contract repo quiet invar held bal arepo cred + audit_contract aud quiet invar log
  for repo :: "'e \<Rightarrow> 's txn_repository"
    and quiet :: "'e \<Rightarrow> bool"
    and invar :: "'s \<Rightarrow> bool"
    and held :: "'s \<Rightarrow> string \<Rightarrow> txn option"
    and bal :: "'s \<Rightarrow> string \<Rightarrow> int"
    and arepo :: "'e \<Rightarrow> 's account_repository"
    and cred :: "'s \<Rightarrow> string \<Rightarrow> (string \<times> string) option"
    and aud :: "'e \<Rightarrow> 's audit_repository"
    and log :: "'s \<Rightarrow> audit_entry list" +
  assumes record_log:
      "\<lbrakk>invar s; repo_RecordTransaction (repo e) t s = (r, s')\<rbrakk> \<Longrightarrow> log s' = log s"
    and create_log:
      "\<lbrakk>invar s; repo_CreateAccount (arepo e) a h s = (ro, s')\<rbrakk> \<Longrightarrow> log s' = log s"
    and append_view:
      "\<lbrakk>invar s; repo_AppendAudit (aud e) x s = (ra, s')\<rbrakk>
         \<Longrightarrow> same_view held bal s s' \<and> cred s' = cred s"
begin

lemma call_keeps:
  assumes step: "svc_call_step (repo e) c s = (r, s')"
  shows "keeps invar held bal cred log (\<lambda>a. a = t_AccountID (svc_txn c)) s s'"
proof (cases "invar s \<and> s' \<noteq> s")
  case False
  then show ?thesis by (auto simp: keeps_def evolves_refl)
next
  case True
  then have inv: "invar s" by simp
  have rep: "repo_RecordTransaction (repo e) (svc_txn c) s = (r, s')"
    using svc_call_step_cases [of "repo e" c s] step True by auto
  have "cred s' = cred s" by (rule record_frame [OF inv rep])
  moreover have "log s' = log s" by (rule record_log [OF inv rep])
  moreover have "\<And>k u. held s k = Some u \<Longrightarrow> held s' k = Some u"
    using call_held [OF inv step] by blast
  moreover have pts: "\<And>a. bal s' a \<noteq> bal s a \<Longrightarrow> a = t_AccountID (svc_txn c)"
    using call_view [OF inv step] by (auto simp: same_view_def took_def split: if_splits)
  ultimately have "evolves held cred log s s'" by (simp add: evolves_def)
  with pts show ?thesis
    using call_view [OF inv step] call_nonneg [OF inv step] by (intro keepsI) blast+
qed

lemma create_keeps_all:
  assumes step: "svc_CreateAccount bc (arepo e) a secret s = (r, s')"
  shows "keeps invar held bal cred log P s s'"
proof (cases "invar s \<and> s' \<noteq> s")
  case False
  then show ?thesis by (auto simp: keeps_def evolves_refl)
next
  case True
  then have inv: "invar s" by simp
  obtain h where rep: "repo_CreateAccount (arepo e) a h s = (r, s')"
    using step True by (auto simp: svc_CreateAccount_def split: sum.splits if_splits)
  have same: "held s' = held s" "bal s' = bal s"
    using create_frame [OF inv rep] by (simp_all add: same_view_def)
  have log: "log s' = log s" by (rule create_log [OF inv rep])
  have "\<And>i h. cred s' i = Some (h, RoleAdmin) \<Longrightarrow> cred s i = Some (h, RoleAdmin)"
    and "\<And>i c. cred s i = Some c \<Longrightarrow> cred s' i = Some c"
    using create_no_admin [OF inv step] create_keeps [OF inv step] by blast+
  then have "evolves held cred log s s'"
    unfolding evolves_def same log by blast
  moreover have "invar s'" using create_view [OF inv step] by blast
  ultimately show ?thesis by (intro keepsI) (simp_all add: same)
qed

lemma record_audit_keeps:
  assumes step: "svc_Record (aud e) x s = (r, s')"
  shows "keeps invar held bal cred log P s s'"
proof (cases "invar s \<and> s' \<noteq> s")
  case False
  then show ?thesis by (auto simp: keeps_def evolves_refl)
next
  case True
  then have inv: "invar s" by simp
  have rep: "repo_AppendAudit (aud e) x s = (r, s')"
    using step True by (auto simp: svc_Record_def split: if_splits)
  have "\<exists>new. log s' = new @ log s"
    using record_appends [OF inv step] by (metis append_Cons append_Nil)
  then show ?thesis
    using append_view [OF inv rep] record_appends [OF inv step]
    by (intro keepsI) (simp_all add: evolves_def same_view_def)
qed

end

end
