(* ===== verification/Wire.thy ===== *)
theory Wire
  imports Domain "HOL-Library.AList"
begin

text \<open>
  The wire vocabulary of the API: the request and response types of
  \<^verbatim>\<open>internal/httpapi/gen/types_server.gen.go\<close>, their enums with the \<open>Valid\<close> methods, the
  request a handler sees, the response it writes, and the one error envelope
  (\<^verbatim>\<open>errors.go\<close>, \<^verbatim>\<open>writeJSON\<close>).

  Named string types hold any string, so the enums are predicates on strings. A \<^verbatim>\<open>*string\<close> is an
  option. A response holds the Go value handed to the JSON encoder (\<open>body\<close>), not its bytes; the
  two responses written as exact bytes (health, infra) hold those bytes.
\<close>

section \<open>Enums\<close>

definition AccountSummaryRole_Valid :: "string \<Rightarrow> bool" where
  "AccountSummaryRole_Valid x \<longleftrightarrow> x = ''admin'' \<or> x = ''member''"

definition AuditEntryOutcome_Valid :: "string \<Rightarrow> bool" where
  "AuditEntryOutcome_Valid x \<longleftrightarrow> x = ''accepted'' \<or> x = ''duplicate'' \<or> x = ''rejected''"

definition HealthDb_Valid :: "string \<Rightarrow> bool" where
  "HealthDb_Valid x \<longleftrightarrow> x = ''down'' \<or> x = ''up''"

definition HealthStatus_Valid :: "string \<Rightarrow> bool" where
  "HealthStatus_Valid x \<longleftrightarrow> x = ''degraded'' \<or> x = ''ok''"

definition LedgerEntryKind_Valid :: "string \<Rightarrow> bool" where
  "LedgerEntryKind_Valid x \<longleftrightarrow> x = ''earn'' \<or> x = ''redeem'' \<or> x = ''spend''"

definition NewTransactionKind_Valid :: "string \<Rightarrow> bool" where
  "NewTransactionKind_Valid x \<longleftrightarrow> x = ''earn'' \<or> x = ''spend''"

definition gen_Redeem :: string where "gen_Redeem = ''redeem''"

definition RedemptionKind_Valid :: "string \<Rightarrow> bool" where
  "RedemptionKind_Valid x \<longleftrightarrow> x = gen_Redeem"

definition gen_Bearer :: string where "gen_Bearer = ''Bearer''"

definition TokenResponseTokenType_Valid :: "string \<Rightarrow> bool" where
  "TokenResponseTokenType_Valid x \<longleftrightarrow> x = gen_Bearer"

definition TransactionKind_Valid :: "string \<Rightarrow> bool" where
  "TransactionKind_Valid x \<longleftrightarrow> x = ''earn'' \<or> x = ''spend''"

lemmas enum_defs = AccountSummaryRole_Valid_def AuditEntryOutcome_Valid_def HealthDb_Valid_def
  HealthStatus_Valid_def LedgerEntryKind_Valid_def NewTransactionKind_Valid_def gen_Redeem_def
  RedemptionKind_Valid_def gen_Bearer_def TokenResponseTokenType_Valid_def TransactionKind_Valid_def

section \<open>Bodies of requests\<close>

record new_account_body =
  na_AccountId :: string
  na_Name :: string
  na_Secret :: "string option"

record login_request =
  lq_AccountId :: string
  lq_Secret :: "string option"

record new_redemption =
  nr_OccurredAt :: gotime
  nr_Points :: int64
  nr_Ref :: string
  nr_Reward :: string

record new_transaction =
  nt_AccountId :: string
  nt_Kind :: string
  nt_OccurredAt :: gotime
  nt_Points :: int64
  nt_Ref :: string

section \<open>Bodies of responses\<close>

record gen_account =
  ga_AccountId :: string
  ga_CreatedAt :: gotime
  ga_Name :: string

record gen_account_summary =
  gs_AccountId :: string
  gs_Balance :: int64
  gs_Name :: string
  gs_Role :: string

record gen_audit_entry =
  ge_AccountId :: string
  ge_CreatedAt :: gotime
  ge_Id :: int64
  ge_Kind :: string
  ge_Outcome :: string
  ge_Points :: int64
  ge_Reason :: string
  ge_Ref :: string

record gen_balance =
  gb_AccountId :: string
  gb_Balance :: int64

record batch_summary =
  bs_Accepted :: int64
  bs_Duplicates :: int64
  bs_Processed :: int64
  bs_Rejected :: int64

record gen_error =
  er_Code :: string
  er_Message :: string
  er_RequestId :: "string option"

record gen_health =
  gh_Db :: string
  gh_Status :: string

record ledger_entry =
  le_Kind :: string
  le_OccurredAt :: gotime
  le_Points :: int64
  le_Ref :: string

record redemption =
  rd_AccountId :: string
  rd_Kind :: string
  rd_OccurredAt :: gotime
  rd_Points :: int64
  rd_Ref :: string
  rd_Reward :: string

record token_response =
  tk_ExpiresIn :: int
  tk_Token :: string
  tk_TokenType :: string

record gen_transaction =
  gt_AccountId :: string
  gt_Kind :: string
  gt_OccurredAt :: gotime
  gt_Points :: int64
  gt_Ref :: string

datatype body =
    BError gen_error
  | BAccount gen_account
  | BAccountList "gen_account_summary list"
  | BBalance gen_balance
  | BTransactionList "ledger_entry list"
  | BTransaction gen_transaction
  | BRedemption redemption
  | BAuditLog "gen_audit_entry list"
  | BBatchSummary batch_summary
  | BHealth gen_health
  | BToken token_response
  | BBytes string

section \<open>Requests and responses\<close>

text \<open>
  What the code reads of a request: the method, \<^verbatim>\<open>r.URL.Path\<close>, the \<^verbatim>\<open>Authorization\<close> header (empty
  when there is none), the query and the body as received, and the two values it keeps in the
  request context, the request id and the verified identity.
\<close>

record request =
  rq_Method :: string
  rq_Path :: string
  rq_Authorization :: string
  rq_Query :: string
  rq_Body :: string
  rq_RequestID :: string
  rq_Identity :: "identity option"

type_synonym headers = "(string \<times> string) list"

record response =
  rs_Status :: int
  rs_Header :: headers
  rs_Body :: body

definition writeJSON :: "headers \<Rightarrow> int \<Rightarrow> body \<Rightarrow> response" where
  "writeJSON hs status v =
     \<lparr>rs_Status = status, rs_Header = AList.update ''Content-Type'' ''application/json'' hs, rs_Body = v\<rparr>"

section \<open>The error envelope (errors.go)\<close>

definition writeError :: "headers \<Rightarrow> request \<Rightarrow> int \<Rightarrow> string \<Rightarrow> string \<Rightarrow> response" where
  "writeError hs r status code message =
     \<lparr>rs_Status = status, rs_Header = AList.update ''Content-Type'' ''application/json'' hs,
      rs_Body = BError \<lparr>er_Code = code, er_Message = message,
        er_RequestId = (if rq_RequestID r = [] then None else Some (rq_RequestID r))\<rparr>\<rparr>"

definition writeDomainError :: "request \<Rightarrow> goerr \<Rightarrow> response" where
  "writeDomainError r err =
     (if errors_is err ErrForbidden
        then writeError [] r 403 ''forbidden'' ''you may not access this account''
      else if errors_is err ErrNotFound
        then writeError [] r 404 ''not_found'' ''resource not found''
      else if errors_is err ErrAccountExists
        then writeError [] r 409 ''account_exists'' ''account_id already exists''
      else if errors_is err ErrInsufficientBalance
        then writeError [] r 409 ''insufficient_balance'' ''transaction would drive balance below zero''
      else if errors_is err ErrInvalidInput
        then writeError [] r 400 ''invalid_input'' ''request body is invalid''
      else writeError [] r 500 ''internal_error'' ''an unexpected error occurred'')"

definition notFoundHandler :: "request \<Rightarrow> response" where
  "notFoundHandler r = writeError [] r 404 ''not_found'' ''resource not found''"

text \<open>\<open>hs\<close> are the headers the router set before calling the handler.\<close>

definition methodNotAllowedHandler :: "headers \<Rightarrow> request \<Rightarrow> response" where
  "methodNotAllowedHandler hs r =
     (let hs' = (case map_of hs ''Allow'' of
                   Some (c # cs) \<Rightarrow> hs
                 | _ \<Rightarrow> AList.update ''Allow'' ''GET'' hs)
      in writeError hs' r 405 ''method_not_allowed'' ''method not allowed'')"

text \<open>
  An \<^verbatim>\<open>http.Handler\<close> writes a response or panics (\<open>Inl\<close> the value). \<open>recoverer\<close> turns a panic of
  the handler it wraps into a clean 500 in the envelope.
\<close>

type_synonym 's http_handler = "request \<Rightarrow> 's \<Rightarrow> (string + response) \<times> 's"

definition recoverer :: "'s http_handler \<Rightarrow> request \<Rightarrow> 's \<Rightarrow> response \<times> 's" where
  "recoverer next1 r s =
     (case next1 r s of
        (Inr resp, s') \<Rightarrow> (resp, s')
      | (Inl rec, s') \<Rightarrow> (writeError [] r 500 ''internal_error'' ''an unexpected error occurred'', s'))"

definition is_error :: "response \<Rightarrow> bool" where
  "is_error p \<longleftrightarrow> (case rs_Body p of BError x \<Rightarrow> True | _ \<Rightarrow> False)"

lemma writeError_simps [simp]:
  "rs_Status (writeError hs r st c m) = st"
  "is_error (writeError hs r st c m)"
  by (simp_all add: writeError_def is_error_def)

lemma writeJSON_simps [simp]:
  "rs_Status (writeJSON hs st v) = st" "rs_Body (writeJSON hs st v) = v"
  by (simp_all add: writeJSON_def)

lemma writeDomainError_status:
  "rs_Status (writeDomainError r err) \<in> {400, 403, 404, 409, 500}" "is_error (writeDomainError r err)"
  by (simp_all add: writeDomainError_def)

lemma writeDomainError_Sentinel:
  "writeDomainError r (Sentinel ErrForbidden) =
     writeError [] r 403 ''forbidden'' ''you may not access this account''"
  "writeDomainError r (Sentinel ErrNotFound) = writeError [] r 404 ''not_found'' ''resource not found''"
  "writeDomainError r (Sentinel ErrInvalidInput) =
     writeError [] r 400 ''invalid_input'' ''request body is invalid''"
  by (simp_all add: writeDomainError_def)

end
