(* ===== verification/Auth.thy ===== *)
theory Auth
  imports Wire GoText
begin

text \<open>
  Tokens and the access gates (\<^verbatim>\<open>auth.go\<close>, \<^verbatim>\<open>identity.go\<close>). The JWT library is third-party: the
  record \<open>jwt_lib\<close> holds its two functions, signing claims with a method and a key, and parsing a
  raw token with a key and the list of accepted methods at a given time. The options the code
  passes (HS256, the pinned method list) are in the definitions.
\<close>

section \<open>Claims and tokens\<close>

text \<open>\<open>iat\<close> and \<open>exp\<close> are numeric dates, whole seconds since the Unix epoch.\<close>

record claims =
  cl_Role :: string
  cl_Subject :: string
  cl_IssuedAt :: int
  cl_ExpiresAt :: int

record jwt_lib =
  jwt_SignedString :: "string \<Rightarrow> claims \<Rightarrow> string \<Rightarrow> goerr + string"
  jwt_ParseWithClaims :: "string \<Rightarrow> string \<Rightarrow> string list \<Rightarrow> gotime \<Rightarrow> goerr + claims"

definition ns_per_second :: int where "ns_per_second = 1000000000"

text \<open>\<^verbatim>\<open>now.Add(ttl)\<close>, \<open>ttl\<close> in nanoseconds; a numeric date keeps the seconds.\<close>

definition tm_Add :: "gotime \<Rightarrow> int \<Rightarrow> gotime" where
  "tm_Add t ttl =
     (let n = tm_nsec t + ttl
      in \<lparr>tm_sec = tm_sec t + n div ns_per_second, tm_nsec = n mod ns_per_second\<rparr>)"

definition token_claims :: "identity \<Rightarrow> gotime \<Rightarrow> int \<Rightarrow> claims" where
  "token_claims i now ttl =
     \<lparr>cl_Role = id_Role i, cl_Subject = id_AccountID i, cl_IssuedAt = tm_sec now,
      cl_ExpiresAt = tm_sec (tm_Add now ttl)\<rparr>"

definition IssueToken :: "jwt_lib \<Rightarrow> string \<Rightarrow> int \<Rightarrow> identity \<Rightarrow> gotime \<Rightarrow> goerr + string" where
  "IssueToken j secret ttl i now =
     jwt_SignedString j ''HS256'' (token_claims i now ttl) secret"

definition verifyToken :: "jwt_lib \<Rightarrow> string \<Rightarrow> string \<Rightarrow> gotime \<Rightarrow> goerr + identity" where
  "verifyToken j secret raw now =
     (case jwt_ParseWithClaims j raw secret [''HS256''] now of
        Inl err \<Rightarrow> Inl err
      | Inr c \<Rightarrow>
          (case ParseRole (cl_Role c) of
             Inl err \<Rightarrow> Inl err
           | Inr role \<Rightarrow>
               if cl_Subject c = [] then Inl (ErrorsNew ''token missing subject'')
               else Inr \<lparr>id_AccountID = cl_Subject c, id_Role = role\<rparr>))"

definition bearerToken :: "request \<Rightarrow> string option" where
  "bearerToken r =
     (let h = rq_Authorization r; prefix = ''Bearer ''
      in if length h \<le> length prefix \<or> \<not> EqualFold (take (length prefix) h) prefix then None
         else let tok = TrimSpace (drop (length prefix) h)
              in if tok = [] then None else Some tok)"

text \<open>The middleware runs the next handler with the verified identity in the context.\<close>

definition Authenticator ::
    "jwt_lib \<Rightarrow> gotime \<Rightarrow> string \<Rightarrow> 's http_handler \<Rightarrow> 's http_handler" where
  "Authenticator j now secret next1 r s =
     (case bearerToken r of
        None \<Rightarrow> (Inr (writeError [] r 401 ''unauthorized'' ''missing or malformed bearer token''), s)
      | Some raw \<Rightarrow>
          (case verifyToken j secret raw now of
             Inl err \<Rightarrow> (Inr (writeError [] r 401 ''unauthorized'' ''invalid token''), s)
           | Inr i \<Rightarrow> next1 (r\<lparr>rq_Identity := Some i\<rparr>) s))"

definition identityFrom :: "request \<Rightarrow> identity option" where
  "identityFrom r = rq_Identity r"

section \<open>The gates (identity.go)\<close>

definition authorizeTarget :: "request \<Rightarrow> string \<Rightarrow> goerr + string" where
  "authorizeTarget r target =
     (case identityFrom r of
        None \<Rightarrow> Inl (Sentinel ErrForbidden)
      | Some i \<Rightarrow> (case Authorize i target of
                     Some err \<Rightarrow> Inl err
                   | None \<Rightarrow> Inr target))"

definition requireAdmin :: "request \<Rightarrow> goerr option" where
  "requireAdmin r =
     (case identityFrom r of
        None \<Rightarrow> Some (Sentinel ErrForbidden)
      | Some i \<Rightarrow> if id_Role i \<noteq> RoleAdmin then Some (Sentinel ErrForbidden) else None)"

text \<open>Who a request may act for: an admin for anyone, a member for the own account.\<close>

definition may_act :: "request \<Rightarrow> string \<Rightarrow> bool" where
  "may_act r a \<longleftrightarrow> (\<exists>i. rq_Identity r = Some i \<and> (id_Role i = RoleAdmin \<or> id_AccountID i = a))"

definition is_admin :: "request \<Rightarrow> bool" where
  "is_admin r \<longleftrightarrow> (\<exists>i. rq_Identity r = Some i \<and> id_Role i = RoleAdmin)"

lemma authorizeTarget_Inr: "authorizeTarget r t = Inr a \<longleftrightarrow> a = t \<and> may_act r t"
  by (auto simp: authorizeTarget_def identityFrom_def may_act_def Authorize_def split: option.splits)

lemma authorizeTarget_Inl: "authorizeTarget r t = Inl err \<Longrightarrow> err = Sentinel ErrForbidden \<and> \<not> may_act r t"
  by (auto simp: authorizeTarget_def identityFrom_def may_act_def Authorize_def
      split: option.splits if_splits)

lemma requireAdmin_None: "requireAdmin r = None \<longleftrightarrow> is_admin r"
  by (auto simp: requireAdmin_def identityFrom_def is_admin_def split: option.splits)

lemma requireAdmin_Some: "requireAdmin r = Some err \<Longrightarrow> err = Sentinel ErrForbidden"
  by (auto simp: requireAdmin_def split: option.splits if_splits)

lemma authorizeTarget_eq:
  "authorizeTarget r t = (if may_act r t then Inr t else Inl (Sentinel ErrForbidden))"
  using authorizeTarget_Inr [of r t] authorizeTarget_Inl [of r t] by (cases "authorizeTarget r t") auto

lemma requireAdmin_eq:
  "requireAdmin r = (if is_admin r then None else Some (Sentinel ErrForbidden))"
  using requireAdmin_None [of r] requireAdmin_Some [of r] by (cases "requireAdmin r") auto

lemma verifyToken_Inr:
  assumes "verifyToken j secret raw now = Inr i"
  shows "\<exists>c. jwt_ParseWithClaims j raw secret [''HS256''] now = Inr c \<and> id_AccountID i = cl_Subject c
    \<and> id_Role i = cl_Role c \<and> cl_Subject c \<noteq> [] \<and> (id_Role i = RoleMember \<or> id_Role i = RoleAdmin)"
  using assms by (auto simp: verifyToken_def ParseRole_Inr split: sum.splits if_splits)

text \<open>The identity a request proves with its token at time \<open>now\<close>, if any.\<close>

definition proven_identity :: "jwt_lib \<Rightarrow> gotime \<Rightarrow> string \<Rightarrow> request \<Rightarrow> identity option" where
  "proven_identity j now secret r =
     (case bearerToken r of None \<Rightarrow> None
      | Some raw \<Rightarrow> (case verifyToken j secret raw now of Inl err \<Rightarrow> None | Inr i \<Rightarrow> Some i))"

lemma Authenticator_None:
  "proven_identity j now secret r = None \<Longrightarrow>
     \<exists>p. Authenticator j now secret next1 r s = (Inr p, s) \<and> rs_Status p = 401 \<and> is_error p"
  by (auto simp: Authenticator_def proven_identity_def split: option.splits sum.splits)

lemma Authenticator_Some:
  "proven_identity j now secret r = Some i \<Longrightarrow>
     Authenticator j now secret next1 r s = next1 (r\<lparr>rq_Identity := Some i\<rparr>) s"
  by (auto simp: Authenticator_def proven_identity_def split: option.splits sum.splits)

end
