(* ===== verification/GoJSON.thy ===== *)
theory GoJSON
  imports GoTime
begin

text \<open>
  Go's \<^verbatim>\<open>encoding/json\<close> as the handlers use it: one value read off the front of a body by
  \<^verbatim>\<open>Decoder.Decode\<close> (what follows the value is not looked at), and the text \<^verbatim>\<open>Encoder.Encode\<close> writes.

  Reading is in three stages. \<open>json_tokens\<close> splits the body into tokens, with a bad token where the
  package's scanner stops. \<open>json_run\<close> is the scanner's state machine over tokens, with its stack of
  open arrays and objects and its nesting limit, building the value. The targets (\<open>set_string\<close>,
  \<open>set_int64\<close>, \<open>set_time\<close>, \<open>decode_object\<close>) store a value into a field of a Go struct, \<open>None\<close> where the
  package reports an error: names match exactly or after case folding, unknown names are skipped, a
  later duplicate wins, \<^verbatim>\<open>null\<close> leaves a field as it is.

  A string is kept as it is written between its quotes; \<open>unquote\<close> is its value, with invalid UTF-8
  and lone surrogates replaced by U+FFFD.
\<close>

section \<open>UTF-8\<close>

abbreviation byte :: "char \<Rightarrow> int" where "byte c \<equiv> of_char c"

definition byte_in :: "int \<Rightarrow> int \<Rightarrow> char \<Rightarrow> bool" where
  "byte_in lo hi c \<longleftrightarrow> lo \<le> byte c \<and> byte c \<le> hi"

abbreviation is_cont :: "char \<Rightarrow> bool" where "is_cont \<equiv> byte_in 0x80 0xBF"

text \<open>The size a first byte announces, 0 when it starts no rune; the second byte is restricted for some.\<close>

definition lead_size :: "char \<Rightarrow> nat" where
  "lead_size a =
     (if byte_in 0 0x7F a then 1 else if byte_in 0xC2 0xDF a then 2
      else if byte_in 0xE0 0xEF a then 3 else if byte_in 0xF0 0xF4 a then 4 else 0)"

definition second_ok :: "char \<Rightarrow> char \<Rightarrow> bool" where
  "second_ok a b =
     byte_in (if byte a = 0xE0 then 0xA0 else if byte a = 0xF0 then 0x90 else 0x80)
             (if byte a = 0xED then 0x9F else if byte a = 0xF4 then 0x8F else 0xBF) b"

fun is_rune :: "string \<Rightarrow> bool" where
  "is_rune [] = False"
| "is_rune [a] = (lead_size a = 1)"
| "is_rune (a # b # u) = (lead_size a = length (a # b # u) \<and> second_ok a b \<and> list_all is_cont u)"

text \<open>The length of the encoded rune at the front, 0 when there is none (\<^verbatim>\<open>utf8.DecodeRune\<close>).\<close>

definition rune_len :: "string \<Rightarrow> nat" where
  "rune_len s =
     (case s of [] \<Rightarrow> 0 | a # _ \<Rightarrow> if is_rune (take (lead_size a) s) then lead_size a else 0)"

function valid_utf8 :: "string \<Rightarrow> bool" where
  "valid_utf8 s =
     (if s = [] then True
      else if rune_len s = 0 then False else valid_utf8 (drop (rune_len s) s))"
  by pat_completeness auto
termination
  by (relation "measure length") auto

declare valid_utf8.simps [simp del]

definition replacement :: string where
  "replacement = [CHR 0xEF, CHR 0xBF, CHR 0xBD]"

definition byte_char :: "int \<Rightarrow> char" where "byte_char n = char_of n"

definition encode_rune :: "int \<Rightarrow> string" where
  "encode_rune r =
     (if r < 0 \<or> 0x10FFFF < r \<or> (0xD800 \<le> r \<and> r \<le> 0xDFFF) then replacement
      else if r < 0x80 then [byte_char r]
      else if r < 0x800 then [byte_char (0xC0 + r div 64), byte_char (0x80 + r mod 64)]
      else if r < 0x10000
      then [byte_char (0xE0 + r div 4096), byte_char (0x80 + r div 64 mod 64), byte_char (0x80 + r mod 64)]
      else [byte_char (0xF0 + r div 262144), byte_char (0x80 + r div 4096 mod 64),
            byte_char (0x80 + r div 64 mod 64), byte_char (0x80 + r mod 64)])"

section \<open>Tokens\<close>

abbreviation dquote :: char where "dquote \<equiv> CHR 0x22"
abbreviation backslash :: char where "backslash \<equiv> CHR 0x5C"

definition is_hex :: "char \<Rightarrow> bool" where
  "is_hex c \<longleftrightarrow> is_digit c \<or> byte_in 97 102 c \<or> byte_in 65 70 c"

definition hex_val :: "char \<Rightarrow> int" where
  "hex_val c = (if is_digit c then byte c - 48 else if byte_in 97 102 c then byte c - 87 else byte c - 55)"

definition simple_escape :: "char \<Rightarrow> char option" where
  "simple_escape c =
     map_of [(dquote, dquote), (backslash, backslash), (CHR ''/'', CHR ''/''), (CHR ''b'', CHR 0x08),
             (CHR ''f'', CHR 0x0C), (CHR ''n'', CHR 0x0A), (CHR ''r'', CHR 0x0D), (CHR ''t'', CHR 0x09)] c"

text \<open>The length of the escape sequence behind a backslash, 0 when it is none.\<close>

fun escape_len :: "string \<Rightarrow> nat" where
  "escape_len [] = 0"
| "escape_len (d # s) =
     (if simple_escape d \<noteq> None then 1
      else (case s of
              h1 # h2 # h3 # h4 # _ \<Rightarrow>
                if d = CHR ''u'' \<and> is_hex h1 \<and> is_hex h2 \<and> is_hex h3 \<and> is_hex h4 then 5 else 0
            | _ \<Rightarrow> 0))"

text \<open>From behind the opening quote: the text up to the closing quote and what follows it.\<close>

fun lex_string :: "string \<Rightarrow> (string \<times> string) option" where
  "lex_string [] = None"
| "lex_string (c # s) =
     (if c = dquote then Some ([], s)
      else if c = backslash
      then (if escape_len s = 0 then None
            else map_option (\<lambda>(r, s'). (c # take (escape_len s) s @ r, s')) (lex_string (drop (escape_len s) s)))
      else if byte c < 0x20 then None
      else map_option (\<lambda>(r, s'). (c # r, s')) (lex_string s))"

lemma lex_string_less: "lex_string s = Some (r, s') \<Longrightarrow> length s' < length s"
  by (induction s arbitrary: r rule: lex_string.induct) (fastforce split: if_splits)+

definition lex_frac :: "string \<Rightarrow> (string \<times> string) option" where
  "lex_frac s =
     (case s of
        c # t \<Rightarrow>
          if c = CHR ''.''
          then (if takeWhile is_digit t = [] then None
                else Some (c # takeWhile is_digit t, dropWhile is_digit t))
          else Some ([], s)
      | [] \<Rightarrow> Some ([], s))"

definition lex_exp :: "string \<Rightarrow> (string \<times> string) option" where
  "lex_exp s =
     (case s of
        c # t \<Rightarrow>
          if c = CHR ''e'' \<or> c = CHR ''E''
          then (let sgn = takeWhile (\<lambda>x. x = CHR ''+'' \<or> x = CHR ''-'') (take 1 t); u = drop (length sgn) t
                in if takeWhile is_digit u = [] then None
                   else Some (c # sgn @ takeWhile is_digit u, dropWhile is_digit u))
          else Some ([], s)
      | [] \<Rightarrow> Some ([], s))"

definition lex_nat :: "string \<Rightarrow> (string \<times> string) option" where
  "lex_nat s =
     (case s of
        c # t \<Rightarrow>
          if c = CHR ''0'' then Some ([c], t)
          else if is_digit c then Some (takeWhile is_digit s, dropWhile is_digit s)
          else None
      | [] \<Rightarrow> None)"

definition lex_number :: "string \<Rightarrow> (string \<times> string) option" where
  "lex_number s = do {
     let sgn = takeWhile (\<lambda>x. x = CHR ''-'') (take 1 s);
     (n, s1) \<leftarrow> lex_nat (drop (length sgn) s);
     (f, s2) \<leftarrow> lex_frac s1;
     (e, s3) \<leftarrow> lex_exp s2;
     Some (sgn @ n @ f @ e, s3) }"

datatype jtok =
    TLBrace | TRBrace | TLBrack | TRBrack | TColon | TComma
  | TStr string | TNum string | TTrue | TFalse | TNull | TBad

definition is_space :: "char \<Rightarrow> bool" where
  "is_space c \<longleftrightarrow> c \<in> {CHR 0x20, CHR 0x09, CHR 0x0D, CHR 0x0A}"

definition punctuation :: "(char \<times> jtok) list" where
  "punctuation = [(CHR ''{'', TLBrace), (CHR ''}'', TRBrace), (CHR ''['', TLBrack), (CHR '']'', TRBrack),
                  (CHR '':'', TColon), (CHR '','', TComma)]"

definition keyword_token :: "string \<Rightarrow> (jtok \<times> string) option" where
  "keyword_token s =
     (if has_prefix ''true'' s then Some (TTrue, drop 4 s)
      else if has_prefix ''false'' s then Some (TFalse, drop 5 s)
      else if has_prefix ''null'' s then Some (TNull, drop 4 s)
      else None)"

text \<open>The token at the front of a text that does not start with a space.\<close>

definition next_token :: "string \<Rightarrow> (jtok \<times> string) option" where
  "next_token s =
     (case s of
        [] \<Rightarrow> None
      | c # t \<Rightarrow>
          (case map_of punctuation c of
             Some k \<Rightarrow> Some (k, t)
           | None \<Rightarrow>
               if c = dquote then map_option (\<lambda>(r, s'). (TStr r, s')) (lex_string t)
               else if c = CHR ''-'' \<or> is_digit c then map_option (\<lambda>(r, s'). (TNum r, s')) (lex_number s)
               else keyword_token s))"

lemma dropWhile_le: "length (dropWhile P s) \<le> length s"
  by (simp add: length_dropWhile_le)

lemma lex_nat_less: "lex_nat s = Some (n, s') \<Longrightarrow> length s' < length s"
  by (auto simp: lex_nat_def less_Suc_eq_le length_dropWhile_le split: list.splits if_splits)

lemma lex_frac_le: "lex_frac s = Some (f, s') \<Longrightarrow> length s' \<le> length s"
  by (auto simp: lex_frac_def intro: le_SucI length_dropWhile_le split: list.splits if_splits)

lemma lex_exp_le: "lex_exp s = Some (f, s') \<Longrightarrow> length s' \<le> length s"
  by (auto simp: lex_exp_def Let_def intro!: le_SucI [OF le_trans [OF length_dropWhile_le]]
      split: list.splits if_splits)

lemma lex_number_less: "lex_number s = Some (n, s') \<Longrightarrow> length s' < length s"
  by (auto simp: lex_number_def Let_def bind_eq_Some_conv dest!: lex_nat_less lex_frac_le lex_exp_le)

lemma next_token_less: "next_token s = Some (k, s') \<Longrightarrow> length s' < length s"
  by (cases s) (auto simp: next_token_def keyword_token_def has_prefix_def
      dest!: lex_string_less lex_number_less split: option.splits if_splits)

function json_tokens :: "string \<Rightarrow> jtok list" where
  "json_tokens s =
     (if s = [] then []
      else if is_space (hd s) then json_tokens (tl s)
      else (case next_token s of None \<Rightarrow> [TBad] | Some (k, s') \<Rightarrow> k # json_tokens s'))"
  by pat_completeness auto
termination
  by (relation "measure length") (auto dest: next_token_less)

declare json_tokens.simps [simp del]

section \<open>Values\<close>

datatype json =
    JNull | JBool bool | JNum string | JStr string
  | JArr "json list" | JObj "(string \<times> json) list"

datatype frame =
    FArr "json list"                            \<comment> \<open>an open array, with its elements\<close>
  | FObj "(string \<times> json) list"                 \<comment> \<open>an open object, with its members\<close>
  | FMember "(string \<times> json) list" string       \<comment> \<open>an open object behind a name\<close>

datatype scan = BeginValue | BeginValueOrEmpty | BeginStringOrEmpty | BeginString | AfterName | EndValue

datatype step_result = Done json | Fail | Next scan "frame list"

definition max_nesting :: int where "max_nesting = 10000"

fun attach :: "json \<Rightarrow> frame list \<Rightarrow> frame list" where
  "attach v (FArr vs # fs) = FArr (vs @ [v]) # fs"
| "attach v (FMember ms k # fs) = FObj (ms @ [(k, v)]) # fs"
| "attach v fs = fs"

definition deliver :: "json \<Rightarrow> frame list \<Rightarrow> step_result" where
  "deliver v fs = (if fs = [] then Done v else Next EndValue (attach v fs))"

definition push :: "scan \<Rightarrow> frame \<Rightarrow> frame list \<Rightarrow> step_result" where
  "push m f fs = (if int (length fs) < max_nesting then Next m (f # fs) else Fail)"

definition begin_value :: "frame list \<Rightarrow> jtok \<Rightarrow> step_result" where
  "begin_value fs t =
     (case t of
        TLBrace \<Rightarrow> push BeginStringOrEmpty (FObj []) fs
      | TLBrack \<Rightarrow> push BeginValueOrEmpty (FArr []) fs
      | TStr r \<Rightarrow> deliver (JStr r) fs
      | TNum n \<Rightarrow> deliver (JNum n) fs
      | TTrue \<Rightarrow> deliver (JBool True) fs
      | TFalse \<Rightarrow> deliver (JBool False) fs
      | TNull \<Rightarrow> deliver JNull fs
      | _ \<Rightarrow> Fail)"

fun begin_string :: "frame list \<Rightarrow> jtok \<Rightarrow> step_result" where
  "begin_string (FObj ms # fs) (TStr k) = Next AfterName (FMember ms k # fs)"
| "begin_string fs t = Fail"

fun end_value :: "frame list \<Rightarrow> jtok \<Rightarrow> step_result" where
  "end_value (FArr vs # fs) TComma = Next BeginValue (FArr vs # fs)"
| "end_value (FArr vs # fs) TRBrack = deliver (JArr vs) fs"
| "end_value (FObj ms # fs) TComma = Next BeginString (FObj ms # fs)"
| "end_value (FObj ms # fs) TRBrace = deliver (JObj ms) fs"
| "end_value fs t = Fail"

fun json_step :: "scan \<Rightarrow> frame list \<Rightarrow> jtok \<Rightarrow> step_result" where
  "json_step BeginValue fs t = begin_value fs t"
| "json_step BeginValueOrEmpty fs t = (if t = TRBrack then end_value fs t else begin_value fs t)"
| "json_step BeginStringOrEmpty fs t = (if t = TRBrace then end_value fs t else begin_string fs t)"
| "json_step BeginString fs t = begin_string fs t"
| "json_step AfterName fs t = (if t = TColon then Next BeginValue fs else Fail)"
| "json_step EndValue fs t = end_value fs t"

fun json_run :: "scan \<Rightarrow> frame list \<Rightarrow> jtok list \<Rightarrow> json option" where
  "json_run m fs [] = None"
| "json_run m fs (t # ts) =
     (case json_step m fs t of
        Done v \<Rightarrow> Some v
      | Fail \<Rightarrow> None
      | Next m' fs' \<Rightarrow> json_run m' fs' ts)"

definition json_first :: "string \<Rightarrow> json option" where
  "json_first s = json_run BeginValue [] (json_tokens s)"

section \<open>The value of a string\<close>

definition is_surrogate :: "int \<Rightarrow> bool" where
  "is_surrogate r \<longleftrightarrow> 0xD800 \<le> r \<and> r \<le> 0xDFFF"

text \<open>The rune of a \<^verbatim>\<open>\u\<close> escape at the front, -1 when there is none.\<close>

fun u_escape :: "string \<Rightarrow> int" where
  "u_escape (a # b # h1 # h2 # h3 # h4 # s) =
     (if a = backslash \<and> b = CHR ''u'' \<and> is_hex h1 \<and> is_hex h2 \<and> is_hex h3 \<and> is_hex h4
      then 16 * (16 * (16 * hex_val h1 + hex_val h2) + hex_val h3) + hex_val h4 else - 1)"
| "u_escape s = - 1"

text \<open>The rune and the number of bytes of a \<^verbatim>\<open>\u\<close> escape: two make one where they are a surrogate pair.\<close>

definition read_u :: "string \<Rightarrow> int \<times> nat" where
  "read_u s =
     (let r = u_escape s; r1 = u_escape (drop 6 s)
      in if \<not> is_surrogate r then (r, 6)
         else if r < 0xDC00 \<and> 0xDC00 \<le> r1 \<and> r1 \<le> 0xDFFF
         then ((r - 0xD800) * 1024 + (r1 - 0xDC00) + 0x10000, 12)
         else (0xFFFD, 6))"

function unquote :: "string \<Rightarrow> string" where
  "unquote s =
     (case s of
        [] \<Rightarrow> []
      | c # t \<Rightarrow>
          if c = backslash
          then (case t of
                  [] \<Rightarrow> []
                | d # u \<Rightarrow>
                    (case simple_escape d of
                       Some e \<Rightarrow> e # unquote u
                     | None \<Rightarrow> encode_rune (fst (read_u s)) @ unquote (drop (snd (read_u s)) s)))
          else if rune_len s = 0 then replacement @ unquote t
          else take (rune_len s) s @ unquote (drop (rune_len s) s))"
  by pat_completeness auto
termination
  by (relation "measure length") (auto simp: read_u_def Let_def)

declare unquote.simps [simp del]

section \<open>Storing a value into a field\<close>

text \<open>
  Folding maps the letters of a name to upper case; the long s and the Kelvin sign are the two
  runes beyond ASCII that fold to an ASCII letter. Other runes are kept, since no name of a field
  has one.
\<close>

fun fold_name :: "string \<Rightarrow> string" where
  "fold_name (a # b # c # s) =
     (if [a, b] = [CHR 0xC5, CHR 0xBF] then CHR ''S'' # fold_name (c # s)
      else if [a, b, c] = [CHR 0xE2, CHR 0x84, CHR 0xAA] then CHR ''K'' # fold_name s
      else ToUpper [a] @ fold_name (b # c # s))"
| "fold_name [a, b] = (if [a, b] = [CHR 0xC5, CHR 0xBF] then ''S'' else ToUpper [a, b])"
| "fold_name s = ToUpper s"

definition names_field :: "string \<Rightarrow> string \<Rightarrow> bool" where
  "names_field key field \<longleftrightarrow> fold_name (unquote key) = fold_name field"

definition set_string :: "json \<Rightarrow> string \<Rightarrow> string option" where
  "set_string v old = (case v of JStr r \<Rightarrow> Some (unquote r) | JNull \<Rightarrow> Some old | _ \<Rightarrow> None)"

definition set_string_ptr :: "json \<Rightarrow> string option \<Rightarrow> string option option" where
  "set_string_ptr v old = (case v of JStr r \<Rightarrow> Some (Some (unquote r)) | JNull \<Rightarrow> Some None | _ \<Rightarrow> None)"

definition set_int64 :: "json \<Rightarrow> int64 \<Rightarrow> int64 option" where
  "set_int64 v old = (case v of JNum n \<Rightarrow> ParseInt64 n | JNull \<Rightarrow> Some old | _ \<Rightarrow> None)"

text \<open>\<^verbatim>\<open>Time.UnmarshalJSON\<close> parses the text between the quotes as it stands.\<close>

definition set_time :: "json \<Rightarrow> gotime \<Rightarrow> gotime option" where
  "set_time v old = (case v of JStr r \<Rightarrow> ParseRFC3339 r | JNull \<Rightarrow> Some old | _ \<Rightarrow> None)"

fun store_members :: "(string \<Rightarrow> json \<Rightarrow> 'a \<Rightarrow> 'a option) \<Rightarrow> (string \<times> json) list \<Rightarrow> 'a \<Rightarrow> 'a option" where
  "store_members field [] x = Some x"
| "store_members field ((k, v) # ms) x =
     (case field k v x of None \<Rightarrow> None | Some x' \<Rightarrow> store_members field ms x')"

definition decode_object :: "(string \<Rightarrow> json \<Rightarrow> 'a \<Rightarrow> 'a option) \<Rightarrow> 'a \<Rightarrow> string \<Rightarrow> 'a option" where
  "decode_object field zero s =
     (case json_first s of
        Some (JObj ms) \<Rightarrow> store_members field ms zero
      | Some JNull \<Rightarrow> Some zero
      | _ \<Rightarrow> None)"

section \<open>Writing\<close>

definition hex_char :: "int \<Rightarrow> char" where
  "hex_char d = (if d < 10 then char_of (48 + d) else char_of (87 + d))"

definition u_text :: "int \<Rightarrow> string" where
  "u_text r = [backslash, CHR ''u'', hex_char (r div 4096 mod 16), hex_char (r div 256 mod 16),
               hex_char (r div 16 mod 16), hex_char (r mod 16)]"

definition short_escape :: "char \<Rightarrow> char option" where
  "short_escape c =
     map_of [(dquote, dquote), (backslash, backslash), (CHR 0x08, CHR ''b''), (CHR 0x0C, CHR ''f''),
             (CHR 0x0A, CHR ''n''), (CHR 0x0D, CHR ''r''), (CHR 0x09, CHR ''t'')] c"

definition escape_char :: "char \<Rightarrow> string" where
  "escape_char c =
     (case short_escape c of
        Some e \<Rightarrow> [backslash, e]
      | None \<Rightarrow>
          if byte c < 0x20 \<or> c = CHR ''<'' \<or> c = CHR ''>'' \<or> c = CHR ''&'' then u_text (byte c) else [c])"

text \<open>The line and the paragraph separator are escaped, other runes beyond ASCII are not.\<close>

definition escape_rune :: "string \<Rightarrow> string" where
  "escape_rune r =
     (if r = [CHR 0xE2, CHR 0x80, CHR 0xA8] then u_text 0x2028
      else if r = [CHR 0xE2, CHR 0x80, CHR 0xA9] then u_text 0x2029
      else r)"

text \<open>With HTML escaping on, as it is by default.\<close>

function json_escape :: "string \<Rightarrow> string" where
  "json_escape s =
     (case s of
        [] \<Rightarrow> []
      | c # t \<Rightarrow>
          if byte_in 0 0x7F c then escape_char c @ json_escape t
          else if rune_len s = 0 then u_text 0xFFFD @ json_escape t
          else escape_rune (take (rune_len s) s) @ json_escape (drop (rune_len s) s))"
  by pat_completeness auto
termination
  by (relation "measure length") auto

declare json_escape.simps [simp del]

definition int_text :: "int \<Rightarrow> string" where
  "int_text i = (if i < 0 then CHR ''-'' # dec_digits (- i) else dec_digits i)"

definition fraction_text :: "int \<Rightarrow> string" where
  "fraction_text n =
     (if n = 0 then [] else CHR ''.'' # rev (dropWhile (\<lambda>c. c = CHR ''0'') (rev (pad_int 9 n))))"

text \<open>\<^verbatim>\<open>Time.MarshalJSON\<close> of a UTC time: an error outside the years 0 to 9999.\<close>

definition year_of :: "gotime \<Rightarrow> int" where
  "year_of t = fst (days_to_civil (tm_sec t div 86400 + 719162))"

definition put_time :: "gotime \<Rightarrow> json option" where
  "put_time t =
     (if 0 \<le> year_of t \<and> year_of t \<le> 9999
      then Some (JStr (butlast (Format t) @ fraction_text (tm_nsec t) @ ''Z'')) else None)"

definition put_string :: "string \<Rightarrow> json" where "put_string s = JStr (json_escape s)"

definition put_int :: "int \<Rightarrow> json" where "put_int i = JNum (int_text i)"

fun join_texts :: "string list \<Rightarrow> string" where
  "join_texts [] = []"
| "join_texts [t] = t"
| "join_texts (t # ts) = t @ '','' @ join_texts ts"

fun render :: "json \<Rightarrow> string" where
  "render JNull = ''null''"
| "render (JBool b) = (if b then ''true'' else ''false'')"
| "render (JNum n) = n"
| "render (JStr r) = dquote # r @ [dquote]"
| "render (JArr vs) = ''['' @ join_texts (map render vs) @ '']''"
| "render (JObj ms) = ''{'' @ join_texts (map (\<lambda>(k, v). dquote # k @ [dquote] @ '':'' @ render v) ms) @ ''}''"

end
