(* ===== verification/JSONRoundTrip.thy ===== *)
theory JSONRoundTrip
  imports GoJSON
begin

text \<open>
  What \<^verbatim>\<open>encoding/json\<close> writes is read back: a written string lexes as one token (\<open>lexes_json_escape\<close>)
  and has the value it was written for when that is valid UTF-8 (\<open>unquote_json_escape\<close>), a number is
  read to its digit (\<open>ParseInt64_int_text\<close>), and a rendered value is the first value of every text
  that starts with it (\<open>json_first_render\<close>).
\<close>

lemma byte_nonneg: "0 \<le> byte c"
  by (simp add: of_char_def)

section \<open>Written strings are read as they stand\<close>

text \<open>A text the lexer of strings passes over.\<close>

definition lexes :: "string \<Rightarrow> bool" where
  "lexes p \<longleftrightarrow> (\<forall>t. lex_string (p @ t) = map_option (\<lambda>(r, s'). (p @ r, s')) (lex_string t))"

lemma map_option_prepend:
  "map_option (\<lambda>(r, s'). (p @ r, s')) (map_option (\<lambda>(r, s'). (q @ r, s')) x)
   = map_option (\<lambda>(r, s'). ((p @ q) @ r, s')) x"
  by (cases x) auto

lemma lexes_Nil [simp]: "lexes []"
  by (simp add: lexes_def option.map_id)

lemma lexes_append: "lexes p \<Longrightarrow> lexes q \<Longrightarrow> lexes (p @ q)"
  by (simp add: lexes_def map_option_prepend del: append_assoc) (simp add: map_option_prepend)

lemma lexes_plain: "c \<noteq> dquote \<Longrightarrow> c \<noteq> backslash \<Longrightarrow> 0x20 \<le> byte c \<Longrightarrow> lexes [c]"
  by (simp add: lexes_def)

lemma lexes_list: "(\<And>c. c \<in> set p \<Longrightarrow> lexes [c]) \<Longrightarrow> lexes p"
  using lexes_append [of "[c]" for c] by (induction p) (simp, metis append_Cons append_Nil list.set_intros)

lemma lexes_short: "simple_escape e \<noteq> None \<Longrightarrow> lexes [backslash, e]"
  by (auto simp: lexes_def)

lemma hex_char_hex: "0 \<le> d \<Longrightarrow> d < 16 \<Longrightarrow> is_hex (hex_char d) \<and> hex_val (hex_char d) = d"
proof -
  assume "0 \<le> d" "d < 16"
  then have "d \<in> set [0..15]" by auto
  moreover have "list_all (\<lambda>d. is_hex (hex_char d) \<and> hex_val (hex_char d) = d) [0..15]" by code_simp
  ultimately show ?thesis unfolding list_all_iff by blast
qed

lemma lexes_u_text: "lexes (u_text r)"
proof -
  have "is_hex (hex_char (k mod 16))" for k using hex_char_hex [of "k mod 16"] by simp
  then show ?thesis by (simp add: lexes_def u_text_def simple_escape_def)
qed

lemma lexes_escape_char: "byte_in 0 0x7F c \<Longrightarrow> lexes (escape_char c)"
proof (cases "short_escape c")
  case None
  assume "byte_in 0 0x7F c"
  from None have "c \<noteq> dquote" "c \<noteq> backslash" by (auto simp: short_escape_def split: if_splits)
  with None show ?thesis by (auto simp: escape_char_def lexes_u_text intro: lexes_plain)
next
  case (Some e)
  then have "simple_escape e \<noteq> None" by (auto simp: short_escape_def simple_escape_def split: if_splits)
  with Some show ?thesis by (simp add: escape_char_def lexes_short)
qed

lemma lexes_high: "\<not> byte_in 0 0x7F c \<Longrightarrow> lexes [c]"
  by (rule lexes_plain) (auto simp: byte_in_def byte_nonneg)

text \<open>The bytes of a rune beyond ASCII.\<close>

lemma is_rune_length: "is_rune r \<Longrightarrow> lead_size (hd r) = length r \<and> 0 < length r"
  by (cases r rule: is_rune.cases) simp_all

lemma is_rune_high: "is_rune r \<Longrightarrow> c \<in> set r \<Longrightarrow> \<not> byte_in 0 0x7F (hd r) \<Longrightarrow> \<not> byte_in 0 0x7F c"
proof (cases r rule: is_rune.cases)
  case (3 a b u)
  assume r: "is_rune r" "c \<in> set r" "\<not> byte_in 0 0x7F (hd r)"
  have "\<not> byte_in 0 0x7F x" if "is_cont x \<or> second_ok a x" for x
    using that by (auto simp: second_ok_def byte_in_def split: if_splits)
  with r 3 show ?thesis by (auto simp: list_all_iff)
qed simp_all

lemma rune_len_rune: "0 < rune_len s \<Longrightarrow> is_rune (take (rune_len s) s) \<and> rune_len s = lead_size (hd s) \<and> s \<noteq> []"
  by (auto simp: rune_len_def split: list.splits if_splits)

lemma rune_len_le: "rune_len s \<le> length s"
proof (cases "rune_len s = 0")
  case False
  with rune_len_rune [of s] is_rune_length [of "take (rune_len s) s"] show ?thesis
    by (cases s) auto
qed simp

lemma rune_high:
  "c \<in> set (take (rune_len s) s) \<Longrightarrow> \<not> byte_in 0 0x7F (hd s) \<Longrightarrow> \<not> byte_in 0 0x7F c"
proof (cases "rune_len s = 0")
  case False
  assume "c \<in> set (take (rune_len s) s)" "\<not> byte_in 0 0x7F (hd s)"
  with False rune_len_rune [of s] is_rune_high [of "take (rune_len s) s" c] show ?thesis by (cases s) auto
qed simp

lemma rune_len_is_rune: "is_rune r \<Longrightarrow> rune_len (r @ t) = length r"
  using is_rune_length [of r] by (cases r) (simp_all add: rune_len_def)

lemma rune_len_ascii [simp]: "byte_in 0 0x7F c \<Longrightarrow> rune_len (c # s) = 1"
  by (simp add: rune_len_def lead_size_def)

lemma json_escape_Nil [simp]: "json_escape [] = []"
  by (subst json_escape.simps) simp

lemma json_escape_Cons:
  "json_escape (c # t) =
     (if byte_in 0 0x7F c then escape_char c @ json_escape t
      else if rune_len (c # t) = 0 then u_text 0xFFFD @ json_escape t
      else escape_rune (take (rune_len (c # t)) (c # t)) @ json_escape (drop (rune_len (c # t)) (c # t)))"
  by (subst json_escape.simps) (simp only: list.case)

lemma lexes_rune:
  assumes "\<not> byte_in 0 0x7F c"
  shows "lexes (escape_rune (take (rune_len (c # t)) (c # t)))"
proof -
  have "lexes (take (rune_len (c # t)) (c # t))"
  proof (rule lexes_list)
    fix x assume "x \<in> set (take (rune_len (c # t)) (c # t))"
    from rune_high [OF this] assms show "lexes [x]" by (intro lexes_high) simp
  qed
  then show ?thesis unfolding escape_rune_def using lexes_u_text by presburger
qed

lemma lexes_json_escape: "lexes (json_escape s)"
proof (induction s rule: json_escape.induct)
  case (1 s)
  show ?case
  proof (cases s)
    case Nil
    then show ?thesis by simp
  next
    case (Cons c t)
    consider (ascii) "byte_in 0 0x7F c" | (bad) "\<not> byte_in 0 0x7F c" "rune_len (c # t) = 0"
      | (rune) "\<not> byte_in 0 0x7F c" "rune_len (c # t) \<noteq> 0" by blast
    then show ?thesis
    proof cases
      case ascii
      then show ?thesis
        unfolding Cons json_escape_Cons using lexes_append [OF lexes_escape_char] 1(1) [OF Cons] by simp
    next
      case bad
      then show ?thesis
        unfolding Cons json_escape_Cons using lexes_append [OF lexes_u_text] 1(2) [OF Cons] Cons by simp
    next
      case rune
      then show ?thesis
        unfolding Cons json_escape_Cons using lexes_append [OF lexes_rune] 1(3) [OF Cons] Cons by simp
    qed
  qed
qed

lemma lex_string_lexes: "lexes p \<Longrightarrow> lex_string (p @ dquote # rest) = Some (p, rest)"
  by (simp add: lexes_def)

section \<open>Written strings have their value\<close>

lemma unquote_Nil [simp]: "unquote [] = []"
  by (subst unquote.simps) simp

lemma unquote_short: "simple_escape e = Some c \<Longrightarrow> unquote (backslash # e # t) = c # unquote t"
  by (subst unquote.simps) simp

lemma unquote_rune:
  assumes "0 < rune_len (c # s)" and "c \<noteq> backslash"
  shows "unquote (c # s) = take (rune_len (c # s)) (c # s) @ unquote (drop (rune_len (c # s)) (c # s))"
  using assms by (subst unquote.simps) (simp)

lemma four_digits:
  assumes "0 \<le> r" and "r < 0x10000"
  shows "16 * (16 * (16 * (r div 4096 mod 16) + r div 256 mod 16) + r div 16 mod 16) + r mod 16 = (r :: int)"
proof -
  have "r div 4096 mod 16 = r div 4096" using assms by (intro mod_pos_pos_trivial) auto
  moreover have "16 * (r div 4096) + r div 256 mod 16 = r div 256"
    using zdiv_zmult2_eq [of 16 r 256] mult_div_mod_eq [of 16 "r div 256"] by simp
  moreover have "16 * (r div 256) + r div 16 mod 16 = r div 16"
    using zdiv_zmult2_eq [of 16 r 16] mult_div_mod_eq [of 16 "r div 16"] by simp
  ultimately show ?thesis by (simp only: mult_div_mod_eq)
qed

lemma hex4_u_text:
  assumes "0 \<le> r" and "r < 0x10000"
  shows "u_escape (u_text r @ t) = r"
proof -
  have h: "is_hex (hex_char (k mod 16))" "hex_val (hex_char (k mod 16)) = k mod 16" for k
    using hex_char_hex [of "k mod 16"] by simp_all
  show ?thesis unfolding u_text_def append_Cons append_Nil u_escape.simps
    using four_digits [OF assms] by (simp only: h if_True simp_thms)
qed

lemma unquote_backslash:
  "simple_escape d = None \<Longrightarrow>
     unquote (backslash # d # u) = encode_rune (fst (read_u (backslash # d # u)))
       @ unquote (drop (snd (read_u (backslash # d # u))) (backslash # d # u))"
  by (subst unquote.simps) simp

lemma unquote_u_text:
  assumes "0 \<le> r" and "r < 0x10000" and "\<not> is_surrogate r"
  shows "unquote (u_text r @ t) = encode_rune r @ unquote t"
proof -
  obtain u where u: "u_text r @ t = backslash # CHR ''u'' # u" by (simp add: u_text_def)
  have "read_u (u_text r @ t) = (r, 6)"
    using hex4_u_text [OF assms(1,2)] assms(3) by (simp add: read_u_def Let_def)
  moreover have "drop 6 (u_text r @ t) = t" by (simp add: u_text_def)
  ultimately show ?thesis
    using unquote_backslash [of "CHR ''u''" u] unfolding u by (simp add: simple_escape_def)
qed

lemma unquote_rune_append:
  assumes "is_rune r" and "hd r \<noteq> backslash"
  shows "unquote (r @ u) = r @ unquote u"
proof -
  obtain c r' where r: "r = c # r'" using is_rune_length [OF assms(1)] by (cases r) auto
  have len: "rune_len (c # r' @ u) = length r" using rune_len_is_rune [OF assms(1), of u] r by simp
  then have "0 < rune_len (c # r' @ u)" by (simp add: r)
  from unquote_rune [OF this] assms(2) show ?thesis unfolding len by (simp add: r)
qed

lemma encode_rune_ascii: "byte_in 0 0x7F c \<Longrightarrow> encode_rune (byte c) = [c]"
  by (simp add: encode_rune_def byte_in_def byte_char_def)

lemma unquote_escape_char: "byte_in 0 0x7F c \<Longrightarrow> unquote (escape_char c @ t) = c # unquote t"
proof (cases "short_escape c")
  case None
  assume c: "byte_in 0 0x7F c"
  from None have "c \<noteq> backslash" by (auto simp: short_escape_def split: if_splits)
  with c have "unquote (c # t) = c # unquote t" using unquote_rune [of c t] by simp
  moreover have "unquote (u_text (byte c) @ t) = c # unquote t"
    using unquote_u_text [of "byte c" t] encode_rune_ascii [OF c] c by (simp add: byte_in_def is_surrogate_def)
  ultimately show ?thesis using None by (simp add: escape_char_def)
next
  case (Some e)
  then have "simple_escape e = Some c" by (auto simp: short_escape_def simple_escape_def split: if_splits)
  with Some show ?thesis by (simp add: escape_char_def unquote_short)
qed

lemma separators:
  "encode_rune 0x2028 = [CHR 0xE2, CHR 0x80, CHR 0xA8]" "encode_rune 0x2029 = [CHR 0xE2, CHR 0x80, CHR 0xA9]"
  by code_simp+

lemma unquote_escape_rune:
  assumes "is_rune r" and "hd r \<noteq> backslash"
  shows "unquote (escape_rune r @ u) = r @ unquote u"
  unfolding escape_rune_def
  using unquote_rune_append [OF assms, of u] unquote_u_text [of "0x2028" u] unquote_u_text [of "0x2029" u] separators
  by (simp add: is_surrogate_def)

theorem unquote_json_escape: "valid_utf8 s \<Longrightarrow> unquote (json_escape s) = s"
proof (induction s rule: json_escape.induct)
  case (1 s)
  show ?case
  proof (cases s)
    case Nil
    then show ?thesis by simp
  next
    case (Cons c t)
    let ?n = "rune_len (c # t)"
    have n: "0 < ?n" and v: "valid_utf8 (drop ?n (c # t))"
      using "1.prems" unfolding Cons by (simp_all add: valid_utf8.simps [of "c # t"] split: if_splits)
    show ?thesis
    proof (cases "byte_in 0 0x7F c")
      case True
      then have "?n = 1" by simp
      with v have "valid_utf8 t" by simp
      with 1(1) [OF Cons True] True show ?thesis by (simp add: Cons json_escape_Cons unquote_escape_char)
    next
      case False
      have IH: "unquote (json_escape (drop ?n (c # t))) = drop ?n (c # t)"
        using 1(3) [OF Cons False] n v by (simp add: Cons)
      have "c \<noteq> backslash" using False by (auto simp: byte_in_def)
      then have r: "is_rune (take ?n (c # t))" "hd (take ?n (c # t)) \<noteq> backslash"
        using rune_len_rune [OF n] n by (blast, simp)
      have "json_escape s = escape_rune (take ?n (c # t)) @ json_escape (drop ?n (c # t))"
        unfolding Cons json_escape_Cons using False n by simp
      then show ?thesis using unquote_escape_rune [OF r] IH Cons append_take_drop_id by metis
    qed
  qed
qed

section \<open>Written numbers are read as they stand\<close>

text \<open>What may follow a number without being taken for a part of it.\<close>

definition delimits :: "string \<Rightarrow> bool" where
  "delimits s \<longleftrightarrow> (case s of [] \<Rightarrow> True
     | c # _ \<Rightarrow> \<not> is_digit c \<and> c \<noteq> CHR ''.'' \<and> c \<noteq> CHR ''e'' \<and> c \<noteq> CHR ''E'')"

lemma takeWhile_digits:
  "\<lbrakk>list_all is_digit ds; delimits rest\<rbrakk>
     \<Longrightarrow> takeWhile is_digit (ds @ rest) = ds \<and> dropWhile is_digit (ds @ rest) = rest"
  by (cases rest) (auto simp: delimits_def list_all_iff takeWhile_append2 dropWhile_append2)

lemma dec_digits_hd: "0 < n \<Longrightarrow> hd (dec_digits n) \<noteq> CHR ''0''"
proof (induction n rule: dec_digits.induct)
  case (1 n)
  show ?case
  proof (cases "n < 10")
    case True
    with 1 have "digit_val (hd (dec_digits n)) = n" by (simp add: dec_digits_small)
    with 1 show ?thesis by (auto simp: digit_val_def)
  next
    case False
    then have "hd (dec_digits n) = hd (dec_digits (n div 10))"
      using dec_digits_digits [of "n div 10"] by (simp add: dec_digits_step)
    with 1 False show ?thesis by simp
  qed
qed

lemma lex_nat_digits:
  assumes "0 \<le> n" and "delimits rest"
  shows "lex_nat (dec_digits n @ rest) = Some (dec_digits n, rest)"
proof (cases "n = 0")
  case True
  have "dec_digits 0 = ''0''" by code_simp
  with True show ?thesis by (simp add: lex_nat_def)
next
  case False
  obtain c t where ct: "dec_digits n = c # t" using dec_digits_digits [OF assms(1)] by (cases "dec_digits n") auto
  have "is_digit c" "c \<noteq> CHR ''0''"
    using dec_digits_digits [OF assms(1)] dec_digits_hd [of n] False assms(1) ct by auto
  then show ?thesis
    using takeWhile_digits [OF _ assms(2), of "c # t"] dec_digits_digits [OF assms(1)] ct
    by (simp add: lex_nat_def)
qed

lemma lex_tail: "delimits rest \<Longrightarrow> lex_frac rest = Some ([], rest) \<and> lex_exp rest = Some ([], rest)"
  by (auto simp: delimits_def lex_frac_def lex_exp_def split: list.splits)

lemma dec_digits_Cons: "0 \<le> n \<Longrightarrow> \<exists>c t. dec_digits n = c # t \<and> is_digit c"
  using dec_digits_digits [of n] by (cases "dec_digits n") auto

lemma lex_number_int_text:
  assumes "delimits rest"
  shows "lex_number (int_text i @ rest) = Some (int_text i, rest)"
proof (cases "i < 0")
  case True
  with assms show ?thesis
    using lex_nat_digits [of "- i" rest] lex_tail by (simp add: lex_number_def int_text_def Let_def)
next
  case False
  then obtain c t where ct: "dec_digits i = c # t" and "is_digit c" using dec_digits_Cons [of i] by auto
  then have "c \<noteq> CHR ''-''" by (auto simp: is_digit_def)
  with False ct assms show ?thesis
    using lex_nat_digits [of i rest] lex_tail by (simp add: lex_number_def int_text_def Let_def)
qed

lemma ParseInt64_int_text: "ParseInt64 (int_text (sint w)) = Some (w :: int64)"
proof (cases "sint w < 0")
  case True
  have "ParseUint (dec_digits (- sint w)) = Some (- sint w)" using True by (intro ParseUint_dec_digits) simp
  moreover have "- sint w \<le> 2 ^ 63" using sint_greater_eq [of w] by simp
  ultimately show ?thesis using True by (simp add: ParseInt64_def int_text_def)
next
  case False
  then show ?thesis
    using ParseInt64_unsigned [OF ParseUint_dec_digits [of "sint w"]] sint_less [of w] by (simp add: int_text_def)
qed

section \<open>Written values are read back\<close>

fun comma_sep :: "jtok list list \<Rightarrow> jtok list" where
  "comma_sep [] = []"
| "comma_sep [x] = x"
| "comma_sep (x # xs) = x @ TComma # comma_sep xs"

fun toks :: "json \<Rightarrow> jtok list" where
  "toks JNull = [TNull]"
| "toks (JBool b) = [if b then TTrue else TFalse]"
| "toks (JNum n) = [TNum n]"
| "toks (JStr r) = [TStr r]"
| "toks (JArr vs) = TLBrack # comma_sep (map toks vs) @ [TRBrack]"
| "toks (JObj ms) = TLBrace # comma_sep (map (\<lambda>(k, v). TStr k # TColon # toks v) ms) @ [TRBrace]"

fun written :: "json \<Rightarrow> bool" where
  "written (JNum n) = (\<exists>i. n = int_text i)"
| "written (JStr r) = lexes r"
| "written (JArr vs) = list_all written vs"
| "written (JObj ms) = list_all (\<lambda>(k, v). lexes k \<and> written v) ms"
| "written v = True"

fun nesting :: "json \<Rightarrow> nat" where
  "nesting (JArr vs) = Suc (foldr max (map nesting vs) 0)"
| "nesting (JObj ms) = Suc (foldr max (map (\<lambda>(k, v). nesting v) ms) 0)"
| "nesting v = 0"

lemma json_tokens_step:
  "\<lbrakk>s = c # t; \<not> is_space c; next_token s = Some (k, s')\<rbrakk> \<Longrightarrow> json_tokens s = k # json_tokens s'"
  by (subst json_tokens.simps) simp

lemma json_tokens_punct:
  "map_of punctuation c = Some k \<Longrightarrow> json_tokens (c # s) = k # json_tokens s"
  by (rule json_tokens_step [of _ c s]) (auto simp: punctuation_def is_space_def next_token_def split: if_splits)

lemma json_tokens_puncts [simp]:
  "json_tokens (CHR ''['' # s) = TLBrack # json_tokens s" "json_tokens (CHR '']'' # s) = TRBrack # json_tokens s"
  "json_tokens (CHR ''{'' # s) = TLBrace # json_tokens s" "json_tokens (CHR ''}'' # s) = TRBrace # json_tokens s"
  "json_tokens (CHR '','' # s) = TComma # json_tokens s" "json_tokens (CHR '':'' # s) = TColon # json_tokens s"
  by (simp_all add: json_tokens_punct punctuation_def)

lemma json_tokens_str: "lexes r \<Longrightarrow> json_tokens (dquote # r @ dquote # rest) = TStr r # json_tokens rest"
  by (rule json_tokens_step [OF refl]) (simp_all add: is_space_def next_token_def punctuation_def lex_string_lexes)

lemma json_tokens_num:
  assumes "delimits rest"
  shows "json_tokens (int_text i @ rest) = TNum (int_text i) # json_tokens rest"
proof -
  obtain c t where ct: "int_text i @ rest = c # t" and c: "c = CHR ''-'' \<or> is_digit c"
    using dec_digits_Cons [of i] by (cases "i < 0") (auto simp: int_text_def)
  from c have "\<not> is_space c" "map_of punctuation c = None" "c \<noteq> dquote"
    by (auto simp: is_space_def punctuation_def is_digit_def)
  with ct c lex_number_int_text [OF assms, of i] show ?thesis
    by (intro json_tokens_step [OF ct]) (simp_all add: next_token_def)
qed

lemma delimits_punct [simp]:
  "delimits (CHR '','' # s)" "delimits (CHR '']'' # s)" "delimits (CHR ''}'' # s)"
  by (simp_all add: delimits_def is_digit_def)

lemma json_tokens_list:
  assumes "\<And>x rest. x \<in> set xs \<Longrightarrow> delimits rest \<Longrightarrow> json_tokens (f x @ rest) = g x @ json_tokens rest"
    and "delimits rest"
  shows "json_tokens (join_texts (map f xs) @ rest) = comma_sep (map g xs) @ json_tokens rest"
  using assms(1)
proof (induction xs rule: induct_list012)
  case (3 x y zs)
  have "json_tokens (join_texts (map f (y # zs)) @ rest) = comma_sep (map g (y # zs)) @ json_tokens rest"
    using 3 by simp
  with 3(3) [of x "'','' @ join_texts (map f (y # zs)) @ rest"] show ?case by simp
qed (use assms(2) in simp_all)

lemma json_tokens_render:
  "\<lbrakk>written v; delimits rest\<rbrakk> \<Longrightarrow> json_tokens (render v @ rest) = toks v @ json_tokens rest"
proof (induction v arbitrary: rest)
  case JNull
  show ?case by (rule json_tokens_step [of _ "CHR ''n''", THEN trans])
    (simp_all add: is_space_def next_token_def punctuation_def keyword_token_def has_prefix_def is_digit_def)
next
  case (JBool b)
  show ?case by (cases b; rule json_tokens_step [of _ "hd (render (JBool b))", THEN trans])
    (simp_all add: is_space_def next_token_def punctuation_def keyword_token_def has_prefix_def is_digit_def)
next
  case (JNum n)
  then show ?case by (auto simp: json_tokens_num)
next
  case (JStr r)
  then show ?case by (simp add: json_tokens_str)
next
  case (JArr vs)
  have "json_tokens (join_texts (map render vs) @ CHR '']'' # rest) = comma_sep (map toks vs) @ json_tokens (CHR '']'' # rest)"
    using JArr by (intro json_tokens_list) (auto simp: list_all_iff)
  then show ?case by simp
next
  case (JObj ms)
  have "json_tokens (join_texts (map (\<lambda>(k, v). dquote # k @ [dquote] @ '':'' @ render v) ms) @ CHR ''}'' # rest)
      = comma_sep (map (\<lambda>(k, v). TStr k # TColon # toks v) ms) @ json_tokens (CHR ''}'' # rest)"
  proof (rule json_tokens_list)
    fix x rest assume x: "x \<in> set ms" and d: "delimits rest"
    obtain k v where kv: "x = (k, v)" by (cases x)
    have "json_tokens (render v @ rest) = toks v @ json_tokens rest" and "lexes k"
      using JObj.IH [of x v] JObj.prems x d kv by (auto simp: list_all_iff)
    then show "json_tokens ((case x of (k, v) \<Rightarrow> dquote # k @ [dquote] @ '':'' @ render v) @ rest)
        = (case x of (k, v) \<Rightarrow> TStr k # TColon # toks v) @ json_tokens rest"
      using json_tokens_str [of k "CHR '':'' # render v @ rest"] by (simp add: kv)
  qed simp
  then show ?case by simp
qed

text \<open>The machine behind a step, and a run of it over the tokens of a value.\<close>

fun resume :: "step_result \<Rightarrow> jtok list \<Rightarrow> json option" where
  "resume (Done v) ts = Some v"
| "resume Fail ts = None"
| "resume (Next m fs) ts = json_run m fs ts"

lemma json_run_Cons: "json_run m fs (t # ts) = resume (json_step m fs t) ts"
  by (cases "json_step m fs t") simp_all

declare json_run.simps(2) [simp del]
declare json_run_Cons [simp]

lemma toks_first: "\<exists>t ts. toks v = t # ts \<and> t \<noteq> TRBrack"
  by (cases v) auto

lemma begin_or_empty:
  "json_run BeginValueOrEmpty fs (toks v @ ts) = json_run BeginValue fs (toks v @ ts)"
  using toks_first [of v] by auto

lemma run_elements:
  assumes "\<And>x vs ts. x \<in> set xs \<Longrightarrow>
      json_run BeginValue (FArr vs # fs) (toks x @ ts) = json_run EndValue (FArr (vs @ [x]) # fs) ts"
    and "xs \<noteq> []"
  shows "json_run BeginValue (FArr vs # fs) (comma_sep (map toks xs) @ TRBrack # ts)
    = resume (deliver (JArr (vs @ xs)) fs) ts"
  using assms
proof (induction xs arbitrary: vs rule: induct_list012)
  case (3 x y zs)
  have "json_run BeginValue (FArr (vs @ [x]) # fs) (comma_sep (map toks (y # zs)) @ TRBrack # ts)
    = resume (deliver (JArr ((vs @ [x]) @ y # zs)) fs) ts"
    using "3.prems"(1) by (intro "3.IH"(2)) auto
  with "3.prems"(1) [of x vs "TComma # comma_sep (map toks (y # zs)) @ TRBrack # ts"] show ?case by simp
qed simp_all

lemma run_members:
  assumes "\<And>k x ms ts. (k, x) \<in> set xs \<Longrightarrow>
      json_run BeginValue (FMember ms k # fs) (toks x @ ts) = json_run EndValue (FObj (ms @ [(k, x)]) # fs) ts"
    and "xs \<noteq> []" and "m = BeginString \<or> m = BeginStringOrEmpty"
  shows "json_run m (FObj ms # fs)
      (comma_sep (map (\<lambda>(k, v). TStr k # TColon # toks v) xs) @ TRBrace # ts)
    = resume (deliver (JObj (ms @ xs)) fs) ts"
  using assms
proof (induction xs arbitrary: ms m rule: induct_list012)
  case (2 p)
  obtain k x where p: "p = (k, x)" by (cases p)
  with 2 show ?case by auto
next
  case (3 p y zs)
  obtain k x where p: "p = (k, x)" by (cases p)
  let ?rest = "comma_sep (map (\<lambda>(k, v). TStr k # TColon # toks v) (y # zs)) @ TRBrace # ts"
  have "json_run BeginString (FObj (ms @ [(k, x)]) # fs) ?rest
    = resume (deliver (JObj ((ms @ [(k, x)]) @ y # zs)) fs) ts"
    using "3.prems"(1) by (intro "3.IH"(2)) auto
  with "3.prems"(1) [of k x ms "TComma # ?rest"] "3.prems"(3) p show ?case by auto
qed simp

lemma nesting_elements:
  "\<lbrakk>foldr max (map f xs) 0 \<le> (n :: nat); x \<in> set xs\<rbrakk> \<Longrightarrow> f x \<le> n"
  by (induction xs) auto

lemma run_toks:
  "int (nesting v) + int (length fs) \<le> max_nesting \<Longrightarrow>
     json_run BeginValue fs (toks v @ ts) = resume (deliver v fs) ts"
proof (induction v arbitrary: fs ts)
  case (JArr vs)
  have room: "int (length fs) < max_nesting" using JArr.prems by simp
  have el: "json_run BeginValue (FArr ws # fs) (toks x @ us) = json_run EndValue (FArr (ws @ [x]) # fs) us"
    if "x \<in> set vs" for x ws us
  proof -
    have "nesting x \<le> nat (max_nesting - int (length fs) - 1)"
      using nesting_elements [of nesting vs _ x] JArr.prems that by (simp add: max_nesting_def)
    then show ?thesis using JArr.IH [OF that, of "FArr ws # fs" us] JArr.prems by (simp add: deliver_def)
  qed
  show ?case
  proof (cases vs)
    case Nil
    then show ?thesis using room by (simp add: begin_value_def push_def)
  next
    case (Cons w ws)
    have "json_run BeginValue fs (toks (JArr vs) @ ts)
        = json_run BeginValueOrEmpty (FArr [] # fs) (comma_sep (map toks vs) @ TRBrack # ts)"
      using room by (simp add: begin_value_def push_def)
    also have "\<dots> = json_run BeginValue (FArr [] # fs) (comma_sep (map toks vs) @ TRBrack # ts)"
      using begin_or_empty [of _ w] Cons by (cases ws) auto
    also have "\<dots> = resume (deliver (JArr vs) fs) ts"
      using run_elements [of vs, OF el, where vs = "[]"] Cons by simp
    finally show ?thesis .
  qed
next
  case (JObj ms)
  have room: "int (length fs) < max_nesting" using JObj.prems by simp
  have el: "json_run BeginValue (FMember ns k # fs) (toks x @ us) = json_run EndValue (FObj (ns @ [(k, x)]) # fs) us"
    if "(k, x) \<in> set ms" for k x ns us
  proof -
    have "nesting x \<le> nat (max_nesting - int (length fs) - 1)"
      using nesting_elements [of "\<lambda>(k, v). nesting v" ms _ "(k, x)"] JObj.prems that
      by (simp add: max_nesting_def)
    then show ?thesis using JObj.IH [OF that, of x "FMember ns k # fs" us] JObj.prems by (simp add: deliver_def)
  qed
  show ?case
  proof (cases ms)
    case Nil
    then show ?thesis using room by (simp add: begin_value_def push_def)
  next
    case (Cons w ws)
    then show ?thesis
      using run_members [of ms, OF el, where ms = "[]" and m = BeginStringOrEmpty] room
      by (simp add: begin_value_def push_def)
  qed
qed (simp_all add: begin_value_def)

theorem json_first_render:
  assumes "written v" and "int (nesting v) \<le> max_nesting" and "delimits rest"
  shows "json_first (render v @ rest) = Some v"
  using json_tokens_render [OF assms(1,3)] run_toks [of v "[]"] assms(2)
  by (simp add: json_first_def deliver_def)

end
