(* ===== verification/Bodies.thy ===== *)
theory Bodies
  imports Wire JSONRoundTrip
begin

text \<open>
  The bodies on the wire: the decoding of the four JSON request bodies into the generated structs,
  by the names in their tags, and the bytes of the JSON responses. A struct is decoded onto its zero
  value; a response is encoded field by field in the order of the struct, an optional field left out
  when it is nil. Encoding fails only for a time outside the years 0 to 9999, and then nothing is
  written but the header.

  The round trips: what a client encodes from one of the request structs is what the handler sees,
  and the fields of a response can be read off its bytes.
\<close>

section \<open>Decoding requests\<close>

definition zero_NewAccount :: new_account_body where
  "zero_NewAccount = \<lparr>na_AccountId = [], na_Name = [], na_Secret = None\<rparr>"

definition field_NewAccount :: "string \<Rightarrow> json \<Rightarrow> new_account_body \<Rightarrow> new_account_body option" where
  "field_NewAccount k v x =
     (if names_field k ''account_id'' then map_option (\<lambda>y. x\<lparr>na_AccountId := y\<rparr>) (set_string v (na_AccountId x))
      else if names_field k ''name'' then map_option (\<lambda>y. x\<lparr>na_Name := y\<rparr>) (set_string v (na_Name x))
      else if names_field k ''secret'' then map_option (\<lambda>y. x\<lparr>na_Secret := y\<rparr>) (set_string_ptr v (na_Secret x))
      else Some x)"

definition Decode_NewAccount :: "string \<Rightarrow> new_account_body option" where
  "Decode_NewAccount = decode_object field_NewAccount zero_NewAccount"

definition zero_LoginRequest :: login_request where
  "zero_LoginRequest = \<lparr>lq_AccountId = [], lq_Secret = None\<rparr>"

definition field_LoginRequest :: "string \<Rightarrow> json \<Rightarrow> login_request \<Rightarrow> login_request option" where
  "field_LoginRequest k v x =
     (if names_field k ''account_id'' then map_option (\<lambda>y. x\<lparr>lq_AccountId := y\<rparr>) (set_string v (lq_AccountId x))
      else if names_field k ''secret'' then map_option (\<lambda>y. x\<lparr>lq_Secret := y\<rparr>) (set_string_ptr v (lq_Secret x))
      else Some x)"

definition Decode_LoginRequest :: "string \<Rightarrow> login_request option" where
  "Decode_LoginRequest = decode_object field_LoginRequest zero_LoginRequest"

definition zero_NewRedemption :: new_redemption where
  "zero_NewRedemption = \<lparr>nr_OccurredAt = zero_time, nr_Points = 0, nr_Ref = [], nr_Reward = []\<rparr>"

definition field_NewRedemption :: "string \<Rightarrow> json \<Rightarrow> new_redemption \<Rightarrow> new_redemption option" where
  "field_NewRedemption k v x =
     (if names_field k ''occurred_at'' then map_option (\<lambda>y. x\<lparr>nr_OccurredAt := y\<rparr>) (set_time v (nr_OccurredAt x))
      else if names_field k ''points'' then map_option (\<lambda>y. x\<lparr>nr_Points := y\<rparr>) (set_int64 v (nr_Points x))
      else if names_field k ''ref'' then map_option (\<lambda>y. x\<lparr>nr_Ref := y\<rparr>) (set_string v (nr_Ref x))
      else if names_field k ''reward'' then map_option (\<lambda>y. x\<lparr>nr_Reward := y\<rparr>) (set_string v (nr_Reward x))
      else Some x)"

definition Decode_NewRedemption :: "string \<Rightarrow> new_redemption option" where
  "Decode_NewRedemption = decode_object field_NewRedemption zero_NewRedemption"

definition zero_NewTransaction :: new_transaction where
  "zero_NewTransaction =
     \<lparr>nt_AccountId = [], nt_Kind = [], nt_OccurredAt = zero_time, nt_Points = 0, nt_Ref = []\<rparr>"

definition field_NewTransaction :: "string \<Rightarrow> json \<Rightarrow> new_transaction \<Rightarrow> new_transaction option" where
  "field_NewTransaction k v x =
     (if names_field k ''account_id'' then map_option (\<lambda>y. x\<lparr>nt_AccountId := y\<rparr>) (set_string v (nt_AccountId x))
      else if names_field k ''kind'' then map_option (\<lambda>y. x\<lparr>nt_Kind := y\<rparr>) (set_string v (nt_Kind x))
      else if names_field k ''occurred_at'' then map_option (\<lambda>y. x\<lparr>nt_OccurredAt := y\<rparr>) (set_time v (nt_OccurredAt x))
      else if names_field k ''points'' then map_option (\<lambda>y. x\<lparr>nt_Points := y\<rparr>) (set_int64 v (nt_Points x))
      else if names_field k ''ref'' then map_option (\<lambda>y. x\<lparr>nt_Ref := y\<rparr>) (set_string v (nt_Ref x))
      else Some x)"

definition Decode_NewTransaction :: "string \<Rightarrow> new_transaction option" where
  "Decode_NewTransaction = decode_object field_NewTransaction zero_NewTransaction"

section \<open>Encoding\<close>

fun all_some :: "'a option list \<Rightarrow> 'a list option" where
  "all_some [] = Some []"
| "all_some (x # xs) =
     (case x of None \<Rightarrow> None | Some y \<Rightarrow> map_option (\<lambda>ys. y # ys) (all_some xs))"

definition json_member :: "string \<Rightarrow> json option \<Rightarrow> (string \<times> json) option" where
  "json_member k v = map_option (Pair k) v"

definition json_obj :: "(string \<times> json) option list \<Rightarrow> json option" where
  "json_obj ms = map_option JObj (all_some ms)"

definition json_arr :: "json option list \<Rightarrow> json option" where
  "json_arr vs = map_option JArr (all_some vs)"

definition str_member :: "string \<Rightarrow> string \<Rightarrow> (string \<times> json) option" where
  "str_member k s = Some (k, put_string s)"

definition int_member :: "string \<Rightarrow> int64 \<Rightarrow> (string \<times> json) option" where
  "int_member k w = Some (k, put_int (sint w))"

definition time_member :: "string \<Rightarrow> gotime \<Rightarrow> (string \<times> json) option" where
  "time_member k t = json_member k (put_time t)"

definition opt_member :: "string \<Rightarrow> string option \<Rightarrow> (string \<times> json) option list" where
  "opt_member k p = (case p of None \<Rightarrow> [] | Some s \<Rightarrow> [str_member k s])"

lemmas member_defs = str_member_def int_member_def time_member_def opt_member_def json_member_def

definition json_NewAccount :: "new_account_body \<Rightarrow> json option" where
  "json_NewAccount x =
     json_obj ([str_member ''account_id'' (na_AccountId x), str_member ''name'' (na_Name x)]
          @ opt_member ''secret'' (na_Secret x))"

definition json_LoginRequest :: "login_request \<Rightarrow> json option" where
  "json_LoginRequest x = json_obj (str_member ''account_id'' (lq_AccountId x) # opt_member ''secret'' (lq_Secret x))"

definition json_NewRedemption :: "new_redemption \<Rightarrow> json option" where
  "json_NewRedemption x =
     json_obj [time_member ''occurred_at'' (nr_OccurredAt x), int_member ''points'' (nr_Points x),
          str_member ''ref'' (nr_Ref x), str_member ''reward'' (nr_Reward x)]"

definition json_NewTransaction :: "new_transaction \<Rightarrow> json option" where
  "json_NewTransaction x =
     json_obj [str_member ''account_id'' (nt_AccountId x), str_member ''kind'' (nt_Kind x),
          time_member ''occurred_at'' (nt_OccurredAt x), int_member ''points'' (nt_Points x),
          str_member ''ref'' (nt_Ref x)]"

definition json_account :: "gen_account \<Rightarrow> json option" where
  "json_account x =
     json_obj [str_member ''account_id'' (ga_AccountId x), time_member ''created_at'' (ga_CreatedAt x),
          str_member ''name'' (ga_Name x)]"

definition json_account_summary :: "gen_account_summary \<Rightarrow> json option" where
  "json_account_summary x =
     json_obj [str_member ''account_id'' (gs_AccountId x), int_member ''balance'' (gs_Balance x),
          str_member ''name'' (gs_Name x), str_member ''role'' (gs_Role x)]"

definition json_audit_entry :: "gen_audit_entry \<Rightarrow> json option" where
  "json_audit_entry x =
     json_obj [str_member ''account_id'' (ge_AccountId x), time_member ''created_at'' (ge_CreatedAt x),
          int_member ''id'' (ge_Id x), str_member ''kind'' (ge_Kind x), str_member ''outcome'' (ge_Outcome x),
          int_member ''points'' (ge_Points x), str_member ''reason'' (ge_Reason x), str_member ''ref'' (ge_Ref x)]"

definition json_balance :: "gen_balance \<Rightarrow> json option" where
  "json_balance x = json_obj [str_member ''account_id'' (gb_AccountId x), int_member ''balance'' (gb_Balance x)]"

definition json_batch_summary :: "batch_summary \<Rightarrow> json option" where
  "json_batch_summary x =
     json_obj [int_member ''accepted'' (bs_Accepted x), int_member ''duplicates'' (bs_Duplicates x),
          int_member ''processed'' (bs_Processed x), int_member ''rejected'' (bs_Rejected x)]"

definition json_error :: "gen_error \<Rightarrow> json option" where
  "json_error x =
     json_obj [json_member ''error''
            (json_obj ([str_member ''code'' (er_Code x), str_member ''message'' (er_Message x)]
                  @ opt_member ''request_id'' (er_RequestId x)))]"

definition json_health :: "gen_health \<Rightarrow> json option" where
  "json_health x = json_obj [str_member ''db'' (gh_Db x), str_member ''status'' (gh_Status x)]"

definition json_ledger_entry :: "ledger_entry \<Rightarrow> json option" where
  "json_ledger_entry x =
     json_obj [str_member ''kind'' (le_Kind x), time_member ''occurred_at'' (le_OccurredAt x),
          int_member ''points'' (le_Points x), str_member ''ref'' (le_Ref x)]"

definition json_redemption :: "redemption \<Rightarrow> json option" where
  "json_redemption x =
     json_obj [str_member ''account_id'' (rd_AccountId x), str_member ''kind'' (rd_Kind x),
          time_member ''occurred_at'' (rd_OccurredAt x), int_member ''points'' (rd_Points x),
          str_member ''ref'' (rd_Ref x), str_member ''reward'' (rd_Reward x)]"

definition json_token_response :: "token_response \<Rightarrow> json option" where
  "json_token_response x =
     json_obj [Some (''expires_in'', put_int (tk_ExpiresIn x)), str_member ''token'' (tk_Token x),
          str_member ''token_type'' (tk_TokenType x)]"

definition json_transaction :: "gen_transaction \<Rightarrow> json option" where
  "json_transaction x =
     json_obj [str_member ''account_id'' (gt_AccountId x), str_member ''kind'' (gt_Kind x),
          time_member ''occurred_at'' (gt_OccurredAt x), int_member ''points'' (gt_Points x),
          str_member ''ref'' (gt_Ref x)]"

lemmas json_struct_defs = json_NewAccount_def json_LoginRequest_def json_NewRedemption_def
  json_NewTransaction_def json_account_def json_account_summary_def json_audit_entry_def
  json_balance_def json_batch_summary_def json_error_def json_health_def json_ledger_entry_def json_redemption_def
  json_token_response_def json_transaction_def

fun json_body :: "body \<Rightarrow> json option" where
  "json_body (BError x) = json_error x"
| "json_body (BAccount x) = json_account x"
| "json_body (BAccountList xs) = json_arr (map json_account_summary xs)"
| "json_body (BBalance x) = json_balance x"
| "json_body (BTransactionList xs) = json_arr (map json_ledger_entry xs)"
| "json_body (BTransaction x) = json_transaction x"
| "json_body (BRedemption x) = json_redemption x"
| "json_body (BAuditLog xs) = json_arr (map json_audit_entry xs)"
| "json_body (BBatchSummary x) = json_batch_summary x"
| "json_body (BHealth x) = json_health x"
| "json_body (BToken x) = json_token_response x"
| "json_body (BBytes b) = None"

text \<open>\<^verbatim>\<open>Encoder.Encode\<close>: the text and a line feed, \<open>None\<close> where it returns an error.\<close>

definition Encode :: "json option \<Rightarrow> string option" where
  "Encode v = map_option (\<lambda>j. render j @ [CHR 0x0A]) v"

text \<open>The bytes of a response: its error ignored, an encoder that fails has written nothing.\<close>

fun body_bytes :: "body \<Rightarrow> string" where
  "body_bytes (BBytes b) = b"
| "body_bytes b = (case Encode (json_body b) of None \<Rightarrow> [] | Some t \<Rightarrow> t)"

section \<open>Written structs\<close>

text \<open>What an encoded value of a bounded nesting is made of.\<close>

definition fits :: "nat \<Rightarrow> json option \<Rightarrow> bool" where
  "fits n x \<longleftrightarrow> (\<forall>j. x = Some j \<longrightarrow> written j \<and> nesting j \<le> n)"

definition member_fits :: "nat \<Rightarrow> (string \<times> json) option \<Rightarrow> bool" where
  "member_fits n m \<longleftrightarrow> (\<forall>k v. m = Some (k, v) \<longrightarrow> lexes k \<and> written v \<and> nesting v \<le> n)"

definition plain_name :: "string \<Rightarrow> bool" where
  "plain_name k \<longleftrightarrow> list_all (\<lambda>c. c = CHR ''_'' \<or> byte_in 97 122 c) k"

lemma lexes_name: "plain_name k \<Longrightarrow> lexes k"
proof (rule lexes_list)
  fix c assume "plain_name k" "c \<in> set k"
  then have "c = CHR ''_'' \<or> byte_in 97 122 c" by (simp add: plain_name_def list_all_iff)
  then show "lexes [c]" by (intro lexes_plain) (auto simp: byte_in_def)
qed

lemma all_some_set: "all_some xs = Some ys \<Longrightarrow> \<forall>y \<in> set ys. Some y \<in> set xs"
  by (induction xs arbitrary: ys) (auto split: option.splits)

lemma foldr_max_le: "(\<And>x. x \<in> set xs \<Longrightarrow> f x \<le> n) \<Longrightarrow> foldr max (map f xs) 0 \<le> (n :: nat)"
  by (induction xs) auto

lemma fits_obj:
  assumes "list_all (member_fits n) ms"
  shows "fits (Suc n) (json_obj ms)"
proof -
  have "written (JObj ys) \<and> nesting (JObj ys) \<le> Suc n" if "all_some ms = Some ys" for ys
  proof -
    have y: "lexes k \<and> written v \<and> nesting v \<le> n" if "(k, v) \<in> set ys" for k v
    proof -
      have "Some (k, v) \<in> set ms" using all_some_set \<open>all_some ms = Some ys\<close> that by blast
      with assms show ?thesis by (auto simp: list_all_iff member_fits_def)
    qed
    then have "foldr max (map (\<lambda>(k, v). nesting v) ys) 0 \<le> n" by (intro foldr_max_le) auto
    with y show ?thesis by (auto simp: list_all_iff)
  qed
  then show ?thesis by (auto simp: fits_def json_obj_def)
qed

lemma fits_arr:
  assumes "list_all (fits n) vs"
  shows "fits (Suc n) (json_arr vs)"
proof -
  have "written (JArr ys) \<and> nesting (JArr ys) \<le> Suc n" if "all_some vs = Some ys" for ys
  proof -
    have y: "written v \<and> nesting v \<le> n" if "v \<in> set ys" for v
    proof -
      have "Some v \<in> set vs" using all_some_set \<open>all_some vs = Some ys\<close> that by blast
      with assms show ?thesis by (auto simp: list_all_iff fits_def)
    qed
    then have "foldr max (map nesting ys) 0 \<le> n" by (intro foldr_max_le) auto
    with y show ?thesis by (auto simp: list_all_iff)
  qed
  then show ?thesis by (auto simp: fits_def json_arr_def)
qed

definition time_char :: "char \<Rightarrow> bool" where
  "time_char c \<longleftrightarrow> is_digit c \<or> c \<in> {CHR ''-'', CHR '':'', CHR ''T'', CHR ''Z'', CHR ''.''}"

lemma lexes_time: "list_all time_char s \<Longrightarrow> lexes s"
  by (rule lexes_list) (auto simp: list_all_iff time_char_def is_digit_def intro!: lexes_plain)

lemma time_char_pad: "list_all time_char (pad_int w i)"
  using dec_digits_digits [of "\<bar>i\<bar>"]
  by (auto simp: pad_int_def Let_def list_all_iff time_char_def is_digit_def)

lemma time_char_Format: "list_all time_char (Format t)"
  using time_char_pad by (auto simp: Format_def Let_def time_char_def split: prod.split)

lemma time_char_fraction: "list_all time_char (fraction_text n)"
proof -
  have "set (dropWhile P s) \<subseteq> set s" for P and s :: string by (auto dest: set_dropWhileD)
  then show ?thesis using time_char_pad [of 9 n]
    by (fastforce simp: fraction_text_def list_all_iff time_char_def)
qed

lemma fits_put_time: "fits 0 (put_time t)"
proof -
  have "list_all time_char (butlast (Format t) @ fraction_text (tm_nsec t) @ ''Z'')"
    using time_char_Format [of t] time_char_fraction [of "tm_nsec t"]
    by (auto simp: list_all_iff time_char_def dest: in_set_butlastD)
  then show ?thesis by (auto simp: fits_def put_time_def intro: lexes_time)
qed

lemma member_fits_simps [simp]:
  "plain_name k \<Longrightarrow> member_fits n (str_member k s)" "plain_name k \<Longrightarrow> member_fits n (int_member k w)"
  "plain_name k \<Longrightarrow> member_fits n (Some (k, put_int i))"
  "plain_name k \<Longrightarrow> member_fits n (time_member k t)" "plain_name k \<Longrightarrow> list_all (member_fits n) (opt_member k p)"
  using fits_put_time [of t]
  by (auto simp: member_fits_def member_defs put_string_def put_int_def lexes_json_escape lexes_name fits_def
      split: option.splits)

lemma plain_names [simp]:
  "plain_name ''account_id''" "plain_name ''name''" "plain_name ''secret''" "plain_name ''occurred_at''"
  "plain_name ''points''" "plain_name ''ref''" "plain_name ''reward''" "plain_name ''kind''"
  "plain_name ''created_at''" "plain_name ''balance''" "plain_name ''role''" "plain_name ''id''"
  "plain_name ''outcome''" "plain_name ''reason''" "plain_name ''accepted''" "plain_name ''duplicates''"
  "plain_name ''processed''" "plain_name ''rejected''" "plain_name ''error''" "plain_name ''code''"
  "plain_name ''message''" "plain_name ''request_id''" "plain_name ''expires_in''" "plain_name ''token''"
  "plain_name ''token_type''" "plain_name ''db''" "plain_name ''status''"
  by code_simp+

lemma fits_struct [simp]:
  "fits (Suc 0) (json_NewAccount a)" "fits (Suc 0) (json_LoginRequest b)" "fits (Suc 0) (json_NewRedemption c)"
  "fits (Suc 0) (json_NewTransaction d)" "fits (Suc 0) (json_account e)" "fits (Suc 0) (json_account_summary f)"
  "fits (Suc 0) (json_audit_entry g)" "fits (Suc 0) (json_balance h)" "fits (Suc 0) (json_batch_summary i)"
  "fits (Suc 0) (json_ledger_entry k)" "fits (Suc 0) (json_redemption l)" "fits (Suc 0) (json_token_response m)"
  "fits (Suc 0) (json_transaction n)" "fits (Suc 0) (json_health q)"
  unfolding json_struct_defs by (rule fits_obj, simp)+

lemma fits_mono: "fits m x \<Longrightarrow> m \<le> n \<Longrightarrow> fits n x"
  by (auto simp: fits_def)

lemma fits_error: "fits 2 (json_error x)"
proof -
  have "fits 1 (json_obj ([str_member ''code'' (er_Code x), str_member ''message'' (er_Message x)]
                  @ opt_member ''request_id'' (er_RequestId x)))"
    unfolding One_nat_def by (rule fits_obj) simp
  then have "member_fits 1 (json_member ''error'' (json_obj ([str_member ''code'' (er_Code x), str_member ''message'' (er_Message x)]
                  @ opt_member ''request_id'' (er_RequestId x))))"
    by (auto simp: member_fits_def json_member_def fits_def lexes_name)
  then show ?thesis unfolding json_error_def numeral_2_eq_2 by (intro fits_obj) simp
qed

lemma fits_body: "fits 2 (json_body b)"
proof (cases b)
  case (BError x)
  then show ?thesis using fits_error by simp
next
  case (BBytes x)
  then show ?thesis by (simp add: fits_def)
qed (auto simp: numeral_2_eq_2 list_all_iff intro!: fits_arr fits_mono [of "Suc 0" _ "Suc (Suc 0)"])

text \<open>An encoded value is the first value of the text it was encoded to, whatever follows.\<close>

lemma Encode_first:
  assumes "fits n x" and "int n \<le> max_nesting" and "Encode x = Some out"
  shows "\<exists>j. x = Some j \<and> json_first (out @ rest) = Some j"
proof -
  obtain j where j: "x = Some j" and out: "out = render j @ [CHR 0x0A]"
    using assms(3) by (auto simp: Encode_def)
  have "written j" "int (nesting j) \<le> max_nesting" using assms(1,2) j by (auto simp: fits_def)
  moreover have "delimits ([CHR 0x0A] @ rest)" by (simp add: delimits_def is_digit_def)
  ultimately have "json_first (render j @ [CHR 0x0A] @ rest) = Some j" by (rule json_first_render)
  then show ?thesis using j out by simp
qed

section \<open>Reading the names\<close>

lemma unquote_ascii: "list_all (\<lambda>c. byte_in 0 0x7F c \<and> c \<noteq> backslash) s \<Longrightarrow> unquote s = s"
  by (induction s) (simp_all add: unquote_rune)

lemma plain_name_ascii: "plain_name k \<Longrightarrow> list_all (byte_in 0 0x7F) k \<and> backslash \<notin> set k"
proof -
  assume "plain_name k"
  then have c: "c = CHR ''_'' \<or> byte_in 97 122 c" if "c \<in> set k" for c
    using that by (simp add: plain_name_def list_all_iff)
  have "byte_in 0 0x7F c \<and> c \<noteq> backslash" if "c \<in> set k" for c
    using c [OF that] by (auto simp: byte_in_def)
  then show ?thesis by (auto simp: list_all_iff)
qed

lemma fold_name_ascii: "list_all (byte_in 0 0x7F) s \<Longrightarrow> fold_name s = ToUpper s"
proof (induction s rule: fold_name.induct)
  case (1 a b c s)
  then have "a \<noteq> CHR 0xC5" "a \<noteq> CHR 0xE2" by (auto simp: byte_in_def)
  with 1 show ?case by (simp add: ToUpper_def)
next
  case (2 a b)
  then have "a \<noteq> CHR 0xC5" by (auto simp: byte_in_def)
  then show ?case by simp
qed simp_all

definition upper :: "char \<Rightarrow> char" where
  "upper c = (if 97 \<le> (of_char c :: int) \<and> of_char c \<le> (122::int) then char_of (of_char c - (32::int)) else c)"

lemma ToUpper_upper: "ToUpper = map upper"
  by (simp add: ToUpper_def upper_def fun_eq_iff)

lemma byte_upper: "byte_in 97 122 c \<Longrightarrow> byte (upper c) = byte c - 32"
  by (simp add: upper_def byte_in_def)

lemma upper_underscore: "byte (upper (CHR ''_'')) = 95"
  by (simp add: upper_def)

lemma byte_inject: "byte a = byte b \<Longrightarrow> a = b"
  by (metis char_of_char)

lemma inj_upper: "inj_on upper {c. c = CHR ''_'' \<or> byte_in 97 122 c}"
proof (rule inj_onI)
  fix a b assume a: "a \<in> {c. c = CHR ''_'' \<or> byte_in 97 122 c}" and b: "b \<in> {c. c = CHR ''_'' \<or> byte_in 97 122 c}"
    and eq: "upper a = upper b"
  from eq have "byte (upper a) = byte (upper b)" by simp
  moreover have "byte (upper a) = (if a = CHR ''_'' then 95 else byte a - 32)"
    "byte (upper b) = (if b = CHR ''_'' then 95 else byte b - 32)"
    using a b byte_upper upper_underscore by auto
  ultimately have "byte a = byte b" using a b by (auto simp: byte_in_def split: if_splits)
  then show "a = b" by (rule byte_inject)
qed

lemma names_plain: "plain_name k \<Longrightarrow> plain_name f \<Longrightarrow> names_field k f \<longleftrightarrow> k = f"
proof -
  assume k: "plain_name k" and f: "plain_name f"
  have "unquote k = k" using plain_name_ascii [OF k] by (intro unquote_ascii) (auto simp: list_all_iff)
  then have "fold_name (unquote k) = map upper k" "fold_name f = map upper f"
    using plain_name_ascii [OF k] plain_name_ascii [OF f] by (simp_all add: fold_name_ascii ToUpper_upper)
  moreover have "map upper k = map upper f \<longleftrightarrow> k = f"
    using k f by (intro inj_on_map_eq_map inj_on_subset [OF inj_upper]) (auto simp: plain_name_def list_all_iff)
  ultimately show ?thesis by (simp add: names_field_def)
qed

section \<open>What a client encodes is what the handler sees\<close>

lemma set_string_put: "valid_utf8 s \<Longrightarrow> set_string (put_string s) old = Some s"
  by (simp add: set_string_def put_string_def unquote_json_escape)

lemma set_string_ptr_put: "valid_utf8 s \<Longrightarrow> set_string_ptr (put_string s) old = Some (Some s)"
  by (simp add: set_string_ptr_def put_string_def unquote_json_escape)

lemma set_int64_put: "set_int64 (put_int (sint w)) old = Some w"
  by (simp add: set_int64_def put_int_def ParseInt64_int_text)

text \<open>Whole seconds of the years 0 to 9999.\<close>

definition plain_time :: "gotime \<Rightarrow> bool" where
  "plain_time t \<longleftrightarrow> tm_nsec t = 0 \<and> 0 \<le> year_of t \<and> year_of t \<le> 9999"

lemma put_time_plain: "plain_time t \<Longrightarrow> put_time t = Some (JStr (Format t))"
proof -
  assume "plain_time t"
  moreover have "Format t = butlast (Format t) @ ''Z''"
    by (simp add: Format_def Let_def butlast_append split: prod.split)
  ultimately show ?thesis by (simp add: put_time_def plain_time_def fraction_text_def)
qed

lemma set_time_put: "plain_time t \<Longrightarrow> set_time (JStr (Format t)) old = Some t"
  using Format_parses [of t] by (simp add: set_time_def plain_time_def year_of_def)

lemma decode_encoded:
  assumes "Encode (json_obj ms) = Some out" and "fits 1 (json_obj ms)"
  shows "\<exists>ys. all_some ms = Some ys \<and> decode_object field zero (out @ rest) = store_members field ys zero"
  using Encode_first [OF assms(2) _ assms(1), of rest]
  by (auto simp: json_obj_def decode_object_def max_nesting_def)

lemmas decode_simps = member_defs names_plain set_string_put set_string_ptr_put set_int64_put
  set_time_put put_time_plain

lemma Decode_NewTransaction_Encode:
  assumes "Encode (json_NewTransaction x) = Some out"
    and "list_all valid_utf8 [nt_AccountId x, nt_Kind x, nt_Ref x]" and "plain_time (nt_OccurredAt x)"
  shows "Decode_NewTransaction (out @ rest) = Some x"
  using decode_encoded [OF assms(1) [unfolded json_NewTransaction_def], of field_NewTransaction zero_NewTransaction rest] assms(2,3)
    fits_struct(4) [of x]
  by (auto simp: Decode_NewTransaction_def field_NewTransaction_def zero_NewTransaction_def decode_simps json_NewTransaction_def)

lemma Decode_NewRedemption_Encode:
  assumes "Encode (json_NewRedemption x) = Some out"
    and "list_all valid_utf8 [nr_Ref x, nr_Reward x]" and "plain_time (nr_OccurredAt x)"
  shows "Decode_NewRedemption (out @ rest) = Some x"
  using decode_encoded [OF assms(1) [unfolded json_NewRedemption_def], of field_NewRedemption zero_NewRedemption rest] assms(2,3)
    fits_struct(3) [of x]
  by (auto simp: Decode_NewRedemption_def field_NewRedemption_def zero_NewRedemption_def decode_simps json_NewRedemption_def)

lemma Decode_NewAccount_Encode:
  assumes "Encode (json_NewAccount x) = Some out"
    and "list_all valid_utf8 [na_AccountId x, na_Name x]" and "\<forall>s. na_Secret x = Some s \<longrightarrow> valid_utf8 s"
  shows "Decode_NewAccount (out @ rest) = Some x"
  using decode_encoded [OF assms(1) [unfolded json_NewAccount_def], of field_NewAccount zero_NewAccount rest] assms(2,3)
    fits_struct(1) [of x]
  by (cases "na_Secret x")
    (auto simp: Decode_NewAccount_def field_NewAccount_def zero_NewAccount_def decode_simps json_NewAccount_def)

lemma Decode_LoginRequest_Encode:
  assumes "Encode (json_LoginRequest x) = Some out"
    and "valid_utf8 (lq_AccountId x)" and "\<forall>s. lq_Secret x = Some s \<longrightarrow> valid_utf8 s"
  shows "Decode_LoginRequest (out @ rest) = Some x"
  using decode_encoded [OF assms(1) [unfolded json_LoginRequest_def], of field_LoginRequest zero_LoginRequest rest] assms(2,3)
    fits_struct(2) [of x]
  by (cases "lq_Secret x")
    (auto simp: Decode_LoginRequest_def field_LoginRequest_def zero_LoginRequest_def decode_simps json_LoginRequest_def)

text \<open>The value of a response can be read off its bytes.\<close>

lemma body_bytes_first:
  assumes "json_body b = Some j"
  shows "json_first (body_bytes b @ rest) = Some j"
proof -
  obtain out where out: "Encode (json_body b) = Some out" by (auto simp: Encode_def assms)
  have "body_bytes b = out" using out assms by (cases b) auto
  then show ?thesis using Encode_first [OF fits_body _ out, of rest] assms by (auto simp: max_nesting_def)
qed

lemma balance_bytes:
  "json_first (body_bytes (BBalance x) @ rest) =
     Some (JObj [(''account_id'', JStr (json_escape (gb_AccountId x))),
                 (''balance'', JNum (int_text (sint (gb_Balance x))))])"
  by (rule body_bytes_first)
    (simp add: json_balance_def json_obj_def str_member_def int_member_def put_string_def put_int_def)

end
