(* ===== verification/Handlers.thy ===== *)
theory Handlers
  imports Services Auth Bodies "HOL-Library.Signed_Division"
begin

text \<open>
  The request handlers of \<^verbatim>\<open>accounts.go\<close>, \<^verbatim>\<open>redeem.go\<close>, \<^verbatim>\<open>audit.go\<close>, \<^verbatim>\<open>login.go\<close> and
  \<^verbatim>\<open>health.go\<close>: each takes the server, the outside world of this request, the request and the
  storage state, and returns the response with the new state.

  The server holds its services as the repositories behind them. The world \<open>wo\<close> gives the n-th
  storage call of the request its own index and the clock's reading. JSON bodies are decoded by the
  functions of \<^verbatim>\<open>Bodies\<close>, \<open>None\<close> being a body \<^verbatim>\<open>encoding/json\<close> refuses. The record \<open>codec\<close> is what the
  program uses of \<^verbatim>\<open>mime/multipart\<close>: the bytes of the request's form part \<open>file\<close>, \<open>None\<close> when there is
  none.

  The lemmas hold over any storage that meets \<open>api_contract\<close>.
\<close>

record codec =
  cd_FormFile :: "request \<Rightarrow> string option"

record ('e, 's) server =
  sv_health :: "'e \<Rightarrow> goerr option"
  sv_accounts :: "'e \<Rightarrow> 's account_repository"
  sv_txns :: "'e \<Rightarrow> 's txn_repository"
  sv_audit :: "'e \<Rightarrow> 's audit_repository"
  sv_bcrypt :: bcrypt
  sv_jwt :: jwt_lib
  sv_codec :: codec
  sv_jwtSecret :: string
  sv_jwtTTL :: int

record 'e world =
  wo_call :: "nat \<Rightarrow> 'e"
  wo_now :: gotime

section \<open>Health (health.go)\<close>

definition h_GetHealth :: "('e, 's) server \<Rightarrow> 'e world \<Rightarrow> request \<Rightarrow> 's \<Rightarrow> response \<times> 's" where
  \<open>h_GetHealth sv wo r s =
     (let h = Check (sv_health sv (wo_call wo 0));
          status = (if hl_Status h \<noteq> ''ok'' then 503 else 200)
      in (\<lparr>rs_Status = status, rs_Header = [(''Content-Type'', ''application/json'')],
           rs_Body = BBytes (''{"status":"'' @ hl_Status h @ ''","db":"'' @ hl_DB h @ ''"}'')\<rparr>, s))\<close>

section \<open>Accounts (accounts.go)\<close>

definition account_to_wire :: "account \<Rightarrow> gen_account" where
  "account_to_wire a =
     \<lparr>ga_AccountId = acc_ID a, ga_CreatedAt = acc_CreatedAt a, ga_Name = acc_Name a\<rparr>"

definition secret_of :: "string option \<Rightarrow> string" where
  "secret_of p = (case p of None \<Rightarrow> [] | Some x \<Rightarrow> x)"

definition h_CreateAccount :: "('e, 's) server \<Rightarrow> 'e world \<Rightarrow> request \<Rightarrow> 's \<Rightarrow> response \<times> 's" where
  "h_CreateAccount sv wo r s =
     (case Decode_NewAccount (rq_Body r) of
        None \<Rightarrow> (writeError [] r 400 ''invalid_input'' ''malformed JSON body'', s)
      | Some body \<Rightarrow>
          if na_AccountId body = [] \<or> na_Name body = []
          then (writeError [] r 400 ''invalid_input'' ''account_id and name are required'', s)
          else
            (case svc_CreateAccount (sv_bcrypt sv) (sv_accounts sv (wo_call wo 0))
                    \<lparr>acc_ID = na_AccountId body, acc_Name = na_Name body, acc_CreatedAt = zero_time\<rparr>
                    (secret_of (na_Secret body)) s of
               (Some err, s') \<Rightarrow> (writeDomainError r err, s')
             | (None, s') \<Rightarrow>
                 (case svc_GetAccount (sv_accounts sv (wo_call wo 1)) (na_AccountId body) s' of
                    Inl err \<Rightarrow> (writeDomainError r err, s')
                  | Inr acct \<Rightarrow>
                      (writeJSON [(''Location'', ''/accounts/'' @ acc_ID acct)] 201
                         (BAccount (account_to_wire acct)), s'))))"

definition h_GetAccount ::
    "('e, 's) server \<Rightarrow> 'e world \<Rightarrow> request \<Rightarrow> string \<Rightarrow> 's \<Rightarrow> response \<times> 's" where
  "h_GetAccount sv wo r accountID s =
     (case authorizeTarget r accountID of
        Inl err \<Rightarrow> (writeDomainError r err, s)
      | Inr i \<Rightarrow>
          (case svc_GetAccount (sv_accounts sv (wo_call wo 0)) i s of
             Inl err \<Rightarrow> (writeDomainError r err, s)
           | Inr acct \<Rightarrow> (writeJSON [] 200 (BAccount (account_to_wire acct)), s)))"

definition h_GetBalance ::
    "('e, 's) server \<Rightarrow> 'e world \<Rightarrow> request \<Rightarrow> string \<Rightarrow> 's \<Rightarrow> response \<times> 's" where
  "h_GetBalance sv wo r accountID s =
     (case authorizeTarget r accountID of
        Inl err \<Rightarrow> (writeDomainError r err, s)
      | Inr i \<Rightarrow>
          (case svc_Balance (sv_accounts sv (wo_call wo 0)) i s of
             Inl err \<Rightarrow> (writeDomainError r err, s)
           | Inr b \<Rightarrow> (writeJSON [] 200 (BBalance \<lparr>gb_AccountId = i, gb_Balance = b\<rparr>), s)))"

definition summary_to_wire :: "account_summary \<Rightarrow> gen_account_summary" where
  "summary_to_wire a =
     \<lparr>gs_AccountId = as_ID a, gs_Balance = as_Balance a, gs_Name = as_Name a, gs_Role = as_Role a\<rparr>"

definition h_ListAccounts :: "('e, 's) server \<Rightarrow> 'e world \<Rightarrow> request \<Rightarrow> 's \<Rightarrow> response \<times> 's" where
  "h_ListAccounts sv wo r s =
     (case requireAdmin r of
        Some err \<Rightarrow> (writeDomainError r err, s)
      | None \<Rightarrow>
          (case svc_ListAccounts (sv_accounts sv (wo_call wo 0)) s of
             Inl err \<Rightarrow> (writeDomainError r err, s)
           | Inr xs \<Rightarrow> (writeJSON [] 200 (BAccountList (map summary_to_wire xs)), s)))"

definition ledger_to_wire :: "txn \<Rightarrow> ledger_entry" where
  "ledger_to_wire t =
     \<lparr>le_Kind = t_Kind t, le_OccurredAt = t_OccurredAt t, le_Points = t_Points t, le_Ref = t_Ref t\<rparr>"

definition h_ListTransactions ::
    "('e, 's) server \<Rightarrow> 'e world \<Rightarrow> request \<Rightarrow> string \<Rightarrow> 's \<Rightarrow> response \<times> 's" where
  "h_ListTransactions sv wo r accountID s =
     (case authorizeTarget r accountID of
        Inl err \<Rightarrow> (writeDomainError r err, s)
      | Inr i \<Rightarrow>
          (case svc_ListTransactions (sv_accounts sv (wo_call wo 0)) i s of
             Inl err \<Rightarrow> (writeDomainError r err, s)
           | Inr xs \<Rightarrow> (writeJSON [] 200 (BTransactionList (map ledger_to_wire xs)), s)))"

definition txn_to_wire :: "txn \<Rightarrow> gen_transaction" where
  "txn_to_wire t =
     \<lparr>gt_AccountId = t_AccountID t, gt_Kind = t_Kind t, gt_OccurredAt = t_OccurredAt t,
      gt_Points = t_Points t, gt_Ref = t_Ref t\<rparr>"

definition body_txn :: "new_transaction \<Rightarrow> string \<Rightarrow> txn" where
  "body_txn body i =
     zero_txn\<lparr>t_Ref := nt_Ref body, t_AccountID := i, t_Points := nt_Points body,
              t_OccurredAt := nt_OccurredAt body\<rparr>"

text \<open>What both recording handlers do with the error of the service.\<close>

definition record_error :: "request \<Rightarrow> goerr \<Rightarrow> response" where
  "record_error r err =
     (if errors_is err ErrNotFound
      then writeError [] r 404 ''account_not_found'' ''account_id does not exist''
      else writeDomainError r err)"

definition h_CreateTransaction :: "('e, 's) server \<Rightarrow> 'e world \<Rightarrow> request \<Rightarrow> 's \<Rightarrow> response \<times> 's" where
  "h_CreateTransaction sv wo r s =
     (case Decode_NewTransaction (rq_Body r) of
        None \<Rightarrow> (writeError [] r 400 ''invalid_input'' ''malformed JSON body'', s)
      | Some body \<Rightarrow>
          if nt_Ref body = [] \<or> nt_AccountId body = [] \<or> sint (nt_Points body) < 1
             \<or> IsZero (nt_OccurredAt body)
          then (writeError [] r 400 ''invalid_input''
                  ''ref, account_id, points (>=1) and occurred_at are required'', s)
          else if nt_Kind body \<noteq> ''earn'' \<and> nt_Kind body \<noteq> ''spend''
          then (writeError [] r 400 ''invalid_kind'' (''kind must be '' @ [CHR 0x27] @ ''earn'' @ [CHR 0x27]
                  @ '' or '' @ [CHR 0x27] @ ''spend'' @ [CHR 0x27]), s)
          else
            (case authorizeTarget r (nt_AccountId body) of
               Inl err \<Rightarrow> (writeDomainError r err, s)
             | Inr i \<Rightarrow>
                 (case (if nt_Kind body = ''earn''
                        then svc_RecordEarn (sv_txns sv (wo_call wo 0)) (body_txn body i) s
                        else svc_RecordSpend (sv_txns sv (wo_call wo 0)) (body_txn body i) s) of
                    (Inl err, s') \<Rightarrow> (record_error r err, s')
                  | (Inr (stored, created), s') \<Rightarrow>
                      (writeJSON [] (if created then 201 else 200)
                         (BTransaction (txn_to_wire stored)), s'))))"

section \<open>Redemptions (redeem.go)\<close>

definition redemption_txn :: "new_redemption \<Rightarrow> string \<Rightarrow> txn" where
  "redemption_txn body i =
     \<lparr>t_Ref = nr_Ref body, t_AccountID = i, t_Kind = [], t_Points = nr_Points body,
      t_Reward = nr_Reward body, t_OccurredAt = nr_OccurredAt body\<rparr>"

definition redemption_to_wire :: "txn \<Rightarrow> redemption" where
  "redemption_to_wire t =
     \<lparr>rd_AccountId = t_AccountID t, rd_Kind = gen_Redeem, rd_OccurredAt = t_OccurredAt t,
      rd_Points = t_Points t, rd_Ref = t_Ref t, rd_Reward = t_Reward t\<rparr>"

definition h_RedeemPoints ::
    "('e, 's) server \<Rightarrow> 'e world \<Rightarrow> request \<Rightarrow> string \<Rightarrow> 's \<Rightarrow> response \<times> 's" where
  "h_RedeemPoints sv wo r accountID s =
     (case Decode_NewRedemption (rq_Body r) of
        None \<Rightarrow> (writeError [] r 400 ''invalid_input'' ''malformed JSON body'', s)
      | Some body \<Rightarrow>
          (case authorizeTarget r accountID of
             Inl err \<Rightarrow> (writeDomainError r err, s)
           | Inr i \<Rightarrow>
               (case svc_RecordRedeem (sv_txns sv (wo_call wo 0)) (redemption_txn body i) s of
                  (Inl err, s') \<Rightarrow> (record_error r err, s')
                | (Inr (stored, created), s') \<Rightarrow>
                    (writeJSON [] (if created then 201 else 200)
                       (BRedemption (redemption_to_wire stored)), s'))))"

section \<open>The audit log (audit.go)\<close>

definition auditToWire :: "audit_entry \<Rightarrow> gen_audit_entry" where
  "auditToWire e =
     \<lparr>ge_AccountId = ae_AccountID e, ge_CreatedAt = ae_CreatedAt e, ge_Id = ae_ID e,
      ge_Kind = ae_Kind e, ge_Outcome = ae_Outcome e, ge_Points = ae_Points e,
      ge_Reason = ae_Reason e, ge_Ref = ae_Ref e\<rparr>"

definition h_ListAudit ::
    "('e, 's) server \<Rightarrow> 'e world \<Rightarrow> request \<Rightarrow> string option \<Rightarrow> 's \<Rightarrow> response \<times> 's" where
  "h_ListAudit sv wo r param s =
     (case requireAdmin r of
        Some err \<Rightarrow> (writeDomainError r err, s)
      | None \<Rightarrow>
          let accountID = (case param of None \<Rightarrow> [] | Some a \<Rightarrow> a)
          in (case svc_List (sv_audit sv (wo_call wo 0)) accountID s of
                Inl err \<Rightarrow> (writeDomainError r err, s)
              | Inr es \<Rightarrow> (writeJSON [] 200 (BAuditLog (map auditToWire es)), s)))"

section \<open>Login (login.go)\<close>

definition h_Login :: "('e, 's) server \<Rightarrow> 'e world \<Rightarrow> request \<Rightarrow> 's \<Rightarrow> response \<times> 's" where
  "h_Login sv wo r s =
     (case Decode_LoginRequest (rq_Body r) of
        None \<Rightarrow> (writeError [] r 400 ''invalid_input'' ''malformed JSON body'', s)
      | Some body \<Rightarrow>
          (case fst (svc_Login (sv_bcrypt sv) (sv_accounts sv (wo_call wo 0)) (lq_AccountId body)
                       (secret_of (lq_Secret body)) s) of
             Inl err \<Rightarrow>
               if errors_is err ErrInvalidCredentials
               then (writeError [] r 401 ''invalid_credentials'' ''invalid credentials'', s)
               else (writeError [] r 500 ''internal_error'' ''could not process login'', s)
           | Inr i \<Rightarrow>
               (case IssueToken (sv_jwt sv) (sv_jwtSecret sv) (sv_jwtTTL sv) i (wo_now wo) of
                  Inl err \<Rightarrow> (writeError [] r 500 ''internal_error'' ''could not issue token'', s)
                | Inr token \<Rightarrow>
                    (writeJSON [] 200 (BToken \<lparr>tk_ExpiresIn = sv_jwtTTL sv sdiv ns_per_second,
                       tk_Token = token, tk_TokenType = gen_Bearer\<rparr>), s))))"

section \<open>The recording handlers as one service call\<close>

definition txn_call :: "new_transaction \<Rightarrow> svc_call" where
  "txn_call body =
     (if nt_Kind body = ''earn'' then CallEarn (body_txn body (nt_AccountId body))
      else CallSpend (body_txn body (nt_AccountId body)))"

definition record_response :: "request \<Rightarrow> (txn \<Rightarrow> body) \<Rightarrow> goerr + txn \<times> bool \<Rightarrow> response" where
  "record_response r wire res =
     (case res of Inl err \<Rightarrow> record_error r err
      | Inr (stored, created) \<Rightarrow> writeJSON [] (if created then 201 else 200) (wire stored))"

lemma record_error_status:
  "rs_Status (record_error r err) \<in> {400, 403, 404, 409, 500}" "is_error (record_error r err)"
  using writeDomainError_status [of r err] by (auto simp: record_error_def)

lemma txn_call_account [simp]: "t_AccountID (svc_txn (txn_call body)) = nt_AccountId body"
  "t_Ref (svc_txn (txn_call body)) = nt_Ref body" "t_Points (svc_txn (txn_call body)) = nt_Points body"
  by (simp_all add: txn_call_def body_txn_def zero_txn_def)

lemma redemption_txn_simps [simp]: "t_AccountID (redemption_txn body i) = i"
  "t_Ref (redemption_txn body i) = nr_Ref body" "t_Points (redemption_txn body i) = nr_Points body"
  by (simp_all add: redemption_txn_def)

lemma txn_call_step:
  "(if nt_Kind body = ''earn'' then svc_RecordEarn repo (body_txn body (nt_AccountId body)) s
    else svc_RecordSpend repo (body_txn body (nt_AccountId body)) s)
   = svc_call_step repo (txn_call body) s"
  by (simp add: txn_call_def)

lemma if_cases3:
  assumes "A \<or> B \<or> C" and "P x" and "P y" and "C \<Longrightarrow> P z"
  shows "P (if A then x else if B then y else z)"
  using assms by auto

lemma h_CreateTransaction_cases:
  assumes "h_CreateTransaction sv wo r s = (p, s')"
  shows "(s' = s \<and> is_error p \<and> rs_Status p \<in> {400, 403}) \<or>
    (\<exists>body res. Decode_NewTransaction (rq_Body r) = Some body \<and> may_act r (nt_AccountId body)
       \<and> svc_call_step (sv_txns sv (wo_call wo 0)) (txn_call body) s = (res, s')
       \<and> p = record_response r (\<lambda>u. BTransaction (txn_to_wire u)) res)"
proof (cases "Decode_NewTransaction (rq_Body r)")
  case None
  with assms show ?thesis by (auto simp: h_CreateTransaction_def)
next
  case (Some body)
  obtain res s1 where step: "svc_call_step (sv_txns sv (wo_call wo 0)) (txn_call body) s = (res, s1)"
    by fastforce
  show ?thesis
  proof (cases "(nt_Ref body = [] \<or> nt_AccountId body = [] \<or> sint (nt_Points body) < 1
        \<or> IsZero (nt_OccurredAt body)) \<or> (nt_Kind body \<noteq> ''earn'' \<and> nt_Kind body \<noteq> ''spend'')
        \<or> \<not> may_act r (nt_AccountId body)")
    case True
    have "snd (h_CreateTransaction sv wo r s) = s \<and> is_error (fst (h_CreateTransaction sv wo r s))
        \<and> rs_Status (fst (h_CreateTransaction sv wo r s)) \<in> {400, 403}"
      unfolding h_CreateTransaction_def Some option.case
      by (rule if_cases3 [OF True]) (simp_all add: authorizeTarget_eq writeDomainError_Sentinel)
    with assms show ?thesis by simp
  next
    case False
    with assms Some have "(case (res, s1) of (Inl err, s') \<Rightarrow> (record_error r err, s')
        | (Inr (stored, created), s') \<Rightarrow>
            (writeJSON [] (if created then 201 else 200) (BTransaction (txn_to_wire stored)), s')) = (p, s')"
      by (simp only: h_CreateTransaction_def authorizeTarget_eq option.case sum.case if_True if_False
          de_Morgan_disj not_not txn_call_step step simp_thms)
    then have "s1 = s'" and "p = record_response r (\<lambda>u. BTransaction (txn_to_wire u)) res"
      by (auto simp: record_response_def split: sum.splits prod.splits)
    with Some False step show ?thesis by auto
  qed
qed

lemma h_RedeemPoints_cases:
  assumes "h_RedeemPoints sv wo r a s = (p, s')"
  shows "(s' = s \<and> is_error p \<and> rs_Status p \<in> {400, 403}) \<or>
    (\<exists>body res. Decode_NewRedemption (rq_Body r) = Some body \<and> may_act r a
       \<and> svc_call_step (sv_txns sv (wo_call wo 0)) (CallRedeem (redemption_txn body a)) s = (res, s')
       \<and> p = record_response r (\<lambda>u. BRedemption (redemption_to_wire u)) res)"
  using assms
  by (auto simp: h_RedeemPoints_def authorizeTarget_eq writeDomainError_Sentinel
      record_response_def split: option.splits if_splits prod.splits sum.splits)

text \<open>The reading handlers leave the state alone.\<close>

lemma h_GetHealth_state: "snd (h_GetHealth sv wo r s) = s"
  by (simp add: h_GetHealth_def Let_def)

lemma h_GetAccount_state: "snd (h_GetAccount sv wo r a s) = s"
  by (simp add: h_GetAccount_def split: sum.split)

lemma h_GetBalance_state: "snd (h_GetBalance sv wo r a s) = s"
  by (simp add: h_GetBalance_def split: sum.split)

lemma h_ListAccounts_state: "snd (h_ListAccounts sv wo r s) = s"
  by (simp add: h_ListAccounts_def split: sum.split option.split)

lemma h_ListTransactions_state: "snd (h_ListTransactions sv wo r a s) = s"
  by (simp add: h_ListTransactions_def split: sum.split)

lemma h_ListAudit_state: "snd (h_ListAudit sv wo r q s) = s"
  by (simp add: h_ListAudit_def split: sum.split option.split)

lemma h_Login_state: "snd (h_Login sv wo r s) = s"
  by (simp add: h_Login_def split: sum.split option.split)

lemmas read_handlers = h_GetHealth_state h_GetAccount_state h_GetBalance_state h_ListAccounts_state
  h_ListTransactions_state h_ListAudit_state h_Login_state

section \<open>The writing handlers over the storage contract\<close>

definition wired ::
    "('e, 's) server \<Rightarrow> ('e \<Rightarrow> 's txn_repository) \<Rightarrow> ('e \<Rightarrow> 's account_repository) \<Rightarrow>
       ('e \<Rightarrow> 's audit_repository) \<Rightarrow> bool" where
  "wired sv repo arepo aud \<longleftrightarrow> sv_txns sv = repo \<and> sv_accounts sv = arepo \<and> sv_audit sv = aud"

context api_contract
begin

lemma h_CreateTransaction_keeps:
  assumes "wired sv repo arepo aud" and h: "h_CreateTransaction sv wo r s = (p, s')"
  shows "keeps invar held bal cred log (may_act r) s s'"
  using h_CreateTransaction_cases [OF h]
proof (elim disjE exE conjE)
  fix body res
  assume "svc_call_step (sv_txns sv (wo_call wo 0)) (txn_call body) s = (res, s')"
    and "may_act r (nt_AccountId body)"
  then show ?thesis
    using assms(1) call_keeps [THEN keeps_mono] by (auto simp: wired_def)
qed simp

lemma h_RedeemPoints_keeps:
  assumes "wired sv repo arepo aud" and h: "h_RedeemPoints sv wo r a s = (p, s')"
  shows "keeps invar held bal cred log (may_act r) s s'"
  using h_RedeemPoints_cases [OF h]
proof (elim disjE exE conjE)
  fix body res
  assume step: "svc_call_step (sv_txns sv (wo_call wo 0)) (CallRedeem (redemption_txn body a)) s = (res, s')"
    and "may_act r a"
  then show ?thesis
    using assms(1) call_keeps [THEN keeps_mono] by (auto simp: wired_def simp del: svc_call_step.simps)
qed simp

lemma h_CreateAccount_keeps:
  assumes w: "wired sv repo arepo aud" and h: "h_CreateAccount sv wo r s = (p, s')"
  shows "keeps invar held bal cred log P s s'"
proof (cases "s' = s")
  case True
  then show ?thesis by simp
next
  case False
  then obtain bc e a secret ro where "svc_CreateAccount bc (arepo e) a secret s = (ro, s')"
    using h w
    by (auto simp: h_CreateAccount_def wired_def split: option.splits if_splits prod.splits sum.splits)
  then show ?thesis by (rule create_keeps_all)
qed

text \<open>What the status of a recording handler's response says about the ledger.\<close>

lemma record_status:
  assumes inv: "invar s" and step: "svc_call_step (repo e) c s = (res, s')"
    and p: "p = record_response r wire res"
  shows "rs_Status p = 201 \<Longrightarrow> \<exists>u. rs_Body p = wire u \<and> took held bal (svc_txn c) u s s'"
    and "rs_Status p = 200 \<Longrightarrow>
           \<exists>u. rs_Body p = wire u \<and> held s (t_Ref (svc_txn c)) = Some u \<and> same_view held bal s s'"
    and "rs_Status p \<notin> {200, 201} \<Longrightarrow> quiet e \<Longrightarrow> same_view held bal s s'"
proof -
  have err: "rs_Status (record_error r x) \<notin> {200, 201}" for x
    using record_error_status(1) [of r x] by auto
  show "\<exists>u. rs_Body p = wire u \<and> took held bal (svc_txn c) u s s'" if "rs_Status p = 201"
  proof -
    from that err obtain u where res: "res = Inr (u, True)" and body: "rs_Body p = wire u"
      unfolding p record_response_def by (auto split: sum.splits prod.splits if_splits)
    from record_created [OF inv svc_call_step_Inr [OF step [unfolded res]]] body show ?thesis by blast
  qed
  show "\<exists>u. rs_Body p = wire u \<and> held s (t_Ref (svc_txn c)) = Some u \<and> same_view held bal s s'"
    if "rs_Status p = 200"
  proof -
    from that err obtain u where res: "res = Inr (u, False)" and body: "rs_Body p = wire u"
      unfolding p record_response_def by (auto split: sum.splits prod.splits if_splits)
    from record_replay [OF inv svc_call_step_Inr [OF step [unfolded res]]] body show ?thesis by blast
  qed
  show "same_view held bal s s'" if "rs_Status p \<notin> {200, 201}" and "quiet e"
  proof -
    from that(1) obtain x where "res = Inl x"
      unfolding p record_response_def by (auto split: sum.splits prod.splits if_splits)
    with step call_quiet_refused [OF inv that(2)] show ?thesis by blast
  qed
qed

end

end
