(* ===== verification/GoCSV.thy ===== *)
theory GoCSV
  imports GoText
begin

text \<open>
  Go's \<^verbatim>\<open>encoding/csv\<close> reader as the batch handler uses it: comma as separator, no comment
  character, strict quotes, leading space kept, any number of fields per record.

  \<open>csv_lines\<close> is the sequence of lines the reader's \<^verbatim>\<open>readLine\<close> returns (each with its line feed, a
  carriage return before it dropped); \<open>readRecord\<close> takes one record off the remaining lines, \<open>None\<close>
  for a record it refuses (a bare quote, a quote not followed by a separator, an unterminated
  quote); \<open>csv_reads\<close> is what the successive calls of \<^verbatim>\<open>Read\<close> return until \<^verbatim>\<open>io.EOF\<close>. The file is in
  memory or on disk when it is read, so reading it yields no error but the end of the file.

  The round trip: a file in which every field is quoted reads back as the fields that were written.
\<close>

abbreviation quote_char :: char where "quote_char \<equiv> CHR 0x22"
abbreviation LF :: char where "LF \<equiv> CHR 0x0A"
abbreviation CR :: char where "CR \<equiv> CHR 0x0D"

section \<open>Lines\<close>

definition drop_cr :: "string \<Rightarrow> string" where
  "drop_cr l = (if l \<noteq> [] \<and> last l = CR then butlast l else l)"

text \<open>\<open>acc\<close> is the line read so far, in reverse.\<close>

fun csv_lines_from :: "string \<Rightarrow> string \<Rightarrow> string list" where
  "csv_lines_from acc [] = (if acc = [] then [] else [drop_cr (rev acc)])"
| "csv_lines_from acc (c # s) =
     (if c = LF then (drop_cr (rev acc) @ [LF]) # csv_lines_from [] s
      else csv_lines_from (c # acc) s)"

definition csv_lines :: "string \<Rightarrow> string list" where
  "csv_lines s = csv_lines_from [] s"

section \<open>Fields\<close>

datatype field_end =
    QMore string string "string list"     \<comment> \<open>a comma follows: field, rest of the line, later lines\<close>
  | QLast string "string list"            \<comment> \<open>the record ends with the field\<close>
  | QBad "string list"

text \<open>From behind the opening quote; a quoted field may run over several lines.\<close>

fun quoted_field :: "string \<Rightarrow> string \<Rightarrow> string list \<Rightarrow> field_end" where
  "quoted_field acc [] ls = QBad ls"
| "quoted_field acc (c # cs) ls =
     (if c = quote_char
      then (case cs of
              [] \<Rightarrow> QLast acc ls
            | d # ds \<Rightarrow>
                if d = quote_char then quoted_field (acc @ [quote_char]) ds ls
                else if d = CHR '','' then QMore acc ds ls
                else if cs = [LF] then QLast acc ls
                else QBad ls)
      else if cs = []
      then (case ls of [] \<Rightarrow> QBad [] | l # ls' \<Rightarrow> quoted_field (acc @ [c]) l ls')
      else quoted_field (acc @ [c]) cs ls)"

definition drop_nl :: "string \<Rightarrow> string" where
  "drop_nl l = (if l \<noteq> [] \<and> last l = LF then butlast l else l)"

definition left_over :: "string \<Rightarrow> string list \<Rightarrow> nat" where
  "left_over l ls = length l + sum_list (map length ls)"

lemma quoted_field_less:
  "quoted_field acc l ls = QMore f r ls' \<Longrightarrow> left_over r ls' < left_over l ls \<and> length ls' \<le> length ls"
  by (induction acc l ls rule: quoted_field.induct)
    (auto simp: left_over_def split: if_splits list.splits)

lemma quoted_field_lines:
  "quoted_field acc l ls = QLast f ls' \<Longrightarrow> length ls' \<le> length ls"
  "quoted_field acc l ls = QBad ls' \<Longrightarrow> length ls' \<le> length ls"
  by (induction acc l ls rule: quoted_field.induct) (auto split: if_splits list.splits)

definition add_field :: "string \<Rightarrow> string list option \<times> string list \<Rightarrow> string list option \<times> string list" where
  "add_field f res = (map_option (\<lambda>fs. f # fs) (fst res), snd res)"

function csv_fields :: "string \<Rightarrow> string list \<Rightarrow> string list option \<times> string list" where
  "csv_fields line ls =
     (if line = [] \<or> hd line \<noteq> quote_char
      then (let upto = takeWhile (\<lambda>c. c \<noteq> CHR '','') line
            in if upto = line
               then (if quote_char \<in> set (drop_nl line) then (None, ls) else (Some [drop_nl line], ls))
               else if quote_char \<in> set upto then (None, ls)
               else add_field upto (csv_fields (drop (length upto + 1) line) ls))
      else (case quoted_field [] (tl line) ls of
              QBad ls' \<Rightarrow> (None, ls')
            | QLast f ls' \<Rightarrow> (Some [f], ls')
            | QMore f rest ls' \<Rightarrow> add_field f (csv_fields rest ls')))"
  by pat_completeness auto
termination
proof (relation "measure (\<lambda>(line, ls). left_over line ls)", goal_cases)
  case (2 line ls upto)
  then have "line \<noteq> []" by auto
  then show ?case by (simp add: left_over_def)
next
  case (3 line ls f rest ls')
  then show ?case using quoted_field_less [of "[]" "tl line" ls f rest ls'] by (auto simp: left_over_def)
qed simp

declare csv_fields.simps [simp del]

lemma csv_fields_lines: "length (snd (csv_fields line ls)) \<le> length ls"
proof (induction line ls rule: csv_fields.induct)
  case (1 line ls)
  show ?case
  proof (cases "quoted_field [] (tl line) ls")
    case (QMore f rest ls')
    with 1 quoted_field_less [OF QMore] show ?thesis
      by (subst csv_fields.simps) (auto simp: Let_def add_field_def)
  next
    case (QLast f ls')
    with 1 quoted_field_lines(1) [OF QLast] show ?thesis
      by (subst csv_fields.simps) (auto simp: Let_def add_field_def)
  next
    case (QBad ls')
    with 1 quoted_field_lines(2) [OF QBad] show ?thesis
      by (subst csv_fields.simps) (auto simp: Let_def add_field_def)
  qed
qed

section \<open>Records\<close>

text \<open>Empty lines are skipped; the rest of a refused record's line is dropped.\<close>

function csv_records :: "string list \<Rightarrow> string list option list" where
  "csv_records [] = []"
| "csv_records (l # ls) =
     (if l = [] \<or> l = [LF] then csv_records ls
      else fst (csv_fields l ls) # csv_records (snd (csv_fields l ls)))"
  by pat_completeness auto
termination
  by (relation "measure length") (auto simp: csv_fields_lines less_Suc_eq_le)

definition csv_reads :: "string \<Rightarrow> string list option list" where
  "csv_reads s = csv_records (csv_lines s)"

text \<open>Every read takes a line, so a file has at most as many reads as bytes.\<close>

lemma csv_records_length: "length (csv_records ls) \<le> length ls"
proof (induction ls rule: csv_records.induct)
  case (2 l ls)
  then show ?case using csv_fields_lines [of l ls] by auto
qed simp

lemma csv_lines_from_length: "length (csv_lines_from acc s) \<le> length s + (if acc = [] then 0 else 1)"
  by (induction acc s rule: csv_lines_from.induct) (auto split: if_splits)

lemma csv_reads_length: "length (csv_reads s) \<le> length s"
  using csv_records_length [of "csv_lines s"] csv_lines_from_length [of "[]" s]
  by (simp add: csv_reads_def csv_lines_def)

section \<open>A file written with every field quoted\<close>

definition csv_escape :: "string \<Rightarrow> string" where
  "csv_escape f = concat (map (\<lambda>c. if c = quote_char then [quote_char, quote_char] else [c]) f)"

fun csv_row :: "string list \<Rightarrow> string" where
  "csv_row [] = [LF]"
| "csv_row [f] = quote_char # csv_escape f @ [quote_char, LF]"
| "csv_row (f # fs) = quote_char # csv_escape f @ [quote_char, CHR '',''] @ csv_row fs"

definition csv_file :: "string list list \<Rightarrow> string" where
  "csv_file rows = concat (map csv_row rows)"

definition line1 :: "string \<Rightarrow> string" where
  "line1 s = (case csv_lines s of [] \<Rightarrow> [] | l # ls \<Rightarrow> l)"

definition later_lines :: "string \<Rightarrow> string list" where
  "later_lines s = tl (csv_lines s)"

lemma drop_cr_idle: "CR \<notin> set l \<Longrightarrow> drop_cr l = l"
  by (auto simp: drop_cr_def dest: last_in_set)

lemma csv_lines_from_acc:
  "CR \<notin> set acc \<Longrightarrow> CR \<notin> set s \<Longrightarrow>
     csv_lines_from acc s = (case csv_lines s of [] \<Rightarrow> if acc = [] then [] else [rev acc]
                             | l # ls \<Rightarrow> (rev acc @ l) # ls)"
proof (induction s arbitrary: acc)
  case Nil
  then show ?case by (simp add: csv_lines_def drop_cr_idle)
next
  case (Cons c s)
  show ?case
  proof (cases "c = LF")
    case True
    then show ?thesis using Cons.prems(1) by (simp add: csv_lines_def drop_cr_idle)
  next
    case False
    have "csv_lines (c # s) = csv_lines_from [c] s" using False by (simp add: csv_lines_def)
    with Cons.prems Cons.IH [of "c # acc"] Cons.IH [of "[c]"] False show ?thesis
      by (simp split: list.splits)
  qed
qed

lemma csv_lines_LF: "csv_lines (LF # s) = [LF] # csv_lines s"
  by (simp add: csv_lines_def drop_cr_def)

lemma csv_lines_Cons:
  assumes "c \<noteq> LF" and "CR \<notin> set (c # s)"
  shows "csv_lines (c # s) = (c # line1 s) # later_lines s"
proof -
  have "csv_lines (c # s) = csv_lines_from [c] s" using assms(1) by (simp add: csv_lines_def)
  also have "\<dots> = (c # line1 s) # later_lines s"
    using csv_lines_from_acc [of "[c]" s] assms(2) by (auto simp: line1_def later_lines_def split: list.splits)
  finally show ?thesis .
qed

lemma line1_Cons [simp]:
  "line1 (LF # s) = [LF]" "later_lines (LF # s) = csv_lines s"
  "c \<noteq> LF \<Longrightarrow> CR \<notin> set (c # s) \<Longrightarrow> line1 (c # s) = c # line1 s"
  "c \<noteq> LF \<Longrightarrow> CR \<notin> set (c # s) \<Longrightarrow> later_lines (c # s) = later_lines s"
  using csv_lines_Cons [of c s] by (simp_all add: line1_def later_lines_def csv_lines_LF)

lemma csv_lines_line1: "s \<noteq> [] \<Longrightarrow> CR \<notin> set s \<Longrightarrow> csv_lines s = line1 s # later_lines s \<and> line1 s \<noteq> []"
proof (cases s)
  case (Cons c cs)
  assume "CR \<notin> set s"
  then show ?thesis
    using Cons csv_lines_Cons [of c cs] csv_lines_LF [of cs]
    by (cases "c = LF") (simp_all add: line1_def later_lines_def)
qed simp

lemma csv_escape_Cons [simp]:
  "csv_escape [] = []"
  "csv_escape (c # f) = (if c = quote_char then [quote_char, quote_char] else [c]) @ csv_escape f"
  by (simp_all add: csv_escape_def)

lemma csv_escape_set [simp]: "set (csv_escape f) = set f"
  by (induction f) auto

lemma quoted_field_escape:
  "CR \<notin> set f \<Longrightarrow> CR \<notin> set rest \<Longrightarrow>
     (let s = csv_escape f @ quote_char # rest
      in quoted_field acc (line1 s) (later_lines s) =
           quoted_field (acc @ f) (line1 (quote_char # rest)) (later_lines (quote_char # rest)))"
proof (induction f arbitrary: acc)
  case Nil
  then show ?case by simp
next
  case (Cons c f)
  let ?s = "csv_escape f @ quote_char # rest"
  have s: "csv_lines ?s = line1 ?s # later_lines ?s" "line1 ?s \<noteq> []"
    using csv_lines_line1 [of ?s] Cons.prems by auto
  have IH: "quoted_field (acc @ [c]) (line1 ?s) (later_lines ?s) =
      quoted_field (acc @ c # f) (line1 (quote_char # rest)) (later_lines (quote_char # rest))"
    using Cons.IH [of "acc @ [c]"] Cons.prems by (simp add: Let_def)
  consider "c = quote_char" | "c = LF" | "c \<noteq> quote_char" "c \<noteq> LF" by blast
  then show ?case
  proof cases
    case 1
    then show ?thesis using Cons.prems IH by (simp add: Let_def)
  next
    case 2
    then show ?thesis using Cons.prems IH s by (simp add: Let_def)
  next
    case 3
    then show ?thesis using Cons.prems IH s(2) by (simp add: Let_def)
  qed
qed

lemma csv_fields_quoted:
  assumes "CR \<notin> set f" and "CR \<notin> set rest"
  shows "csv_fields (line1 (quote_char # csv_escape f @ quote_char # rest))
            (later_lines (quote_char # csv_escape f @ quote_char # rest)) =
     (case quoted_field f (line1 (quote_char # rest)) (later_lines (quote_char # rest)) of
        QBad ls' \<Rightarrow> (None, ls')
      | QLast f ls' \<Rightarrow> (Some [f], ls')
      | QMore f rest ls' \<Rightarrow> add_field f (csv_fields rest ls'))"
  using quoted_field_escape [OF assms, of "[]"] assms
  by (subst csv_fields.simps) (simp add: Let_def)

lemma CR_csv_row: "\<forall>f \<in> set fs. CR \<notin> set f \<Longrightarrow> CR \<notin> set (csv_row fs)"
  by (induction fs rule: csv_row.induct) auto

lemma csv_fields_row:
  "\<lbrakk>fs \<noteq> []; \<forall>f \<in> set fs. CR \<notin> set f; CR \<notin> set rest\<rbrakk> \<Longrightarrow>
     csv_fields (line1 (csv_row fs @ rest)) (later_lines (csv_row fs @ rest)) = (Some fs, csv_lines rest)"
proof (induction fs rule: csv_row.induct)
  case (2 f)
  then show ?case using csv_fields_quoted [of f "LF # rest"] by simp
next
  case (3 f g fs)
  let ?rest = "csv_row (g # fs) @ rest"
  have cr: "CR \<notin> set ?rest" using CR_csv_row [of "g # fs"] 3 by simp
  then have "csv_fields (line1 (csv_row (f # g # fs) @ rest)) (later_lines (csv_row (f # g # fs) @ rest))
      = add_field f (csv_fields (line1 ?rest) (later_lines ?rest))"
    using 3 csv_fields_quoted [of f "CHR '','' # ?rest"] by simp
  then show ?case using 3 by (simp add: add_field_def)
qed simp

lemma csv_row_hd: "fs \<noteq> [] \<Longrightarrow> \<exists>s. csv_row fs = quote_char # s"
  by (cases fs rule: csv_row.cases) auto

theorem csv_file_roundtrip:
  "\<lbrakk>\<forall>fs \<in> set rows. fs \<noteq> [] \<and> (\<forall>f \<in> set fs. CR \<notin> set f)\<rbrakk>
     \<Longrightarrow> csv_reads (csv_file rows) = map Some rows"
proof (induction rows)
  case Nil
  then show ?case by (simp add: csv_reads_def csv_file_def csv_lines_def)
next
  case (Cons fs rows)
  let ?s = "csv_row fs @ csv_file rows"
  have cr: "CR \<notin> set (csv_file rows)" "CR \<notin> set (csv_row fs)"
    using Cons.prems CR_csv_row by (auto simp: csv_file_def)
  obtain s where s: "csv_row fs = quote_char # s" using csv_row_hd Cons.prems by force
  have "csv_lines ?s = line1 ?s # later_lines ?s" "line1 ?s \<noteq> [LF]"
    using cr csv_lines_line1 [of ?s] by (auto simp: s)
  moreover have "line1 ?s \<noteq> []" using cr by (simp add: s)
  ultimately have "csv_records (csv_lines ?s) = Some fs # csv_records (csv_lines (csv_file rows))"
    using csv_fields_row [of fs "csv_file rows"] Cons.prems cr by simp
  then show ?case using Cons by (simp add: csv_reads_def csv_file_def)
qed

end
