(* ===== verification/Batch.thy ===== *)
theory Batch
  imports Handlers GoCSV
begin

text \<open>
  CSV ingestion (\<^verbatim>\<open>batch.go\<close>): the header check, the parsing of a row, the classification of a
  row's result, and the loop of \<open>POST /batch\<close> over the records of the file.

  The successive results of the CSV reader are the list \<open>csv_reads\<close> of the file's bytes, \<open>Some\<close> the
  fields of a record or \<open>None\<close> for a malformed one; the end of the list is \<^verbatim>\<open>io.EOF\<close>, so the loop is
  structural recursion on it. The form file is in memory or on disk when the loop starts, so it is
  finite and its reads do not fail. Read number \<open>k\<close> of the
  loop makes its ledger call in \<open>wo_call wo (2 * k)\<close> and its audit call in \<open>wo_call wo (2 * k + 1)\<close>.
\<close>

section \<open>Rows\<close>

definition expectedHeader :: "string list" where
  "expectedHeader = [''ref'', ''account_id'', ''kind'', ''points'', ''occurred_at'']"

datatype bucket = bucketAccepted | bucketRejected | bucketDuplicate

definition sameHeader :: "string list \<Rightarrow> string list \<Rightarrow> bool" where
  "sameHeader got want =
     (if length got \<noteq> length want then False
      else list_all (\<lambda>i. TrimSpace (got ! i) = want ! i) [0..<length want])"

definition refOf :: "string list \<Rightarrow> string" where
  "refOf rec = (if length rec > 0 then rec ! 0 else [])"

definition acctOf :: "string list \<Rightarrow> string" where
  "acctOf rec = (if length rec > 1 then rec ! 1 else [])"

definition kindOf :: "string list \<Rightarrow> string" where
  "kindOf rec = (if length rec > 2 then rec ! 2 else [])"

definition parseRow :: "string list \<Rightarrow> goerr + txn" where
  "parseRow rec =
     (if length rec \<noteq> length expectedHeader then Inl (ErrorsNew ''malformed row'')
      else
        case (if rec ! 2 = ''earn'' then Some KindEarn
              else if rec ! 2 = ''spend'' then Some KindSpend else None) of
          None \<Rightarrow> Inl (ErrorsNew ''invalid kind'')
        | Some kind \<Rightarrow>
            (case ParseInt64 (TrimSpace (rec ! 3)) of
               None \<Rightarrow> Inl (ErrorsNew ''invalid points'')
             | Some points \<Rightarrow>
                 if sint points < 1 then Inl (ErrorsNew ''invalid points'')
                 else
                   case ParseRFC3339 (TrimSpace (rec ! 4)) of
                     None \<Rightarrow> Inl (ErrorsNew ''invalid occurred_at'')
                   | Some occurredAt \<Rightarrow>
                       Inr (zero_txn\<lparr>t_Ref := rec ! 0, t_AccountID := rec ! 1, t_Kind := kind,
                                     t_Points := points, t_OccurredAt := occurredAt\<rparr>)))"

definition classifyOutcome :: "bool \<Rightarrow> goerr option \<Rightarrow> string \<times> string \<times> bucket" where
  "classifyOutcome created err =
     (case err of
        None \<Rightarrow> if created then (OutcomeAccepted, ''ok'', bucketAccepted)
                else (OutcomeDuplicate, ''duplicate ref'', bucketDuplicate)
      | Some e \<Rightarrow>
          if errors_is e ErrNotFound then (OutcomeRejected, ''account not found'', bucketRejected)
          else if errors_is e ErrInsufficientBalance
            then (OutcomeRejected, ''insufficient balance'', bucketRejected)
          else (OutcomeRejected, ''rejected'', bucketRejected))"

section \<open>One row\<close>

definition attempt :: "string \<Rightarrow> string \<Rightarrow> string \<Rightarrow> int64 \<Rightarrow> string \<Rightarrow> string \<Rightarrow> audit_entry" where
  "attempt ref account kind points outcome reason =
     \<lparr>ae_ID = 0, ae_Ref = ref, ae_AccountID = account, ae_Kind = kind, ae_Points = points,
      ae_Outcome = outcome, ae_Reason = reason, ae_CreatedAt = zero_time\<rparr>"

text \<open>The result of the append is dropped.\<close>

definition recordAudit :: "('e, 's) server \<Rightarrow> 'e \<Rightarrow> audit_entry \<Rightarrow> 's \<Rightarrow> 's" where
  "recordAudit sv e x s = snd (svc_Record (sv_audit sv e) x s)"

text \<open>The service call of a row; a kind that is neither earn nor spend makes none.\<close>

definition row_call :: "('e, 's) server \<Rightarrow> 'e \<Rightarrow> txn \<Rightarrow> 's \<Rightarrow> (bool \<times> goerr option) \<times> 's" where
  "row_call sv e t s =
     (if t_Kind t = KindEarn then
        (case svc_RecordEarn (sv_txns sv e) t s of
           (Inl err, s') \<Rightarrow> ((False, Some err), s')
         | (Inr (u, created), s') \<Rightarrow> ((created, None), s'))
      else if t_Kind t = KindSpend then
        (case svc_RecordSpend (sv_txns sv e) t s of
           (Inl err, s') \<Rightarrow> ((False, Some err), s')
         | (Inr (u, created), s') \<Rightarrow> ((created, None), s'))
      else ((False, None), s))"

definition tally :: "bucket \<Rightarrow> batch_summary \<Rightarrow> batch_summary" where
  "tally b sm =
     (case b of
        bucketAccepted \<Rightarrow> sm\<lparr>bs_Accepted := bs_Accepted sm + 1\<rparr>
      | bucketDuplicate \<Rightarrow> sm\<lparr>bs_Duplicates := bs_Duplicates sm + 1\<rparr>
      | bucketRejected \<Rightarrow> sm\<lparr>bs_Rejected := bs_Rejected sm + 1\<rparr>)"

definition processRow ::
    "('e, 's) server \<Rightarrow> 'e world \<Rightarrow> nat \<Rightarrow> string list \<Rightarrow> batch_summary \<Rightarrow> 's \<Rightarrow> batch_summary \<times> 's" where
  "processRow sv wo k rec sm s =
     (case parseRow rec of
        Inl perr \<Rightarrow>
          (sm\<lparr>bs_Rejected := bs_Rejected sm + 1\<rparr>,
           recordAudit sv (wo_call wo (2 * k + 1))
             (attempt (refOf rec) (acctOf rec) (kindOf rec) 0 OutcomeRejected (err_text perr)) s)
      | Inr t \<Rightarrow>
          (case row_call sv (wo_call wo (2 * k)) t s of
             ((created, err), s1) \<Rightarrow>
               (case classifyOutcome created err of
                  (outcome, reason, b) \<Rightarrow>
                    (tally b sm,
                     recordAudit sv (wo_call wo (2 * k + 1))
                       (attempt (t_Ref t) (t_AccountID t) (t_Kind t) (t_Points t) outcome reason) s1))))"

section \<open>The loop and the handler\<close>

fun batch_loop ::
    "('e, 's) server \<Rightarrow> 'e world \<Rightarrow> nat \<Rightarrow> string list option list \<Rightarrow> batch_summary \<Rightarrow> 's
       \<Rightarrow> batch_summary \<times> 's" where
  "batch_loop sv wo k [] sm s = (sm, s)"
| "batch_loop sv wo k (None # reads) sm s =
     batch_loop sv wo (Suc k) reads
       (sm\<lparr>bs_Processed := bs_Processed sm + 1, bs_Rejected := bs_Rejected sm + 1\<rparr>)
       (recordAudit sv (wo_call wo (2 * k + 1)) (attempt [] [] [] 0 OutcomeRejected ''malformed row'') s)"
| "batch_loop sv wo k (Some rec # reads) sm s =
     (case processRow sv wo k rec (sm\<lparr>bs_Processed := bs_Processed sm + 1\<rparr>) s of
        (sm', s') \<Rightarrow> batch_loop sv wo (Suc k) reads sm' s')"

definition zero_summary :: batch_summary where
  "zero_summary = \<lparr>bs_Accepted = 0, bs_Duplicates = 0, bs_Processed = 0, bs_Rejected = 0\<rparr>"

definition upload_reads :: "codec \<Rightarrow> request \<Rightarrow> string list option list option" where
  "upload_reads cd r = map_option csv_reads (cd_FormFile cd r)"

definition h_IngestBatch :: "('e, 's) server \<Rightarrow> 'e world \<Rightarrow> request \<Rightarrow> 's \<Rightarrow> response \<times> 's" where
  "h_IngestBatch sv wo r s =
     (case requireAdmin r of
        Some err \<Rightarrow> (writeDomainError r err, s)
      | None \<Rightarrow>
          (case cd_FormFile (sv_codec sv) r of
             None \<Rightarrow> (writeError [] r 400 ''invalid_input'' (''missing multipart '' @ [CHR 0x27] @ ''file''
                       @ [CHR 0x27] @ '' part''), s)
           | Some content \<Rightarrow>
               (case csv_reads content of
                  Some header # rows \<Rightarrow>
                    if sameHeader header expectedHeader
                    then (case batch_loop sv wo 0 rows zero_summary s of
                            (sm, s') \<Rightarrow> (writeJSON [] 200 (BBatchSummary sm), s'))
                    else (writeError [] r 400 ''invalid_input'' (''unreadable or unrecognised CSV header ''
                            @ [CHR 0xE2, CHR 0x80, CHR 0x94] @ '' expected ref,account_id,kind,points,occurred_at''), s)
                | _ \<Rightarrow> (writeError [] r 400 ''invalid_input'' (''unreadable or unrecognised CSV header ''
                            @ [CHR 0xE2, CHR 0x80, CHR 0x94] @ '' expected ref,account_id,kind,points,occurred_at''), s))))"

section \<open>Parsing and classifying\<close>

lemma parseRow_Inr:
  assumes "parseRow rec = Inr t"
  shows "(t_Kind t = KindEarn \<or> t_Kind t = KindSpend) \<and> 0 < sint (t_Points t) \<and> t_Reward t = []
    \<and> length rec = 5 \<and> t_Ref t = rec ! 0 \<and> t_AccountID t = rec ! 1 \<and> t_Kind t = rec ! 2"
  using assms
  by (auto simp: parseRow_def expectedHeader_def zero_txn_def kind_consts split: if_splits option.splits)

text \<open>A transaction written as a row: the fields the batch file documents.\<close>

definition row_of_txn :: "txn \<Rightarrow> string list" where
  "row_of_txn t = [t_Ref t, t_AccountID t, t_Kind t, dec_digits (sint (t_Points t)), Format (t_OccurredAt t)]"

lemma parseRow_row_of_txn:
  assumes "t_Kind t = KindEarn \<or> t_Kind t = KindSpend" and "0 < sint (t_Points t)" and "t_Reward t = []"
    and "tm_nsec (t_OccurredAt t) = 0"
    and y: "fst (days_to_civil (tm_sec (t_OccurredAt t) div 86400 + 719162)) \<in> {0..9999}"
  shows "parseRow (row_of_txn t) = Inr t"
proof -
  have "ParseInt64 (TrimSpace (dec_digits (sint (t_Points t)))) = Some (t_Points t)"
    using assms(2) by (intro ParseInt64_dec_digits) simp
  moreover have "ParseRFC3339 (TrimSpace (Format (t_OccurredAt t))) = Some (t_OccurredAt t)"
    using Format_parses [OF y] TrimSpace_Format [OF y] assms(4) by simp
  moreover have "\<not> sint (t_Points t) < 1" using assms(2) by simp
  ultimately show ?thesis
    using assms(1,3) by (auto simp: parseRow_def row_of_txn_def expectedHeader_def zero_txn_def kind_consts)
qed

lemma row_of_txn_no_CR:
  assumes "t_Kind t = KindEarn \<or> t_Kind t = KindSpend" and "CR \<notin> set (t_Ref t @ t_AccountID t)"
    and "0 < sint (t_Points t)"
  shows "row_of_txn t \<noteq> [] \<and> (\<forall>f \<in> set (row_of_txn t). CR \<notin> set f)"
proof -
  have "CR \<notin> set (Format (t_OccurredAt t))"
    using time_char_Format [of "t_OccurredAt t"] by (auto simp: list_all_iff time_char_def is_digit_def)
  moreover have "CR \<notin> set (dec_digits (sint (t_Points t)))"
    using dec_digits_digits [of "sint (t_Points t)"] assms(3) by (auto simp: list_all_iff is_digit_def)
  ultimately show ?thesis using assms(1,2) by (auto simp: row_of_txn_def kind_consts)
qed

lemma parseRow_Inl:
  assumes "parseRow rec = Inl e"
  shows "err_text e \<in> {''malformed row'', ''invalid kind'', ''invalid points'', ''invalid occurred_at''}"
  using assms by (auto simp: parseRow_def split: if_splits option.splits)

lemma classifyOutcome_valid: "classifyOutcome c e = (o1, reason, b) \<Longrightarrow> valid_outcome o1"
  by (auto simp: classifyOutcome_def valid_outcome_def split: option.splits if_splits)

definition outcome_of :: "bucket \<Rightarrow> string" where
  "outcome_of b = (case b of bucketAccepted \<Rightarrow> OutcomeAccepted | bucketRejected \<Rightarrow> OutcomeRejected
     | bucketDuplicate \<Rightarrow> OutcomeDuplicate)"

lemma classifyOutcome_bucket:
  "classifyOutcome c e = (o1, reason, b) \<Longrightarrow>
     o1 = outcome_of b \<and> (b = bucketAccepted \<longleftrightarrow> e = None \<and> c) \<and> (b = bucketDuplicate \<longleftrightarrow> e = None \<and> \<not> c)"
  by (auto simp: classifyOutcome_def outcome_of_def split: option.splits if_splits)

section \<open>The trace of a batch\<close>

text \<open>
  What one read amounts to: the bucket it falls in, the entry handed to the audit trail, and the
  state after its ledger call. The trace of a batch lists them; the summary is its tally.
\<close>

definition row_step ::
    "('e, 's) server \<Rightarrow> 'e \<Rightarrow> string list option \<Rightarrow> 's \<Rightarrow> (bucket \<times> audit_entry) \<times> 's" where
  "row_step sv e rd s =
     (case rd of
        None \<Rightarrow> ((bucketRejected, attempt [] [] [] 0 OutcomeRejected ''malformed row''), s)
      | Some rec \<Rightarrow>
          (case parseRow rec of
             Inl perr \<Rightarrow>
               ((bucketRejected,
                 attempt (refOf rec) (acctOf rec) (kindOf rec) 0 OutcomeRejected (err_text perr)), s)
           | Inr t \<Rightarrow>
               (case row_call sv e t s of ((created, err), s1) \<Rightarrow>
                  (case classifyOutcome created err of (outcome, reason, b) \<Rightarrow>
                     ((b, attempt (t_Ref t) (t_AccountID t) (t_Kind t) (t_Points t) outcome reason), s1)))))"

fun batch_trace ::
    "('e, 's) server \<Rightarrow> 'e world \<Rightarrow> nat \<Rightarrow> string list option list \<Rightarrow> 's
       \<Rightarrow> (bucket \<times> audit_entry) list \<times> 's" where
  "batch_trace sv wo k [] s = ([], s)"
| "batch_trace sv wo k (rd # reads) s =
     (case row_step sv (wo_call wo (2 * k)) rd s of (bx, s1) \<Rightarrow>
        (case batch_trace sv wo (Suc k) reads (recordAudit sv (wo_call wo (2 * k + 1)) (snd bx) s1) of
           (tr, s') \<Rightarrow> (bx # tr, s')))"

definition count_row :: "bucket \<Rightarrow> batch_summary \<Rightarrow> batch_summary" where
  "count_row b sm = tally b (sm\<lparr>bs_Processed := bs_Processed sm + 1\<rparr>)"

lemma batch_loop_trace:
  "batch_loop sv wo k reads sm s =
     (case batch_trace sv wo k reads s of (tr, s') \<Rightarrow> (foldl (\<lambda>acc bx. count_row (fst bx) acc) sm tr, s'))"
proof (induction reads arbitrary: k sm s)
  case Nil
  then show ?case by simp
next
  case (Cons rd reads)
  show ?case
  proof (cases rd)
    case None
    then show ?thesis
      by (simp add: Cons.IH row_step_def count_row_def tally_def split: prod.split)
  next
    case (Some rec)
    then show ?thesis
      by (cases "parseRow rec")
        (simp_all add: Cons.IH row_step_def processRow_def count_row_def tally_def
          split: prod.split)
  qed
qed

definition in_bucket :: "bucket \<Rightarrow> (bucket \<times> audit_entry) list \<Rightarrow> nat" where
  "in_bucket b tr = length (filter (\<lambda>bx. fst bx = b) tr)"

lemma in_bucket_Cons:
  "in_bucket b (bx # tr) = (if fst bx = b then 1 else 0) + in_bucket b tr"
  by (simp add: in_bucket_def)

lemma count_row_simps:
  "bs_Accepted (count_row b sm) = bs_Accepted sm + (if b = bucketAccepted then 1 else 0)"
  "bs_Duplicates (count_row b sm) = bs_Duplicates sm + (if b = bucketDuplicate then 1 else 0)"
  "bs_Processed (count_row b sm) = bs_Processed sm + 1"
  "bs_Rejected (count_row b sm) = bs_Rejected sm + (if b = bucketRejected then 1 else 0)"
  by (cases b; simp add: count_row_def tally_def)+

lemma count_rows:
  "foldl (\<lambda>acc bx. count_row (fst bx) acc) sm tr =
     \<lparr>bs_Accepted = bs_Accepted sm + of_nat (in_bucket bucketAccepted tr),
      bs_Duplicates = bs_Duplicates sm + of_nat (in_bucket bucketDuplicate tr),
      bs_Processed = bs_Processed sm + of_nat (length tr),
      bs_Rejected = bs_Rejected sm + of_nat (in_bucket bucketRejected tr)\<rparr>"
proof (induction tr arbitrary: sm)
  case Nil
  then show ?case by (simp add: in_bucket_def)
next
  case (Cons bx tr)
  show ?case by (simp add: Cons.IH count_row_simps in_bucket_Cons)
qed

lemma in_bucket_total:
  "in_bucket bucketAccepted tr + in_bucket bucketRejected tr + in_bucket bucketDuplicate tr = length tr"
proof (induction tr)
  case Nil
  then show ?case by (simp add: in_bucket_def)
next
  case (Cons bx tr)
  then show ?case by (cases "fst bx") (simp_all add: in_bucket_Cons)
qed

lemma length_batch_trace: "batch_trace sv wo k reads s = (tr, s') \<Longrightarrow> length tr = length reads"
  by (induction reads arbitrary: k s tr) (auto split: prod.splits)

lemma row_call_step:
  assumes "row_call sv e t s = ((created, err), s1)" and "t_Kind t = KindEarn \<or> t_Kind t = KindSpend"
  shows "\<exists>c res. svc_call_step (sv_txns sv e) c s = (res, s1) \<and> svc_txn c = t
    \<and> (case res of Inl x \<Rightarrow> err = Some x \<and> \<not> created | Inr (u, b) \<Rightarrow> err = None \<and> created = b)"
proof (cases "t_Kind t = KindEarn")
  case True
  then have "svc_txn (CallEarn t) = t" by simp
  moreover have "\<exists>res. svc_call_step (sv_txns sv e) (CallEarn t) s = (res, s1)
      \<and> (case res of Inl x \<Rightarrow> err = Some x \<and> \<not> created | Inr (u, b) \<Rightarrow> err = None \<and> created = b)"
    using assms(1) True by (auto simp: row_call_def split: sum.splits prod.splits)
  ultimately show ?thesis by blast
next
  case False
  with assms(2) have spend: "t_Kind t = KindSpend" by simp
  then have "svc_txn (CallSpend t) = t" by simp
  moreover have "\<exists>res. svc_call_step (sv_txns sv e) (CallSpend t) s = (res, s1)
      \<and> (case res of Inl x \<Rightarrow> err = Some x \<and> \<not> created | Inr (u, b) \<Rightarrow> err = None \<and> created = b)"
    using assms(1) False spend by (auto simp: row_call_def split: sum.splits prod.splits)
  ultimately show ?thesis by blast
qed

lemma attempt_simps [simp]:
  "ae_Ref (attempt k a kd p o1 rs) = k" "ae_AccountID (attempt k a kd p o1 rs) = a"
  "ae_Kind (attempt k a kd p o1 rs) = kd" "ae_Points (attempt k a kd p o1 rs) = p"
  "ae_Outcome (attempt k a kd p o1 rs) = o1" "ae_Reason (attempt k a kd p o1 rs) = rs"
  by (simp_all add: attempt_def)

text \<open>A row that is refused before its ledger call, or one that makes it.\<close>

lemma row_step_cases:
  assumes "row_step sv e rd s = ((b, x), s1)"
  shows "ae_Outcome x = outcome_of b \<and>
    ((s1 = s \<and> b = bucketRejected) \<or>
     (\<exists>rec c res. rd = Some rec \<and> parseRow rec = Inr (svc_txn c)
        \<and> svc_call_step (sv_txns sv e) c s = (res, s1)
        \<and> (b = bucketAccepted \<longleftrightarrow> (\<exists>u. res = Inr (u, True))) \<and> (b = bucketDuplicate \<longleftrightarrow> (\<exists>u. res = Inr (u, False)))
        \<and> ae_Ref x = t_Ref (svc_txn c) \<and> ae_AccountID x = t_AccountID (svc_txn c)
        \<and> ae_Kind x = t_Kind (svc_txn c) \<and> ae_Points x = t_Points (svc_txn c)))"
proof (cases "rd = None \<or> (\<exists>perr. parseRow (the rd) = Inl perr)")
  case True
  with assms show ?thesis
    by (cases rd) (auto simp: row_step_def outcome_of_def)
next
  case False
  then obtain rec t where rd: "rd = Some rec" and t: "parseRow rec = Inr t"
    by (cases rd; cases "parseRow (the rd)") auto
  obtain created err s2 where call: "row_call sv e t s = ((created, err), s2)"
    by (cases "row_call sv e t s") auto
  obtain o1 reason b' where cl: "classifyOutcome created err = (o1, reason, b')"
    by (cases "classifyOutcome created err") auto
  have eqs: "s1 = s2" "b = b'" "x = attempt (t_Ref t) (t_AccountID t) (t_Kind t) (t_Points t) o1 reason"
    using assms by (simp_all add: row_step_def rd t call cl)
  obtain c res where c: "svc_call_step (sv_txns sv e) c s = (res, s1)" "svc_txn c = t"
    and res: "case res of Inl y \<Rightarrow> err = Some y \<and> \<not> created | Inr (u, b) \<Rightarrow> err = None \<and> created = b"
    using row_call_step [OF call] parseRow_Inr [OF t] eqs(1) by blast
  have "(b = bucketAccepted \<longleftrightarrow> (\<exists>u. res = Inr (u, True)))"
    and "(b = bucketDuplicate \<longleftrightarrow> (\<exists>u. res = Inr (u, False)))"
    using res classifyOutcome_bucket [OF cl] eqs(2) by (auto split: sum.splits)
  with c rd t eqs classifyOutcome_bucket [OF cl] show ?thesis by auto
qed

lemma batch_trace_outcomes:
  "batch_trace sv wo k reads s = (tr, s') \<Longrightarrow> \<forall>(b, x) \<in> set tr. ae_Outcome x = outcome_of b"
proof (induction reads arbitrary: k s tr)
  case Nil
  then show ?case by simp
next
  case (Cons rd reads)
  obtain b x s1 where step: "row_step sv (wo_call wo (2 * k)) rd s = ((b, x), s1)"
    by (metis prod.exhaust)
  obtain tr' where "tr = (b, x) # tr'"
    and "batch_trace sv wo (Suc k) reads (recordAudit sv (wo_call wo (2 * k + 1)) x s1) = (tr', s')"
    using Cons.prems step by (auto split: prod.splits)
  with Cons.IH row_step_cases [OF step] show ?case by auto
qed

lemma h_IngestBatch_cases:
  assumes "h_IngestBatch sv wo r s = (p, s')"
  shows "(s' = s \<and> is_error p \<and> rs_Status p \<in> {400, 403}) \<or>
    (\<exists>header rows tr. is_admin r \<and> upload_reads (sv_codec sv) r = Some (Some header # rows)
       \<and> sameHeader header expectedHeader \<and> batch_trace sv wo 0 rows s = (tr, s')
       \<and> p = writeJSON [] 200 (BBatchSummary (foldl (\<lambda>acc bx. count_row (fst bx) acc) zero_summary tr)))"
  using assms
  by (auto simp: h_IngestBatch_def upload_reads_def requireAdmin_eq writeDomainError_Sentinel batch_loop_trace
      split: option.splits list.splits if_splits prod.splits)

section \<open>Batches over the storage contract\<close>

definition entry_txn :: "audit_entry \<Rightarrow> txn \<Rightarrow> bool" where
  "entry_txn x t \<longleftrightarrow> ae_Ref x = t_Ref t \<and> ae_AccountID x = t_AccountID t \<and> ae_Kind x = t_Kind t
     \<and> ae_Points x = t_Points t"

definition row_ref :: "string list option \<Rightarrow> string option" where
  "row_ref rd =
     (case rd of None \<Rightarrow> None
      | Some rec \<Rightarrow> (case parseRow rec of Inl e \<Rightarrow> None | Inr t \<Rightarrow> Some (t_Ref t)))"

definition accepted_points :: "string \<Rightarrow> bucket \<times> audit_entry \<Rightarrow> int" where
  "accepted_points a bx =
     (if fst bx = bucketAccepted \<and> ae_AccountID (snd bx) = a
      then signed_points (ae_Kind (snd bx)) (ae_Points (snd bx)) else 0)"

context api_contract
begin

lemma row_step_created:
  assumes w: "wired sv repo arepo aud" and inv: "invar s"
    and step: "row_step sv e rd s = ((bucketAccepted, x), s1)"
  shows "\<exists>t u. took held bal t u s s1 \<and> entry_txn x t \<and> row_ref rd = Some (t_Ref t)"
proof -
  obtain rec c u where rec: "rd = Some rec" "parseRow rec = Inr (svc_txn c)"
    and call: "svc_call_step (repo e) c s = (Inr (u, True), s1)" and "entry_txn x (svc_txn c)"
    using row_step_cases [OF step] w by (auto simp: wired_def entry_txn_def)
  from record_created [OF inv svc_call_step_Inr [OF call]] this show ?thesis
    by (auto simp: row_ref_def)
qed

lemma row_step_replayed:
  assumes w: "wired sv repo arepo aud" and inv: "invar s"
    and step: "row_step sv e rd s = ((bucketDuplicate, x), s1)"
  shows "\<exists>k. row_ref rd = Some k \<and> held s k \<noteq> None \<and> same_view held bal s s1"
proof -
  obtain rec c u where rec: "rd = Some rec" "parseRow rec = Inr (svc_txn c)"
    and call: "svc_call_step (repo e) c s = (Inr (u, False), s1)"
    using row_step_cases [OF step] w by (auto simp: wired_def)
  from record_replay [OF inv svc_call_step_Inr [OF call]] rec show ?thesis
    by (auto simp: row_ref_def)
qed

lemma row_step_rejected:
  assumes w: "wired sv repo arepo aud" and inv: "invar s"
    and step: "row_step sv e rd s = ((bucketRejected, x), s1)"
  shows "same_view held bal s s1 \<or>
    (\<not> quiet e \<and> (\<exists>t u. took held bal t u s s1 \<and> row_ref rd = Some (t_Ref t)))"
proof (cases "s1 = s")
  case True
  then show ?thesis by (simp add: same_view_def)
next
  case False
  then obtain rec c err where rec: "rd = Some rec" "parseRow rec = Inr (svc_txn c)"
    and call: "svc_call_step (repo e) c s = (Inl err, s1)"
    using row_step_cases [OF step] w
    by (auto simp: wired_def) (metis sum.exhaust surj_pair)
  have "repo_RecordTransaction (repo e) (svc_txn c) s = (Inl err, s1)"
    using svc_call_step_cases [of "repo e" c s] call False by auto
  from record_refused [OF inv this] rec show ?thesis by (auto simp: row_ref_def)
qed

lemma row_step_keeps:
  assumes w: "wired sv repo arepo aud" and step: "row_step sv e rd s = (bx, s1)"
  shows "keeps invar held bal cred log (\<lambda>a. True) s s1"
proof -
  obtain b x where bx: "bx = (b, x)" by (cases bx) auto
  from row_step_cases [OF step [unfolded bx]] show ?thesis
  proof (elim conjE disjE exE)
    fix rec c res
    assume "svc_call_step (sv_txns sv e) c s = (res, s1)"
    then show ?thesis using w call_keeps [THEN keeps_mono] by (auto simp: wired_def)
  qed simp
qed

lemma recordAudit_keeps:
  "wired sv repo arepo aud \<Longrightarrow> keeps invar held bal cred log P s (recordAudit sv e x s)"
  unfolding recordAudit_def wired_def
  by (metis record_audit_keeps prod.collapse)

lemma batch_trace_keeps:
  "\<lbrakk>wired sv repo arepo aud; batch_trace sv wo k reads s = (tr, s')\<rbrakk>
     \<Longrightarrow> keeps invar held bal cred log (\<lambda>a. True) s s'"
proof (induction reads arbitrary: k s tr)
  case Nil
  then show ?case by simp
next
  case (Cons rd reads)
  obtain bx s1 where step: "row_step sv (wo_call wo (2 * k)) rd s = (bx, s1)" by fastforce
  let ?s2 = "recordAudit sv (wo_call wo (2 * k + 1)) (snd bx) s1"
  obtain tr' where "batch_trace sv wo (Suc k) reads ?s2 = (tr', s')"
    using Cons.prems(2) step by (auto split: prod.splits)
  then have "keeps invar held bal cred log (\<lambda>a. True) ?s2 s'"
    using Cons.IH Cons.prems(1) by blast
  with keeps_trans [OF row_step_keeps [OF Cons.prems(1) step] recordAudit_keeps [OF Cons.prems(1)]]
  show ?case by (rule keeps_trans)
qed

lemma recordAudit_view:
  assumes w: "wired sv repo arepo aud" and inv: "invar s"
  shows "invar (recordAudit sv e x s) \<and> same_view held bal s (recordAudit sv e x s)"
proof (cases "valid_outcome (ae_Outcome x)")
  case False
  with inv show ?thesis by (simp add: recordAudit_def svc_Record_def same_view_def)
next
  case True
  obtain r s' where "repo_AppendAudit (aud e) x s = (r, s')" by fastforce
  with True w invar_append [OF inv] append_view [OF inv] show ?thesis
    by (fastforce simp: recordAudit_def svc_Record_def wired_def)
qed

text \<open>The state between two rows, and what one row does to the ledger when no failed call landed.\<close>

lemma batch_row:
  assumes "wired sv repo arepo aud" and "invar s" and "batch_trace sv wo k (rd # reads) s = (tr, s')"
  obtains bx s1 s2 tr' where "row_step sv (wo_call wo (2 * k)) rd s = (bx, s1)"
    and "invar s1" and "invar s2" and "same_view held bal s1 s2" and "tr = bx # tr'"
    and "batch_trace sv wo (Suc k) reads s2 = (tr', s')"
proof -
  obtain bx s1 where step: "row_step sv (wo_call wo (2 * k)) rd s = (bx, s1)" by fastforce
  let ?s2 = "recordAudit sv (wo_call wo (2 * k + 1)) (snd bx) s1"
  obtain tr' where "tr = bx # tr'" "batch_trace sv wo (Suc k) reads ?s2 = (tr', s')"
    using assms(3) step by (auto split: prod.splits)
  moreover have inv: "invar s1"
    using row_step_keeps [OF assms(1) step] assms(2) by (simp add: keeps_def)
  ultimately show thesis using that [OF step inv] recordAudit_view [OF assms(1) inv] by blast
qed

lemma row_step_effect:
  assumes w: "wired sv repo arepo aud" and inv: "invar s" and q: "quiet e"
    and step: "row_step sv e rd s = (bx, s1)"
  shows "bal s1 a = bal s a + accepted_points a bx"
proof -
  obtain b x where bx: "bx = (b, x)" by (cases bx) auto
  show ?thesis
  proof (cases b)
    case bucketAccepted
    with step bx row_step_created [OF w inv] obtain t u
      where "took held bal t u s s1" "entry_txn x t" by blast
    then show ?thesis by (auto simp: took_def entry_txn_def accepted_points_def bx bucketAccepted)
  next
    case bucketRejected
    with step bx q row_step_rejected [OF w inv] have "same_view held bal s s1" by blast
    then show ?thesis by (simp add: same_view_def accepted_points_def bx bucketRejected)
  next
    case bucketDuplicate
    with step bx row_step_replayed [OF w inv] have "same_view held bal s s1" by blast
    then show ?thesis by (simp add: same_view_def accepted_points_def bx bucketDuplicate)
  qed
qed

lemma batch_trace_effect:
  "\<lbrakk>wired sv repo arepo aud; \<forall>n. quiet (wo_call wo n); invar s; batch_trace sv wo k reads s = (tr, s')\<rbrakk>
     \<Longrightarrow> bal s' a = bal s a + sum_list (map (accepted_points a) tr)"
proof (induction reads arbitrary: k s tr)
  case Nil
  then show ?case by simp
next
  case (Cons rd reads)
  obtain bx s1 s2 tr' where step: "row_step sv (wo_call wo (2 * k)) rd s = (bx, s1)"
    and inv: "invar s2" and same: "same_view held bal s1 s2" and tr: "tr = bx # tr'"
    and rest: "batch_trace sv wo (Suc k) reads s2 = (tr', s')"
    using batch_row [OF Cons.prems(1,3,4)] by metis
  have "bal s1 a = bal s a + accepted_points a bx"
    using row_step_effect [OF Cons.prems(1,3) _ step] Cons.prems(2) by blast
  moreover have "bal s' a = bal s2 a + sum_list (map (accepted_points a) tr')"
    using Cons.IH [OF Cons.prems(1,2) inv rest] .
  ultimately show ?case using same by (simp add: tr same_view_def)
qed

text \<open>A row that was not rejected leaves its reference held, and it stays held.\<close>

lemma row_step_holds:
  assumes w: "wired sv repo arepo aud" and inv: "invar s"
    and step: "row_step sv e rd s = (bx, s1)" and "fst bx \<noteq> bucketRejected"
  shows "\<exists>k. row_ref rd = Some k \<and> held s1 k \<noteq> None"
proof -
  obtain b x where bx: "bx = (b, x)" by (cases bx) auto
  show ?thesis
  proof (cases b)
    case bucketAccepted
    with step bx row_step_created [OF w inv] obtain t u
      where "took held bal t u s s1" "row_ref rd = Some (t_Ref t)" by blast
    then show ?thesis by (auto simp: took_def)
  next
    case bucketRejected
    with assms(4) bx show ?thesis by simp
  next
    case bucketDuplicate
    with step bx row_step_replayed [OF w inv] show ?thesis by (metis same_view_def)
  qed
qed

lemma batch_trace_holds:
  "\<lbrakk>wired sv repo arepo aud; invar s; batch_trace sv wo k reads s = (tr, s');
    in_bucket bucketRejected tr = 0; rd \<in> set reads\<rbrakk>
     \<Longrightarrow> \<exists>ref. row_ref rd = Some ref \<and> held s' ref \<noteq> None"
proof (induction reads arbitrary: k s tr)
  case Nil
  then show ?case by simp
next
  case (Cons rd1 reads)
  obtain bx s1 s2 tr' where step: "row_step sv (wo_call wo (2 * k)) rd1 s = (bx, s1)"
    and inv: "invar s2" and same: "same_view held bal s1 s2" and tr: "tr = bx # tr'"
    and rest: "batch_trace sv wo (Suc k) reads s2 = (tr', s')"
    using batch_row [OF Cons.prems(1-3)] by metis
  have ok: "fst bx \<noteq> bucketRejected" "in_bucket bucketRejected tr' = 0"
    using Cons.prems(4) by (simp_all add: tr in_bucket_Cons split: if_splits)
  show ?case
  proof (cases "rd = rd1")
    case True
    obtain ref where ref: "row_ref rd1 = Some ref" "held s1 ref \<noteq> None"
      using row_step_holds [OF Cons.prems(1,2) step ok(1)] by blast
    then obtain u where "held s2 ref = Some u" using same by (auto simp: same_view_def)
    then have "held s' ref = Some u"
      using batch_trace_keeps [OF Cons.prems(1) rest] inv by (simp add: keeps_def evolves_def)
    with True ref show ?thesis by simp
  next
    case False
    with Cons.IH [OF Cons.prems(1) inv rest ok(2)] Cons.prems(5) show ?thesis by simp
  qed
qed

text \<open>Rows whose references are all held create nothing, whatever else happens.\<close>

lemma batch_trace_again:
  "\<lbrakk>wired sv repo arepo aud; invar s; batch_trace sv wo k reads s = (tr, s');
    \<forall>rd \<in> set reads. \<forall>ref. row_ref rd = Some ref \<longrightarrow> held s ref \<noteq> None\<rbrakk>
     \<Longrightarrow> in_bucket bucketAccepted tr = 0 \<and> same_view held bal s s'"
proof (induction reads arbitrary: k s tr)
  case Nil
  then show ?case by (simp add: in_bucket_def same_view_def)
next
  case (Cons rd reads)
  obtain bx s1 s2 tr' where step: "row_step sv (wo_call wo (2 * k)) rd s = (bx, s1)"
    and inv: "invar s2" and same: "same_view held bal s1 s2" and tr: "tr = bx # tr'"
    and rest: "batch_trace sv wo (Suc k) reads s2 = (tr', s')"
    using batch_row [OF Cons.prems(1-3)] by metis
  obtain b x where bx: "bx = (b, x)" by (cases bx) auto
  have known: "held s ref \<noteq> None" if "row_ref rd = Some ref" for ref
    using Cons.prems(4) that by simp
  have not_took: "\<not> took held bal t u s s1" if "row_ref rd = Some (t_Ref t)" for t u
    using known [OF that] by (simp add: took_def)
  have first: "b \<noteq> bucketAccepted \<and> same_view held bal s s1"
  proof (cases b)
    case bucketAccepted
    with step bx row_step_created [OF Cons.prems(1,2)] not_took show ?thesis by blast
  next
    case bucketRejected
    with step bx row_step_rejected [OF Cons.prems(1,2)] not_took show ?thesis by blast
  next
    case bucketDuplicate
    with step bx row_step_replayed [OF Cons.prems(1,2)] show ?thesis by blast
  qed
  then have s2: "same_view held bal s s2" using same by (simp add: same_view_def)
  then have "\<forall>rd \<in> set reads. \<forall>ref. row_ref rd = Some ref \<longrightarrow> held s2 ref \<noteq> None"
    using Cons.prems(4) by (simp add: same_view_def)
  with Cons.IH [OF Cons.prems(1) inv rest] first s2 show ?case
    by (simp add: tr bx in_bucket_Cons same_view_def)
qed

text \<open>The handler.\<close>

lemma h_IngestBatch_keeps:
  assumes w: "wired sv repo arepo aud" and h: "h_IngestBatch sv wo r s = (p, s')"
  shows "keeps invar held bal cred log (may_act r) s s'"
  using h_IngestBatch_cases [OF h]
proof (elim disjE exE conjE)
  fix header rows tr
  assume "is_admin r" and "batch_trace sv wo 0 rows s = (tr, s')"
  then show ?thesis
    using batch_trace_keeps [OF w, THEN keeps_mono] by (auto simp: may_act_def is_admin_def)
qed simp

end

end
