(* ===== verification/Router.thy ===== *)
theory Router
  imports Batch
begin

text \<open>
  The edge: the route table and the parameter-binding wrappers of
  \<^verbatim>\<open>gen/types_server.gen.go\<close>, the middleware chain, \<^verbatim>\<open>validate.go\<close>, \<^verbatim>\<open>infra.go\<close> and
  \<^verbatim>\<open>NewRouter\<close> (\<^verbatim>\<open>httpapi.go\<close>).

  The record \<open>edge\<close> holds the third-party functions the edge calls: chi's request id and route
  matching, the two parameter binders of the oapi-codegen runtime, and kin-openapi (loading and
  checking the contract, and its verdict on a request, which may be a panic). What the code relies
  on of chi is \<open>chi_ok\<close>. The bearer scopes a wrapper puts into the request context are read by
  nothing and are left out.
\<close>

section \<open>Third-party functions of the edge\<close>

datatype target =
    OpListAccounts | OpCreateAccount | OpGetAccount | OpGetBalance | OpRedeemPoints
  | OpListTransactions | OpListAudit | OpIngestBatch | OpGetHealth | OpLogin | OpCreateTransaction
  | ServeSpec | ServeSwagger

type_synonym route = "string \<times> string \<times> target"

text \<open>A match carries the raw \<open>account_id\<close> segment; a wrong method the headers chi has set.\<close>

datatype chi_match = NoRoute | WrongMethod headers | Routed target string

datatype verdict = Accepts | Refuses | Panics string

record edge =
  eg_RequestID :: "request \<Rightarrow> string"
  eg_Route :: "route list \<Rightarrow> request \<Rightarrow> chi_match"
  eg_BindPath :: "string \<Rightarrow> goerr + string"
  eg_BindQuery :: "string \<Rightarrow> goerr + string option"
  eg_LoadSpec :: "string \<Rightarrow> goerr option"
  eg_CheckSpec :: "string \<Rightarrow> goerr option"
  eg_Verdict :: "string \<Rightarrow> request \<Rightarrow> verdict"

section \<open>Middlewares\<close>

type_synonym 's middleware = "'s http_handler \<Rightarrow> 's http_handler"

text \<open>The wrapper's loop: each middleware wraps the handler built so far, so the last is outermost.\<close>

definition with_middlewares :: "'s middleware list \<Rightarrow> 's http_handler \<Rightarrow> 's http_handler" where
  "with_middlewares mws h = foldl (\<lambda>handler middleware. middleware handler) h mws"

definition publicPaths :: "string list" where
  "publicPaths = [''/healthz'', ''/login'', ''/openapi.yaml'', ''/swagger'']"

definition auth_middleware :: "jwt_lib \<Rightarrow> gotime \<Rightarrow> string \<Rightarrow> 's middleware" where
  "auth_middleware j now secret next1 r s =
     (if rq_Path r \<in> set publicPaths then next1 r s
      else Authenticator j now secret next1 r s)"

definition validate_middleware :: "edge \<Rightarrow> string \<Rightarrow> 's middleware" where
  "validate_middleware eg spec next1 r s =
     (case eg_Verdict eg spec r of
        Accepts \<Rightarrow> next1 r s
      | Refuses \<Rightarrow> (Inr (writeError [] r 400 ''invalid_input''
                         ''request does not satisfy the API contract''), s)
      | Panics m \<Rightarrow> (Inl m, s))"

text \<open>\<open>Inl\<close> is the error that makes the router panic at startup.\<close>

definition newValidator :: "edge \<Rightarrow> string \<Rightarrow> goerr + 's middleware" where
  "newValidator eg spec =
     (case eg_LoadSpec eg spec of
        Some err \<Rightarrow> Inl err
      | None \<Rightarrow> (case eg_CheckSpec eg spec of
                   Some err \<Rightarrow> Inl err
                 | None \<Rightarrow> Inr (validate_middleware eg spec)))"

section \<open>Infrastructure routes (infra.go)\<close>

definition serveSpec :: "string \<Rightarrow> request \<Rightarrow> response" where
  "serveSpec specYAML r =
     \<lparr>rs_Status = 200, rs_Header = [(''Content-Type'', ''application/yaml'')], rs_Body = BBytes specYAML\<rparr>"

definition lines_of :: "string list \<Rightarrow> string" where
  "lines_of ls = concat (map (\<lambda>l. l @ [CHR 0x0A]) (butlast ls)) @ last ls"

definition swaggerHTML :: string where
  \<open>swaggerHTML = lines_of
    [''<!DOCTYPE html>'',
     ''<html lang="en">'',
     ''<head>'',
     ''  <meta charset="UTF-8">'',
     ''  <title>gowallet API '' @ [CHR 0xE2, CHR 0x80, CHR 0x94] @ '' Swagger UI</title>'',
     ''  <link rel="stylesheet" href="https://unpkg.com/swagger-ui-dist@5/swagger-ui.css">'',
     ''</head>'',
     ''<body>'',
     ''  <div id="swagger-ui"></div>'',
     ''  <script src="https://unpkg.com/swagger-ui-dist@5/swagger-ui-bundle.js"></script>'',
     ''  <script>'',
     ''    window.ui = SwaggerUIBundle({ url: '' @ [CHR 0x27] @ ''/openapi.yaml'' @ [CHR 0x27]
       @ '', dom_id: '' @ [CHR 0x27] @ ''#swagger-ui'' @ [CHR 0x27] @ '' });'',
     ''  </script>'',
     ''</body>'',
     ''</html>'']\<close>

definition serveSwagger :: "request \<Rightarrow> response" where
  "serveSwagger r =
     \<lparr>rs_Status = 200, rs_Header = [(''Content-Type'', ''text/html; charset=utf-8'')],
      rs_Body = BBytes swaggerHTML\<rparr>"

section \<open>The wrappers and the route table\<close>

definition handled :: "(request \<Rightarrow> 's \<Rightarrow> response \<times> 's) \<Rightarrow> 's http_handler" where
  "handled h r s = (case h r s of (p, s') \<Rightarrow> (Inr p, s'))"

definition param_error :: "request \<Rightarrow> response" where
  "param_error r = writeError [] r 400 ''invalid_input'' ''malformed path parameter''"

definition siw_path ::
    "edge \<Rightarrow> 's middleware list \<Rightarrow> (request \<Rightarrow> string \<Rightarrow> 's \<Rightarrow> response \<times> 's) \<Rightarrow> string \<Rightarrow> 's http_handler" where
  "siw_path eg mws h raw r s =
     (case eg_BindPath eg raw of
        Inl err \<Rightarrow> (Inr (param_error r), s)
      | Inr accountId \<Rightarrow> with_middlewares mws (handled (\<lambda>r. h r accountId)) r s)"

definition siw_ListAccounts where
  "siw_ListAccounts sv wo mws = with_middlewares mws (handled (h_ListAccounts sv wo))"

definition siw_CreateAccount where
  "siw_CreateAccount sv wo mws = with_middlewares mws (handled (h_CreateAccount sv wo))"

definition siw_GetAccount where
  "siw_GetAccount sv wo eg mws = siw_path eg mws (h_GetAccount sv wo)"

definition siw_GetBalance where
  "siw_GetBalance sv wo eg mws = siw_path eg mws (h_GetBalance sv wo)"

definition siw_RedeemPoints where
  "siw_RedeemPoints sv wo eg mws = siw_path eg mws (h_RedeemPoints sv wo)"

definition siw_ListTransactions where
  "siw_ListTransactions sv wo eg mws = siw_path eg mws (h_ListTransactions sv wo)"

definition siw_ListAudit ::
    "('e, 's) server \<Rightarrow> 'e world \<Rightarrow> edge \<Rightarrow> 's middleware list \<Rightarrow> 's http_handler" where
  "siw_ListAudit sv wo eg mws r s =
     (case eg_BindQuery eg (rq_Query r) of
        Inl err \<Rightarrow> (Inr (param_error r), s)
      | Inr accountId \<Rightarrow> with_middlewares mws (handled (\<lambda>r. h_ListAudit sv wo r accountId)) r s)"

definition siw_IngestBatch where
  "siw_IngestBatch sv wo mws = with_middlewares mws (handled (h_IngestBatch sv wo))"

definition siw_GetHealth where
  "siw_GetHealth sv wo mws = with_middlewares mws (handled (h_GetHealth sv wo))"

definition siw_Login where
  "siw_Login sv wo mws = with_middlewares mws (handled (h_Login sv wo))"

definition siw_CreateTransaction where
  "siw_CreateTransaction sv wo mws = with_middlewares mws (handled (h_CreateTransaction sv wo))"

definition HandlerWithOptions :: "string \<Rightarrow> route list" where
  "HandlerWithOptions baseURL =
     [(''GET'', baseURL @ ''/accounts'', OpListAccounts),
      (''POST'', baseURL @ ''/accounts'', OpCreateAccount),
      (''GET'', baseURL @ ''/accounts/{account_id}'', OpGetAccount),
      (''GET'', baseURL @ ''/accounts/{account_id}/balance'', OpGetBalance),
      (''POST'', baseURL @ ''/accounts/{account_id}/redeem'', OpRedeemPoints),
      (''GET'', baseURL @ ''/accounts/{account_id}/transactions'', OpListTransactions),
      (''GET'', baseURL @ ''/audit'', OpListAudit),
      (''POST'', baseURL @ ''/batch'', OpIngestBatch),
      (''GET'', baseURL @ ''/healthz'', OpGetHealth),
      (''POST'', baseURL @ ''/login'', OpLogin),
      (''POST'', baseURL @ ''/transactions'', OpCreateTransaction)]"

definition routes :: "route list" where
  "routes = HandlerWithOptions [] @
     [(''GET'', ''/openapi.yaml'', ServeSpec), (''GET'', ''/swagger'', ServeSwagger)]"

fun dispatch ::
    "('e, 's) server \<Rightarrow> edge \<Rightarrow> string \<Rightarrow> 's middleware list \<Rightarrow> 'e world \<Rightarrow> target \<Rightarrow> string \<Rightarrow> 's http_handler" where
  "dispatch sv eg spec mws wo OpListAccounts raw = siw_ListAccounts sv wo mws"
| "dispatch sv eg spec mws wo OpCreateAccount raw = siw_CreateAccount sv wo mws"
| "dispatch sv eg spec mws wo OpGetAccount raw = siw_GetAccount sv wo eg mws raw"
| "dispatch sv eg spec mws wo OpGetBalance raw = siw_GetBalance sv wo eg mws raw"
| "dispatch sv eg spec mws wo OpRedeemPoints raw = siw_RedeemPoints sv wo eg mws raw"
| "dispatch sv eg spec mws wo OpListTransactions raw = siw_ListTransactions sv wo eg mws raw"
| "dispatch sv eg spec mws wo OpListAudit raw = siw_ListAudit sv wo eg mws"
| "dispatch sv eg spec mws wo OpIngestBatch raw = siw_IngestBatch sv wo mws"
| "dispatch sv eg spec mws wo OpGetHealth raw = siw_GetHealth sv wo mws"
| "dispatch sv eg spec mws wo OpLogin raw = siw_Login sv wo mws"
| "dispatch sv eg spec mws wo OpCreateTransaction raw = siw_CreateTransaction sv wo mws"
| "dispatch sv eg spec mws wo ServeSpec raw = handled (\<lambda>r s. (serveSpec spec r, s))"
| "dispatch sv eg spec mws wo ServeSwagger raw = handled (\<lambda>r s. (serveSwagger r, s))"

section \<open>NewRouter\<close>

record ('e, 's) deps =
  dp_Health :: "'e \<Rightarrow> goerr option"
  dp_Accounts :: "'e \<Rightarrow> 's account_repository"
  dp_Txns :: "'e \<Rightarrow> 's txn_repository"
  dp_Audit :: "'e \<Rightarrow> 's audit_repository"
  dp_SpecYAML :: string
  dp_JWTSecret :: string
  dp_JWTTTL :: int

definition server_of :: "bcrypt \<Rightarrow> jwt_lib \<Rightarrow> codec \<Rightarrow> ('e, 's) deps \<Rightarrow> ('e, 's) server" where
  "server_of bc j cd dp =
     \<lparr>sv_health = dp_Health dp, sv_accounts = dp_Accounts dp, sv_txns = dp_Txns dp,
      sv_audit = dp_Audit dp, sv_bcrypt = bc, sv_jwt = j, sv_codec = cd,
      sv_jwtSecret = dp_JWTSecret dp, sv_jwtTTL = dp_JWTTTL dp\<rparr>"

text \<open>The middlewares in the order they are appended; \<open>Inl\<close> when the contract does not load.\<close>

definition middlewares_of :: "jwt_lib \<Rightarrow> edge \<Rightarrow> ('e, 's) deps \<Rightarrow> gotime \<Rightarrow> goerr + 's middleware list" where
  "middlewares_of j eg dp now =
     (let auth = (if dp_JWTSecret dp \<noteq> [] then [auth_middleware j now (dp_JWTSecret dp)] else [])
      in if dp_SpecYAML dp \<noteq> []
         then (case newValidator eg (dp_SpecYAML dp) of
                 Inl err \<Rightarrow> Inl err
               | Inr validate \<Rightarrow> Inr (auth @ [validate]))
         else Inr auth)"

definition route_request ::
    "('e, 's) server \<Rightarrow> edge \<Rightarrow> string \<Rightarrow> 's middleware list \<Rightarrow> 'e world \<Rightarrow> 's http_handler" where
  "route_request sv eg spec mws wo r s =
     (case eg_Route eg routes r of
        NoRoute \<Rightarrow> (Inr (notFoundHandler r), s)
      | WrongMethod hs \<Rightarrow> (Inr (methodNotAllowedHandler hs r), s)
      | Routed t raw \<Rightarrow> dispatch sv eg spec mws wo t raw r s)"

text \<open>
  The served handler, or the message \<open>NewRouter\<close> panics with. A request enters with no identity in
  its context; the request id is set first, then \<open>recoverer\<close> wraps everything.
\<close>

definition NewRouter ::
    "bcrypt \<Rightarrow> jwt_lib \<Rightarrow> codec \<Rightarrow> edge \<Rightarrow> ('e, 's) deps \<Rightarrow> 'e world \<Rightarrow> string + (request \<Rightarrow> 's \<Rightarrow> response \<times> 's)" where
  "NewRouter bc j cd eg dp wo =
     (case middlewares_of j eg dp (wo_now wo) of
        Inl err \<Rightarrow> Inl (''httpapi: load spec for validation: '' @ err_text err)
      | Inr mws \<Rightarrow>
          Inr (\<lambda>r. recoverer (route_request (server_of bc j cd dp) eg (dp_SpecYAML dp) mws wo)
                     (r\<lparr>rq_RequestID := eg_RequestID eg r, rq_Identity := None\<rparr>)))"

section \<open>Who a handler runs for\<close>

text \<open>
  \<open>runs_as\<close>: the request a handler sees, given the one the router received: as it came on a public
  path (or when no secret is configured), with the identity its token proves otherwise.
\<close>

definition runs_as :: "jwt_lib \<Rightarrow> gotime \<Rightarrow> string \<Rightarrow> request \<Rightarrow> request \<Rightarrow> bool" where
  "runs_as j now secret r r' \<longleftrightarrow>
     (r' = r \<and> (secret = [] \<or> rq_Path r \<in> set publicPaths)) \<or>
     (\<exists>i. proven_identity j now secret r = Some i \<and> r' = r\<lparr>rq_Identity := Some i\<rparr>)"

definition may_reach :: "jwt_lib \<Rightarrow> gotime \<Rightarrow> string \<Rightarrow> request \<Rightarrow> string \<Rightarrow> bool" where
  "may_reach j now secret r a \<longleftrightarrow>
     (\<exists>i. proven_identity j now secret r = Some i \<and> (id_Role i = RoleAdmin \<or> id_AccountID i = a))"

lemma runs_as_may_act:
  "runs_as j now secret r r' \<Longrightarrow> rq_Identity r = None \<Longrightarrow> may_act r' a \<Longrightarrow> may_reach j now secret r a"
  by (auto simp: runs_as_def may_act_def may_reach_def)

lemma middlewares_of_Inr:
  assumes "middlewares_of j eg dp now = Inr mws"
  shows "mws = (if dp_JWTSecret dp \<noteq> [] then [auth_middleware j now (dp_JWTSecret dp)] else [])
             @ (if dp_SpecYAML dp \<noteq> [] then [validate_middleware eg (dp_SpecYAML dp)] else [])"
  using assms
  by (auto simp: middlewares_of_def newValidator_def Let_def split: if_splits sum.splits option.splits)

lemma auth_middleware_cases:
  assumes "auth_middleware j now secret h r s = (q, s')"
  shows "s' = s \<and> (\<exists>p. q = Inr p \<and> rs_Status p = 401 \<and> is_error p) \<or>
    (\<exists>r'. runs_as j now secret r r' \<and> h r' s = (q, s'))"
proof (cases "rq_Path r \<in> set publicPaths")
  case True
  with assms show ?thesis by (auto simp: auth_middleware_def runs_as_def)
next
  case False
  show ?thesis
  proof (cases "proven_identity j now secret r")
    case None
    from Authenticator_None [OF this, of h s] assms False show ?thesis
      by (auto simp: auth_middleware_def)
  next
    case (Some i)
    with assms False Authenticator_Some [OF Some, of h s] show ?thesis
      by (auto simp: auth_middleware_def runs_as_def)
  qed
qed

lemma validate_middleware_cases:
  assumes "validate_middleware eg spec h r s = (q, s')"
  shows "s' = s \<or> (eg_Verdict eg spec r = Accepts \<and> h r s = (q, s'))"
  using assms by (auto simp: validate_middleware_def split: verdict.splits)

lemma with_middlewares_cases:
  assumes mws: "middlewares_of j eg dp now = Inr mws"
    and run: "with_middlewares mws (handled h) r s = (q, s')"
  shows "s' = s \<or> (\<exists>r' p. runs_as j now (dp_JWTSecret dp) r r' \<and> h r' s = (p, s') \<and> q = Inr p)"
proof -
  let ?auth = "if dp_JWTSecret dp \<noteq> [] then auth_middleware j now (dp_JWTSecret dp) (handled h) else handled h"
  have "s' = s \<or> ?auth r s = (q, s')"
    using run unfolding middlewares_of_Inr [OF mws] with_middlewares_def
    by (auto dest: validate_middleware_cases split: if_splits)
  moreover have "s' = s \<or> (\<exists>r'. runs_as j now (dp_JWTSecret dp) r r' \<and> handled h r' s = (q, s'))"
    if a: "?auth r s = (q, s')"
  proof (cases "dp_JWTSecret dp = []")
    case True
    with a have "runs_as j now (dp_JWTSecret dp) r r \<and> handled h r s = (q, s')" by (simp add: runs_as_def)
    then show ?thesis by blast
  next
    case False
    with a auth_middleware_cases [of j now "dp_JWTSecret dp" "handled h" r s q s'] show ?thesis
      by (simp only: if_True not_False_eq_True) blast
  qed
  moreover have "\<exists>p. h r' s = (p, s') \<and> q = Inr p" if "handled h r' s = (q, s')" for r'
    using that by (auto simp: handled_def split: prod.splits)
  ultimately show ?thesis by blast
qed

text \<open>The four handlers that write, as one relation.\<close>

inductive writes_by ::
    "('e, 's) server \<Rightarrow> 'e world \<Rightarrow> target \<Rightarrow> request \<Rightarrow> 's \<Rightarrow> response \<Rightarrow> 's \<Rightarrow> bool" for sv wo where
  create: "h_CreateAccount sv wo r s = (p, s') \<Longrightarrow> writes_by sv wo OpCreateAccount r s p s'"
| transaction: "h_CreateTransaction sv wo r s = (p, s') \<Longrightarrow> writes_by sv wo OpCreateTransaction r s p s'"
| redeem: "h_RedeemPoints sv wo r a s = (p, s') \<Longrightarrow> writes_by sv wo OpRedeemPoints r s p s'"
| batch: "h_IngestBatch sv wo r s = (p, s') \<Longrightarrow> writes_by sv wo OpIngestBatch r s p s'"

inductive_cases writes_byE: "writes_by sv wo t r s p s'"

lemma siw_path_cases:
  assumes "middlewares_of j eg dp now = Inr mws" and "siw_path eg mws h raw r s = (q, s')"
  shows "s' = s \<or> (\<exists>a r' p. runs_as j now (dp_JWTSecret dp) r r' \<and> h r' a s = (p, s') \<and> q = Inr p)"
  using assms(2) with_middlewares_cases [OF assms(1)]
  by (fastforce simp: siw_path_def split: sum.splits)

lemma read_run:
  assumes "with_middlewares mws (handled h) r s = (q, s')" and "middlewares_of j eg dp now = Inr mws"
    and "\<And>r. snd (h r s) = s"
  shows "s' = s"
  using with_middlewares_cases [OF assms(2,1)] assms(3) by (metis snd_conv)

lemma read_path:
  assumes "siw_path eg mws h raw r s = (q, s')" and "middlewares_of j eg dp now = Inr mws"
    and "\<And>r a. snd (h r a s) = s"
  shows "s' = s"
  using siw_path_cases [OF assms(2,1)] assms(3) by (metis snd_conv)

lemmas siw_defs = siw_ListAccounts_def siw_CreateAccount_def siw_GetAccount_def siw_GetBalance_def
  siw_RedeemPoints_def siw_ListTransactions_def siw_ListAudit_def siw_IngestBatch_def
  siw_GetHealth_def siw_Login_def siw_CreateTransaction_def

lemma dispatch_cases:
  assumes mws: "middlewares_of j eg dp now = Inr mws"
    and run: "dispatch sv eg spec mws wo t raw r s = (q, s')"
  shows "s' = s \<or> (\<exists>r' p. runs_as j now (dp_JWTSecret dp) r r' \<and> writes_by sv wo t r' s p s' \<and> q = Inr p)"
proof (cases t)
  case OpCreateAccount
  with run with_middlewares_cases [OF mws] show ?thesis
    by (auto simp: siw_defs) (metis writes_by.create)
next
  case OpCreateTransaction
  with run with_middlewares_cases [OF mws] show ?thesis
    by (auto simp: siw_defs) (metis writes_by.transaction)
next
  case OpRedeemPoints
  with run siw_path_cases [OF mws] show ?thesis
    by (auto simp: siw_defs) (metis writes_by.redeem)
next
  case OpIngestBatch
  with run with_middlewares_cases [OF mws] show ?thesis
    by (auto simp: siw_defs) (metis writes_by.batch)
next
  case OpListAudit
  with run read_run [OF _ mws] show ?thesis
    by (auto simp: siw_defs h_ListAudit_state split: sum.splits)
next
  case OpListAccounts
  with run read_run [OF _ mws] show ?thesis by (auto simp: siw_defs h_ListAccounts_state)
next
  case OpGetAccount
  with run read_path [OF _ mws] show ?thesis by (auto simp: siw_defs h_GetAccount_state)
next
  case OpGetBalance
  with run read_path [OF _ mws] show ?thesis by (auto simp: siw_defs h_GetBalance_state)
next
  case OpListTransactions
  with run read_path [OF _ mws] show ?thesis by (auto simp: siw_defs h_ListTransactions_state)
next
  case OpGetHealth
  with run read_run [OF _ mws] show ?thesis by (auto simp: siw_defs h_GetHealth_state)
next
  case OpLogin
  with run read_run [OF _ mws] show ?thesis by (auto simp: siw_defs h_Login_state)
next
  case ServeSpec
  with run show ?thesis by (simp add: handled_def)
next
  case ServeSwagger
  with run show ?thesis by (simp add: handled_def)
qed

section \<open>A request served by the router\<close>

definition initial_request :: "edge \<Rightarrow> request \<Rightarrow> request" where
  "initial_request eg r = r\<lparr>rq_RequestID := eg_RequestID eg r, rq_Identity := None\<rparr>"

text \<open>The identity depends only on the Authorization header, so setting the request id changes nothing.\<close>

lemma initial_request_simps [simp]:
  "rq_Identity (initial_request eg r) = None" "rq_Path (initial_request eg r) = rq_Path r"
  "rq_Body (initial_request eg r) = rq_Body r" "rq_Method (initial_request eg r) = rq_Method r"
  "proven_identity j now secret (initial_request eg r) = proven_identity j now secret r"
  by (simp_all add: initial_request_def proven_identity_def bearerToken_def)

lemma may_reach_initial [simp]:
  "may_reach j now secret (initial_request eg r) a = may_reach j now secret r a"
  by (simp add: may_reach_def)

lemma served_cases:
  assumes f: "NewRouter bc j cd eg dp wo = Inr f" and run: "f r s = (p, s')"
  shows "s' = s \<or> (\<exists>t raw r'. eg_Route eg routes (initial_request eg r) = Routed t raw
    \<and> runs_as j (wo_now wo) (dp_JWTSecret dp) (initial_request eg r) r'
    \<and> writes_by (server_of bc j cd dp) wo t r' s p s')"
proof -
  let ?sv = "server_of bc j cd dp" and ?r = "initial_request eg r"
  obtain mws where mws: "middlewares_of j eg dp (wo_now wo) = Inr mws"
    and f: "f = (\<lambda>r. recoverer (route_request ?sv eg (dp_SpecYAML dp) mws wo) (initial_request eg r))"
    using f by (auto simp: NewRouter_def initial_request_def split: sum.splits)
  obtain q where q: "route_request ?sv eg (dp_SpecYAML dp) mws wo ?r s = (q, s')"
    and p: "\<And>x. q = Inr x \<Longrightarrow> p = x"
    using run unfolding f recoverer_def by (auto split: prod.splits sum.splits)
  show ?thesis
  proof (cases "eg_Route eg routes ?r")
    case NoRoute
    with q show ?thesis by (simp add: route_request_def)
  next
    case (WrongMethod hs)
    with q show ?thesis by (simp add: route_request_def)
  next
    case (Routed t raw)
    with q have "dispatch ?sv eg (dp_SpecYAML dp) mws wo t raw ?r s = (q, s')"
      by (simp add: route_request_def)
    from dispatch_cases [OF mws this] p Routed show ?thesis by blast
  qed
qed

text \<open>
  What is relied on of chi: it routes to a target only along one of its registered routes, with the
  request's method, and a pattern without a parameter only for exactly that path.
\<close>

definition static_pattern :: "string \<Rightarrow> bool" where
  "static_pattern pat \<longleftrightarrow> CHR ''{'' \<notin> set pat"

definition path_fits :: "string \<Rightarrow> string \<Rightarrow> bool" where
  "path_fits pat path \<longleftrightarrow>
     (if static_pattern pat then path = pat
      else has_prefix (takeWhile (\<lambda>c. c \<noteq> CHR ''{'') pat) path)"

definition chi_ok :: "edge \<Rightarrow> bool" where
  "chi_ok eg \<longleftrightarrow> (\<forall>rts r t raw. eg_Route eg rts r = Routed t raw \<longrightarrow>
     (\<exists>pat. (rq_Method r, pat, t) \<in> set rts \<and> path_fits pat (rq_Path r)))"

text \<open>On a public path chi reaches none of the writing operations.\<close>

lemma public_read_only:
  assumes chi: "chi_ok eg" and pub: "rq_Path r \<in> set publicPaths"
    and rt: "eg_Route eg routes r = Routed t raw"
  shows "t \<in> {OpGetHealth, OpLogin, ServeSpec, ServeSwagger}"
proof -
  obtain pat where "(rq_Method r, pat, t) \<in> set routes" and "path_fits pat (rq_Path r)"
    using chi rt unfolding chi_ok_def by blast
  then show ?thesis
    using pub by (auto simp: routes_def HandlerWithOptions_def publicPaths_def path_fits_def
        static_pattern_def has_prefix_def)
qed

context api_contract
begin

lemma writes_by_keeps:
  assumes "writes_by sv wo t r s p s'" and "wired sv repo arepo aud"
  shows "keeps invar held bal cred log (may_act r) s s'"
  using assms(1)
proof cases
  case create
  then show ?thesis using h_CreateAccount_keeps [OF assms(2)] by blast
next
  case transaction
  then show ?thesis using h_CreateTransaction_keeps [OF assms(2)] by blast
next
  case (redeem a)
  then show ?thesis using h_RedeemPoints_keeps [OF assms(2)] by blast
next
  case batch
  then show ?thesis using h_IngestBatch_keeps [OF assms(2)] by blast
qed

lemma served_keeps:
  assumes f: "NewRouter bc j cd eg dp wo = Inr f" and run: "f r s = (p, s')"
    and w: "wired (server_of bc j cd dp) repo arepo aud"
  shows "keeps invar held bal cred log (may_reach j (wo_now wo) (dp_JWTSecret dp) r) s s'"
  using served_cases [OF f run]
proof (elim disjE exE conjE)
  fix t raw r'
  assume runs: "runs_as j (wo_now wo) (dp_JWTSecret dp) (initial_request eg r) r'"
    and "writes_by (server_of bc j cd dp) wo t r' s p s'"
  from writes_by_keeps [OF this(2) w] show ?thesis
    by (rule keeps_mono) (use runs_as_may_act [OF runs] in simp)
qed simp

end

end
