(* ===== verification/Schema.thy ===== *)
theory Schema
  imports Domain "HOL-Library.Char_ord" "HOL-Library.List_Lexorder"
begin

text \<open>
  The database: the three tables of \<^verbatim>\<open>internal/sqlitestore/migrations\<close> and one definition per
  query of \<^verbatim>\<open>internal/sqlitestore/gen/queries.sql.go\<close>, with the constraints the schema puts on
  the inserts. A table is the list of its rows in the order they were inserted; \<^verbatim>\<open>NULL\<close> is
  \<open>None\<close>.

  What one call meets outside the program is an \<open>env\<close>: which database calls report a failure and
  with which message (\<open>fails\<close>), whether a write whose failure was reported reached the disk
  nevertheless (\<open>lands\<close>), the driver's wording of a constraint error (\<open>sql_msg\<close>), the text
  \<^verbatim>\<open>strftime\<close> gives for now, and how many row ids the engine passes over before the next one
  (AUTOINCREMENT promises only an id larger than every earlier one).

  \<^item> An id past \<open>2 ^ 63 - 1\<close> cannot be assigned: the insert fails, as SQLite's does.
  \<^item> \<open>SUM\<close> over integers fails with an overflow error as soon as a running sum leaves the int64
    range; the rows of one account are visited in id order, the order of the account index.
  \<^item> \<open>ORDER BY account_id\<close> compares bytes, which is the lexicographic order of \<^typ>\<open>string\<close>.
\<close>

section \<open>Tables\<close>

record account_row =
  ar_id :: string
  ar_name :: string
  ar_hash :: "string option"
  ar_role :: string
  ar_created :: string

record txn_row =
  tr_id :: int
  tr_ref :: string
  tr_account :: string
  tr_kind :: string
  tr_points :: int64
  tr_reward :: "string option"
  tr_occurred :: string
  tr_created :: string

record audit_row =
  lr_id :: int
  lr_ref :: string
  lr_account :: string
  lr_kind :: string
  lr_points :: int64
  lr_outcome :: string
  lr_reason :: string
  lr_created :: string

record db =
  accounts :: "account_row list"
  transactions :: "txn_row list"
  txn_seq :: int       \<comment> \<open>largest transaction id ever assigned\<close>
  audit_log :: "audit_row list"
  audit_seq :: int     \<comment> \<open>largest audit id ever assigned\<close>

section \<open>The outside world of one call\<close>

datatype db_call =
    CBeginTx | CCommit | CRollback | CRowsAffected | CPing
  | CAccountExists | CAppendAuditEntry | CBalanceForAccount | CCreateAccount
  | CGetAccount | CGetAccountCredential | CGetTransactionByRef | CInsertTransaction
  | CListAccountsWithBalance | CListAuditLog | CListAuditLogByAccount | CListTransactionsByAccount

datatype sql_error =
    UniqueAccountId | CheckTransactionKind | CheckTransactionPoints | ForeignKeyAccount
  | CheckAuditOutcome | RowidExhausted | IntegerOverflow

record env =
  fails :: "db_call \<Rightarrow> string option"
  lands :: "db_call \<Rightarrow> bool"
  sql_msg :: "sql_error \<Rightarrow> string"
  now_text :: string
  id_gap :: nat

definition quiet :: "env \<Rightarrow> bool" where
  "quiet e \<longleftrightarrow> (\<forall>c. fails e c \<noteq> None \<longrightarrow> \<not> lands e c)"

definition no_faults :: "env \<Rightarrow> bool" where
  "no_faults e \<longleftrightarrow> (\<forall>c. fails e c = None)"

lemma no_faults_quiet: "no_faults e \<Longrightarrow> quiet e"
  by (simp add: no_faults_def quiet_def)

definition db_fail :: "env \<Rightarrow> db_call \<Rightarrow> goerr option" where
  "db_fail e c = map_option ErrorsNew (fails e c)"

lemma db_fail_no_faults [simp]: "no_faults e \<Longrightarrow> db_fail e c = None"
  by (simp add: no_faults_def db_fail_def)

section \<open>Accounts\<close>

definition find_account :: "db \<Rightarrow> string \<Rightarrow> account_row option" where
  "find_account d i = find (\<lambda>r. ar_id r = i) (accounts d)"

definition q_AccountExists :: "env \<Rightarrow> string \<Rightarrow> db \<Rightarrow> goerr + bool" where
  "q_AccountExists e i d =
     (case db_fail e CAccountExists of Some err \<Rightarrow> Inl err
      | None \<Rightarrow> Inr (list_ex (\<lambda>r. ar_id r = i) (accounts d)))"

definition q_CreateAccount ::
    "env \<Rightarrow> string \<Rightarrow> string \<Rightarrow> string option \<Rightarrow> db \<Rightarrow> goerr option \<times> db" where
  "q_CreateAccount e i n h d =
     (if list_ex (\<lambda>r. ar_id r = i) (accounts d)
      then (case db_fail e CCreateAccount of Some err \<Rightarrow> (Some err, d)
            | None \<Rightarrow> (Some (ErrorsNew (sql_msg e UniqueAccountId)), d))
      else let d' = d\<lparr>accounts := accounts d @
                 [\<lparr>ar_id = i, ar_name = n, ar_hash = h, ar_role = ''member'', ar_created = now_text e\<rparr>]\<rparr>
           in (case db_fail e CCreateAccount of
                 Some err \<Rightarrow> (Some err, if lands e CCreateAccount then d' else d)
               | None \<Rightarrow> (None, d')))"

definition q_GetAccount :: "env \<Rightarrow> string \<Rightarrow> db \<Rightarrow> goerr + account_row" where
  "q_GetAccount e i d =
     (case db_fail e CGetAccount of Some err \<Rightarrow> Inl err
      | None \<Rightarrow> (case find_account d i of None \<Rightarrow> Inl (Sentinel ErrNoRows) | Some r \<Rightarrow> Inr r))"

definition q_GetAccountCredential :: "env \<Rightarrow> string \<Rightarrow> db \<Rightarrow> goerr + string option \<times> string" where
  "q_GetAccountCredential e i d =
     (case db_fail e CGetAccountCredential of Some err \<Rightarrow> Inl err
      | None \<Rightarrow> (case find_account d i of None \<Rightarrow> Inl (Sentinel ErrNoRows)
                 | Some r \<Rightarrow> Inr (ar_hash r, ar_role r)))"

section \<open>Transactions\<close>

definition find_txn :: "db \<Rightarrow> string \<Rightarrow> txn_row option" where
  "find_txn d k = find (\<lambda>r. tr_ref r = k) (transactions d)"

record insert_params =
  ip_Ref :: string
  ip_AccountID :: string
  ip_Kind :: string
  ip_Points :: int64
  ip_Reward :: "string option"
  ip_OccurredAt :: string

text \<open>The number of affected rows is 1 for a fresh reference and 0 for one already stored.\<close>

definition q_InsertTransaction :: "env \<Rightarrow> insert_params \<Rightarrow> db \<Rightarrow> (goerr + int) \<times> db" where
  "q_InsertTransaction e p d =
     (let i = txn_seq d + 1 + int (id_gap e);
          r = \<lparr>tr_id = i, tr_ref = ip_Ref p, tr_account = ip_AccountID p, tr_kind = ip_Kind p,
               tr_points = ip_Points p, tr_reward = ip_Reward p, tr_occurred = ip_OccurredAt p,
               tr_created = now_text e\<rparr>
      in case db_fail e CInsertTransaction of Some err \<Rightarrow> (Inl err, d)
         | None \<Rightarrow>
           if max_int64 < i then (Inl (ErrorsNew (sql_msg e RowidExhausted)), d)
           else if \<not> (ip_Kind p = ''earn'' \<or> ip_Kind p = ''spend'' \<or> ip_Kind p = ''redeem'')
             then (Inl (ErrorsNew (sql_msg e CheckTransactionKind)), d)
           else if \<not> 0 < sint (ip_Points p)
             then (Inl (ErrorsNew (sql_msg e CheckTransactionPoints)), d)
           else if list_ex (\<lambda>r. tr_ref r = ip_Ref p) (transactions d)
             then (Inr 0, d\<lparr>txn_seq := txn_seq d + int (id_gap e)\<rparr>)
           else if \<not> list_ex (\<lambda>r. ar_id r = ip_AccountID p) (accounts d)
             then (Inl (ErrorsNew (sql_msg e ForeignKeyAccount)), d)
           else (Inr 1, d\<lparr>transactions := transactions d @ [r], txn_seq := i\<rparr>))"

definition q_RowsAffected :: "env \<Rightarrow> int \<Rightarrow> goerr + int" where
  "q_RowsAffected e n = (case db_fail e CRowsAffected of Some err \<Rightarrow> Inl err | None \<Rightarrow> Inr n)"

definition q_GetTransactionByRef :: "env \<Rightarrow> string \<Rightarrow> db \<Rightarrow> goerr + txn_row" where
  "q_GetTransactionByRef e k d =
     (case db_fail e CGetTransactionByRef of Some err \<Rightarrow> Inl err
      | None \<Rightarrow> (case find_txn d k of None \<Rightarrow> Inl (Sentinel ErrNoRows) | Some r \<Rightarrow> Inr r))"

text \<open>\<open>CASE WHEN kind = 'earn' THEN points WHEN kind IN ('spend','redeem') THEN -points ELSE 0 END\<close>\<close>

definition row_points :: "txn_row \<Rightarrow> int" where
  "row_points r =
     (if tr_kind r = ''earn'' then sint (tr_points r)
      else if tr_kind r = ''spend'' \<or> tr_kind r = ''redeem'' then - sint (tr_points r)
      else 0)"

fun sum64 :: "int \<Rightarrow> int list \<Rightarrow> int option" where
  "sum64 acc [] = Some acc"
| "sum64 acc (x # xs) = (if fits64 (acc + x) then sum64 (acc + x) xs else None)"

definition account_sum :: "db \<Rightarrow> string \<Rightarrow> int option" where
  "account_sum d a = sum64 0 (map row_points (filter (\<lambda>r. tr_account r = a) (transactions d)))"

definition q_BalanceForAccount :: "env \<Rightarrow> string \<Rightarrow> db \<Rightarrow> goerr + int64" where
  "q_BalanceForAccount e a d =
     (case db_fail e CBalanceForAccount of Some err \<Rightarrow> Inl err
      | None \<Rightarrow> (case account_sum d a of
                   None \<Rightarrow> Inl (ErrorsNew (sql_msg e IntegerOverflow))
                 | Some b \<Rightarrow> Inr (word_of_int b)))"

record balance_row =
  br_id :: string
  br_name :: string
  br_role :: string
  br_balance :: int64

text \<open>One row whose sum overflows fails the whole statement.\<close>

fun balance_rows :: "db \<Rightarrow> account_row list \<Rightarrow> balance_row list option" where
  "balance_rows d [] = Some []"
| "balance_rows d (r # rs) =
     (case account_sum d (ar_id r) of None \<Rightarrow> None
      | Some b \<Rightarrow> (case balance_rows d rs of None \<Rightarrow> None
          | Some xs \<Rightarrow> Some (\<lparr>br_id = ar_id r, br_name = ar_name r, br_role = ar_role r,
                              br_balance = word_of_int b\<rparr> # xs)))"

definition q_ListAccountsWithBalance :: "env \<Rightarrow> db \<Rightarrow> goerr + balance_row list" where
  "q_ListAccountsWithBalance e d =
     (case db_fail e CListAccountsWithBalance of Some err \<Rightarrow> Inl err
      | None \<Rightarrow> (case balance_rows d (sort_key ar_id (accounts d)) of
                   None \<Rightarrow> Inl (ErrorsNew (sql_msg e IntegerOverflow))
                 | Some xs \<Rightarrow> Inr xs))"

definition q_ListTransactionsByAccount :: "env \<Rightarrow> string \<Rightarrow> db \<Rightarrow> goerr + txn_row list" where
  "q_ListTransactionsByAccount e a d =
     (case db_fail e CListTransactionsByAccount of Some err \<Rightarrow> Inl err
      | None \<Rightarrow> Inr (sort_desc tr_id (filter (\<lambda>r. tr_account r = a) (transactions d))))"

section \<open>Audit log\<close>

record append_params =
  ap_Ref :: string
  ap_AccountID :: string
  ap_Kind :: string
  ap_Points :: int64
  ap_Outcome :: string
  ap_Reason :: string

definition q_AppendAuditEntry :: "env \<Rightarrow> append_params \<Rightarrow> db \<Rightarrow> (goerr + audit_row) \<times> db" where
  "q_AppendAuditEntry e p d =
     (let i = audit_seq d + 1 + int (id_gap e);
          r = \<lparr>lr_id = i, lr_ref = ap_Ref p, lr_account = ap_AccountID p, lr_kind = ap_Kind p,
               lr_points = ap_Points p, lr_outcome = ap_Outcome p, lr_reason = ap_Reason p,
               lr_created = now_text e\<rparr>;
          d' = d\<lparr>audit_log := audit_log d @ [r], audit_seq := i\<rparr>
      in if max_int64 < i then (Inl (case db_fail e CAppendAuditEntry of Some err \<Rightarrow> err
                                     | None \<Rightarrow> ErrorsNew (sql_msg e RowidExhausted)), d)
         else if \<not> (ap_Outcome p = ''accepted'' \<or> ap_Outcome p = ''rejected'' \<or> ap_Outcome p = ''duplicate'')
           then (Inl (case db_fail e CAppendAuditEntry of Some err \<Rightarrow> err
                      | None \<Rightarrow> ErrorsNew (sql_msg e CheckAuditOutcome)), d)
         else case db_fail e CAppendAuditEntry of
                Some err \<Rightarrow> (Inl err, if lands e CAppendAuditEntry then d' else d)
              | None \<Rightarrow> (Inr r, d'))"

definition q_ListAuditLog :: "env \<Rightarrow> db \<Rightarrow> goerr + audit_row list" where
  "q_ListAuditLog e d =
     (case db_fail e CListAuditLog of Some err \<Rightarrow> Inl err
      | None \<Rightarrow> Inr (sort_desc lr_id (audit_log d)))"

definition q_ListAuditLogByAccount :: "env \<Rightarrow> string \<Rightarrow> db \<Rightarrow> goerr + audit_row list" where
  "q_ListAuditLogByAccount e a d =
     (case db_fail e CListAuditLogByAccount of Some err \<Rightarrow> Inl err
      | None \<Rightarrow> Inr (sort_desc lr_id (filter (\<lambda>r. lr_account r = a) (audit_log d))))"

section \<open>The database the migrations leave\<close>

definition seed_hash_member :: string where
  "seed_hash_member = ''$2a$12$7gg9DxyphAr97IhIsioBFOkkZ6lyb3zdtevV/Q9lb9.CxD/R1kC/C''"

definition seed_hash_admin :: string where
  "seed_hash_admin = ''$2a$12$LvEsOpgtZcSXg09X9vIgQeFp57IJxh35CAAcKhJJQExocBPl/Fta.''"

definition seed_db :: "string \<Rightarrow> db" where
  "seed_db now =
     \<lparr>accounts =
        [\<lparr>ar_id = ''member-123'', ar_name = ''Demo Member'', ar_hash = Some seed_hash_member,
          ar_role = ''member'', ar_created = now\<rparr>,
         \<lparr>ar_id = ''admin-001'', ar_name = ''Demo Admin'', ar_hash = Some seed_hash_admin,
          ar_role = ''admin'', ar_created = now\<rparr>],
      transactions = [], txn_seq = 0, audit_log = [], audit_seq = 0\<rparr>"

end
