(* ===== verification/Store.thy ===== *)
theory Store
  imports Services Schema
begin

text \<open>
  The SQLite store (\<^verbatim>\<open>internal/sqlitestore\<close>): each repository method as a function of the
  call's \<open>env\<close> and the database. A \<^verbatim>\<open>sql.Tx\<close> is a second database value: statements inside the
  transaction work on it, \<open>Commit\<close> makes it the database and every return before that leaves the
  database as it was, which is the deferred \<open>Rollback\<close>. One connection serves all requests
  (\<^verbatim>\<open>SetMaxOpenConns(1)\<close>), so a method runs against one database value from its first statement
  to its last.

  The second half defines the invariant \<open>db_ok\<close>, shows that every method keeps it, and interprets
  the contracts of \<^verbatim>\<open>Services\<close> on these methods.
\<close>

section \<open>Accounts\<close>

definition isUniqueViolation :: "goerr \<Rightarrow> bool" where
  "isUniqueViolation err = Contains (ToUpper (err_text err)) ''UNIQUE CONSTRAINT FAILED''"

definition st_CreateAccount :: "env \<Rightarrow> account \<Rightarrow> string \<Rightarrow> db \<Rightarrow> goerr option \<times> db" where
  "st_CreateAccount e a passwordHash d =
     (let pw = (if passwordHash = [] then None else Some passwordHash)
      in case q_CreateAccount e (acc_ID a) (acc_Name a) pw d of
           (None, d') \<Rightarrow> (None, d')
         | (Some err, d') \<Rightarrow>
             if isUniqueViolation err then (Some (Sentinel ErrAccountExists), d')
             else (Some (Errorf ''create account'' err), d'))"

definition null_string :: "string option \<Rightarrow> string" where
  "null_string s = (case s of None \<Rightarrow> [] | Some x \<Rightarrow> x)"

text \<open>\<open>%q\<close> on a role of plain printable characters.\<close>

definition quoted :: "string \<Rightarrow> string" where
  "quoted s = [CHR 0x22] @ s @ [CHR 0x22]"

definition st_GetCredential :: "env \<Rightarrow> string \<Rightarrow> db \<Rightarrow> goerr + string \<times> string" where
  "st_GetCredential e i d =
     (case q_GetAccountCredential e i d of
        Inl err \<Rightarrow> if errors_is err ErrNoRows then Inl (Sentinel ErrNotFound)
                   else Inl (Errorf ''get credential'' err)
      | Inr (hash, role0) \<Rightarrow>
          (case ParseRole role0 of
             Inl err \<Rightarrow> Inl (Errorf (''stored role '' @ quoted role0) err)
           | Inr role \<Rightarrow> Inr (null_string hash, role)))"

definition account_of_row :: "account_row \<Rightarrow> account" where
  "account_of_row r =
     \<lparr>acc_ID = ar_id r, acc_Name = ar_name r, acc_CreatedAt = parse_or_zero (ar_created r)\<rparr>"

definition st_GetAccount :: "env \<Rightarrow> string \<Rightarrow> db \<Rightarrow> goerr + account" where
  "st_GetAccount e i d =
     (case q_GetAccount e i d of
        Inl err \<Rightarrow> if errors_is err ErrNoRows then Inl (Sentinel ErrNotFound)
                   else Inl (Errorf ''get account'' err)
      | Inr r \<Rightarrow> Inr (account_of_row r))"

definition st_Balance :: "env \<Rightarrow> string \<Rightarrow> db \<Rightarrow> goerr + int64" where
  "st_Balance e i d =
     (case q_AccountExists e i d of
        Inl err \<Rightarrow> Inl (Errorf ''account exists'' err)
      | Inr exists \<Rightarrow>
          if \<not> exists then Inl (Sentinel ErrNotFound)
          else (case q_BalanceForAccount e i d of
                  Inl err \<Rightarrow> Inl (Errorf ''balance'' err)
                | Inr bal \<Rightarrow> Inr bal))"

fun summaries :: "balance_row list \<Rightarrow> goerr + account_summary list" where
  "summaries [] = Inr []"
| "summaries (r # rs) =
     (case ParseRole (br_role r) of
        Inl err \<Rightarrow> Inl (Errorf (''stored role '' @ quoted (br_role r)) err)
      | Inr role \<Rightarrow> (case summaries rs of Inl err \<Rightarrow> Inl err
          | Inr xs \<Rightarrow> Inr (\<lparr>as_ID = br_id r, as_Name = br_name r, as_Role = role,
                           as_Balance = br_balance r\<rparr> # xs)))"

definition st_ListAccounts :: "env \<Rightarrow> db \<Rightarrow> goerr + account_summary list" where
  "st_ListAccounts e d =
     (case q_ListAccountsWithBalance e d of
        Inl err \<Rightarrow> Inl (Errorf ''list accounts'' err)
      | Inr rows \<Rightarrow> summaries rows)"

definition ledger_txn :: "string \<Rightarrow> txn_row \<Rightarrow> txn" where
  "ledger_txn accountID r =
     \<lparr>t_Ref = tr_ref r, t_AccountID = accountID, t_Kind = tr_kind r, t_Points = tr_points r,
      t_Reward = [], t_OccurredAt = parse_or_zero (tr_occurred r)\<rparr>"

definition st_ListTransactions :: "env \<Rightarrow> string \<Rightarrow> db \<Rightarrow> goerr + txn list" where
  "st_ListTransactions e accountID d =
     (case q_AccountExists e accountID d of
        Inl err \<Rightarrow> Inl (Errorf ''account exists'' err)
      | Inr exists \<Rightarrow>
          if \<not> exists then Inl (Sentinel ErrNotFound)
          else (case q_ListTransactionsByAccount e accountID d of
                  Inl err \<Rightarrow> Inl (Errorf ''list transactions'' err)
                | Inr rows \<Rightarrow> Inr (map (ledger_txn accountID) rows)))"

section \<open>RecordTransaction\<close>

definition txn_of_row :: "txn_row \<Rightarrow> txn" where
  "txn_of_row r =
     \<lparr>t_Ref = tr_ref r, t_AccountID = tr_account r, t_Kind = tr_kind r, t_Points = tr_points r,
      t_Reward = null_string (tr_reward r), t_OccurredAt = parse_or_zero (tr_occurred r)\<rparr>"

definition insert_params_of :: "txn \<Rightarrow> insert_params" where
  "insert_params_of t =
     \<lparr>ip_Ref = t_Ref t, ip_AccountID = t_AccountID t, ip_Kind = t_Kind t, ip_Points = t_Points t,
      ip_Reward = (if t_Reward t = [] then None else Some (t_Reward t)),
      ip_OccurredAt = Format (t_OccurredAt t)\<rparr>"

text \<open>The no-negative guard, inside the transaction: an error to return, or \<open>None\<close> to go on.\<close>

definition overdraft_guard :: "env \<Rightarrow> txn \<Rightarrow> int \<Rightarrow> db \<Rightarrow> goerr option" where
  "overdraft_guard e t affected tx =
     (if affected = 1 \<and> (t_Kind t = KindSpend \<or> t_Kind t = KindRedeem)
      then (case q_BalanceForAccount e (t_AccountID t) tx of
              Inl balErr \<Rightarrow> Some (Errorf ''balance check'' balErr)
            | Inr bal \<Rightarrow>
                if sint bal < 0
                then (case db_fail e CRollback of
                        Some rbErr \<Rightarrow> Some (Errorf ''rollback spend'' rbErr)
                      | None \<Rightarrow> Some (Sentinel ErrInsufficientBalance))
                else None)
      else None)"

definition st_RecordTransaction ::
    "env \<Rightarrow> txn \<Rightarrow> db \<Rightarrow> (goerr + txn \<times> bool) \<times> db" where
  "st_RecordTransaction e t d =
     (case db_fail e CBeginTx of Some err \<Rightarrow> (Inl (Errorf ''begin tx'' err), d)
      | None \<Rightarrow>
      (case q_AccountExists e (t_AccountID t) d of Inl err \<Rightarrow> (Inl (Errorf ''account exists'' err), d)
       | Inr exists \<Rightarrow>
         if \<not> exists then (Inl (Sentinel ErrNotFound), d)
         else
       (case q_InsertTransaction e (insert_params_of t) d of
          (Inl err, tx) \<Rightarrow> (Inl (Errorf ''insert transaction'' err), d)
        | (Inr res, tx) \<Rightarrow>
          (case q_RowsAffected e res of Inl err \<Rightarrow> (Inl (Errorf ''rows affected'' err), d)
           | Inr affected \<Rightarrow>
             (case overdraft_guard e t affected tx of Some err \<Rightarrow> (Inl err, d)
              | None \<Rightarrow>
                (case q_GetTransactionByRef e (t_Ref t) tx of
                   Inl err \<Rightarrow> (Inl (Errorf ''get transaction by ref'' err), d)
                 | Inr row \<Rightarrow>
                   (case db_fail e CCommit of
                      Some err \<Rightarrow> (Inl (Errorf ''commit'' err), if lands e CCommit then tx else d)
                    | None \<Rightarrow> (Inr (txn_of_row row, affected = 1), tx))))))))"

section \<open>Audit\<close>

definition auditFromRow :: "audit_row \<Rightarrow> audit_entry" where
  "auditFromRow r =
     \<lparr>ae_ID = word_of_int (lr_id r), ae_Ref = lr_ref r, ae_AccountID = lr_account r,
      ae_Kind = lr_kind r, ae_Points = lr_points r, ae_Outcome = lr_outcome r,
      ae_Reason = lr_reason r, ae_CreatedAt = parse_or_zero (lr_created r)\<rparr>"

definition st_AppendAudit :: "env \<Rightarrow> audit_entry \<Rightarrow> db \<Rightarrow> (goerr + audit_entry) \<times> db" where
  "st_AppendAudit e x d =
     (case q_AppendAuditEntry e
             \<lparr>ap_Ref = ae_Ref x, ap_AccountID = ae_AccountID x, ap_Kind = ae_Kind x,
              ap_Points = ae_Points x, ap_Outcome = ae_Outcome x, ap_Reason = ae_Reason x\<rparr> d of
        (Inl err, d') \<Rightarrow> (Inl (Errorf ''append audit'' err), d')
      | (Inr row, d') \<Rightarrow> (Inr (auditFromRow row), d'))"

definition st_ListAudit :: "env \<Rightarrow> string \<Rightarrow> db \<Rightarrow> goerr + audit_entry list" where
  "st_ListAudit e accountID d =
     (case (if accountID = [] then q_ListAuditLog e d else q_ListAuditLogByAccount e accountID d) of
        Inl err \<Rightarrow> Inl (Errorf ''list audit'' err)
      | Inr rows \<Rightarrow> Inr (map auditFromRow rows))"

definition st_Ping :: "env \<Rightarrow> goerr option" where
  "st_Ping e = db_fail e CPing"

section \<open>The store as repositories\<close>

definition store_accounts :: "env \<Rightarrow> db account_repository" where
  "store_accounts e =
     \<lparr>repo_CreateAccount = st_CreateAccount e, repo_GetAccount = st_GetAccount e,
      repo_Balance = st_Balance e, repo_GetCredential = st_GetCredential e,
      repo_ListAccounts = st_ListAccounts e, repo_ListTransactions = st_ListTransactions e\<rparr>"

definition store_txns :: "env \<Rightarrow> db txn_repository" where
  "store_txns e = \<lparr>repo_RecordTransaction = st_RecordTransaction e\<rparr>"

definition store_audit :: "env \<Rightarrow> db audit_repository" where
  "store_audit e = \<lparr>repo_AppendAudit = st_AppendAudit e, repo_ListAudit = st_ListAudit e\<rparr>"

section \<open>The invariant of the database\<close>

definition accounts_ok :: "db \<Rightarrow> bool" where
  "accounts_ok d \<longleftrightarrow> distinct (map ar_id (accounts d))
     \<and> list_all (\<lambda>r. (ar_role r = ''member'' \<or> ar_role r = ''admin'') \<and> ar_hash r \<noteq> Some []) (accounts d)"

definition txn_row_ok :: "db \<Rightarrow> txn_row \<Rightarrow> bool" where
  "txn_row_ok d r \<longleftrightarrow> (tr_kind r = ''earn'' \<or> tr_kind r = ''spend'' \<or> tr_kind r = ''redeem'')
     \<and> 0 < sint (tr_points r) \<and> list_ex (\<lambda>a. ar_id a = tr_account r) (accounts d)
     \<and> 0 < tr_id r \<and> tr_id r \<le> txn_seq d \<and> tr_reward r \<noteq> Some []"

definition txns_ok :: "db \<Rightarrow> bool" where
  "txns_ok d \<longleftrightarrow> distinct (map tr_ref (transactions d)) \<and> sorted_wrt (<) (map tr_id (transactions d))
     \<and> list_all (txn_row_ok d) (transactions d) \<and> 0 \<le> txn_seq d \<and> txn_seq d \<le> max_int64"

definition audit_ok :: "db \<Rightarrow> bool" where
  "audit_ok d \<longleftrightarrow> sorted_wrt (<) (map lr_id (audit_log d))
     \<and> list_all (\<lambda>r. valid_outcome (lr_outcome r) \<and> 0 < lr_id r \<and> lr_id r \<le> audit_seq d) (audit_log d)
     \<and> 0 \<le> audit_seq d \<and> audit_seq d \<le> max_int64"

definition db_ok :: "db \<Rightarrow> bool" where
  "db_ok d \<longleftrightarrow> accounts_ok d \<and> txns_ok d \<and> audit_ok d"

text \<open>The exact balance, over the integers: what the guard protects.\<close>

definition balance_of :: "db \<Rightarrow> string \<Rightarrow> int" where
  "balance_of d a = sum_list (map row_points (filter (\<lambda>r. tr_account r = a) (transactions d)))"

definition solvent :: "db \<Rightarrow> bool" where
  "solvent d \<longleftrightarrow> (\<forall>a. 0 \<le> balance_of d a)"

definition held_txn :: "db \<Rightarrow> string \<Rightarrow> txn option" where
  "held_txn d k = map_option txn_of_row (find_txn d k)"

definition credential :: "db \<Rightarrow> string \<Rightarrow> (string \<times> string) option" where
  "credential d i = map_option (\<lambda>r. (null_string (ar_hash r), ar_role r)) (find_account d i)"

definition audit_view :: "db \<Rightarrow> audit_entry list" where
  "audit_view d = map auditFromRow (rev (audit_log d))"

section \<open>Rows\<close>

lemma list_ex_find_account: "list_ex (\<lambda>r. ar_id r = i) (accounts d) \<longleftrightarrow> find_account d i \<noteq> None"
  by (auto simp: find_account_def list_ex_iff find_None_iff)

lemma list_ex_find_txn: "list_ex (\<lambda>r. tr_ref r = k) (transactions d) \<longleftrightarrow> find_txn d k \<noteq> None"
  by (auto simp: find_txn_def list_ex_iff find_None_iff)

lemma find_account_id: "find_account d i = Some r \<Longrightarrow> r \<in> set (accounts d) \<and> ar_id r = i"
  by (auto simp: find_account_def dest: find_Some_keyD)

lemma find_txn_ref: "find_txn d k = Some r \<Longrightarrow> r \<in> set (transactions d) \<and> tr_ref r = k"
  by (auto simp: find_txn_def dest: find_Some_keyD)

lemma db_fail_Some: "db_fail e c = Some err \<Longrightarrow> \<exists>m. err = ErrorsNew m \<and> fails e c = Some m"
  by (auto simp: db_fail_def)

lemma db_fail_lands: "db_fail e c = Some err \<Longrightarrow> lands e c \<Longrightarrow> \<not> quiet e"
  by (auto simp: db_fail_def quiet_def)

lemma fails_lands: "fails e c = Some m \<Longrightarrow> lands e c \<Longrightarrow> \<not> quiet e"
  by (auto simp: quiet_def)

lemma sum64_Some: "sum64 acc xs = Some b \<Longrightarrow> b = acc + sum_list xs \<and> (fits64 acc \<longrightarrow> fits64 b)"
proof (induction xs arbitrary: acc)
  case Nil
  then show ?case by simp
next
  case (Cons x xs)
  then have "fits64 (acc + x)" and "sum64 (acc + x) xs = Some b" by (auto split: if_splits)
  with Cons.IH [of "acc + x"] have "b = acc + x + sum_list xs" and "fits64 b" by auto
  then show ?case by auto
qed

lemma fits64_0 [simp]: "fits64 0"
  by (simp add: fits64_def)

lemma account_sum_exact:
  assumes "account_sum d a = Some b"
  shows "b = balance_of d a \<and> fits64 b \<and> sint (word_of_int b :: int64) = b"
  using sum64_Some [of 0 _ b] assms sint_word_of_int64 by (auto simp: account_sum_def balance_of_def)

lemma row_points_signed: "row_points r = signed_points (tr_kind r) (tr_points r)"
  by (simp add: row_points_def signed_points_def kind_consts)

section \<open>What CreateAccount does\<close>

definition new_account :: "env \<Rightarrow> account \<Rightarrow> string \<Rightarrow> account_row" where
  "new_account e a h =
     \<lparr>ar_id = acc_ID a, ar_name = acc_Name a, ar_hash = (if h = [] then None else Some h),
      ar_role = ''member'', ar_created = now_text e\<rparr>"

definition with_account :: "env \<Rightarrow> account \<Rightarrow> string \<Rightarrow> db \<Rightarrow> db" where
  "with_account e a h d = d\<lparr>accounts := accounts d @ [new_account e a h]\<rparr>"

lemma st_CreateAccount_cases:
  assumes "st_CreateAccount e a h d = (r, d')"
  shows "(r \<noteq> None \<and> d' = d) \<or>
    (find_account d (acc_ID a) = None \<and> d' = with_account e a h d \<and> (r = None \<or> \<not> quiet e))"
  using assms
  by (auto simp: st_CreateAccount_def q_CreateAccount_def Let_def list_ex_find_account with_account_def new_account_def
      dest: db_fail_lands split: option.splits if_splits)

lemma find_account_with_account:
  "find_account (with_account e a h d) i =
     (case find_account d i of Some r \<Rightarrow> Some r
      | None \<Rightarrow> if acc_ID a = i then Some (new_account e a h) else None)"
  by (simp add: find_account_def with_account_def row_simps) (simp add: new_account_def)

lemma credential_with_account:
  "find_account d (acc_ID a) = None \<Longrightarrow>
     credential (with_account e a h d) = (credential d)(acc_ID a \<mapsto> (h, RoleMember))"
  by (auto simp: credential_def find_account_with_account new_account_def null_string_def role_consts
      fun_eq_iff split: option.splits)

lemma with_account_frame [simp]:
  "transactions (with_account e a h d) = transactions d"
  "txn_seq (with_account e a h d) = txn_seq d"
  "audit_log (with_account e a h d) = audit_log d"
  "audit_seq (with_account e a h d) = audit_seq d"
  by (simp_all add: with_account_def)

lemma db_ok_with_account:
  assumes "db_ok d" and "find_account d (acc_ID a) = None"
  shows "db_ok (with_account e a h d)"
proof -
  have "acc_ID a \<notin> ar_id ` set (accounts d)"
    using assms(2) by (simp add: find_account_def find_None_key)
  then have "accounts_ok (with_account e a h d)"
    using assms(1) by (auto simp: db_ok_def accounts_ok_def with_account_def new_account_def)
  moreover have "txns_ok (with_account e a h d)"
    using assms(1) by (auto simp: db_ok_def txns_ok_def txn_row_ok_def list_all_iff with_account_def)
  ultimately show ?thesis using assms(1) by (simp add: db_ok_def audit_ok_def)
qed

lemma db_ok_CreateAccount: "db_ok d \<Longrightarrow> st_CreateAccount e a h d = (r, d') \<Longrightarrow> db_ok d'"
  by (metis st_CreateAccount_cases db_ok_with_account)

section \<open>What RecordTransaction does\<close>

definition new_row :: "env \<Rightarrow> txn \<Rightarrow> db \<Rightarrow> txn_row" where
  "new_row e t d =
     \<lparr>tr_id = txn_seq d + 1 + int (id_gap e), tr_ref = t_Ref t, tr_account = t_AccountID t,
      tr_kind = t_Kind t, tr_points = t_Points t,
      tr_reward = (if t_Reward t = [] then None else Some (t_Reward t)),
      tr_occurred = Format (t_OccurredAt t), tr_created = now_text e\<rparr>"

definition with_row :: "env \<Rightarrow> txn \<Rightarrow> db \<Rightarrow> db" where
  "with_row e t d =
     d\<lparr>transactions := transactions d @ [new_row e t d], txn_seq := txn_seq d + 1 + int (id_gap e)\<rparr>"

definition burned :: "env \<Rightarrow> db \<Rightarrow> db" where
  "burned e d = d\<lparr>txn_seq := txn_seq d + int (id_gap e)\<rparr>"

definition insertable :: "env \<Rightarrow> txn \<Rightarrow> db \<Rightarrow> bool" where
  "insertable e t d \<longleftrightarrow> find_txn d (t_Ref t) = None \<and> find_account d (t_AccountID t) \<noteq> None
     \<and> (t_Kind t = KindEarn \<or> t_Kind t = KindSpend \<or> t_Kind t = KindRedeem)
     \<and> 0 < sint (t_Points t) \<and> txn_seq d + 1 + int (id_gap e) \<le> max_int64"

definition deducts :: "txn \<Rightarrow> bool" where
  "deducts t \<longleftrightarrow> t_Kind t = KindSpend \<or> t_Kind t = KindRedeem"

lemma q_InsertTransaction_cases:
  assumes "q_InsertTransaction e (insert_params_of t) d = (res, tx)"
  shows "(\<exists>m. res = Inl (ErrorsNew m)) \<or>
    (res = Inr 0 \<and> tx = burned e d \<and> find_txn d (t_Ref t) \<noteq> None
       \<and> txn_seq d + 1 + int (id_gap e) \<le> max_int64) \<or>
    (res = Inr 1 \<and> tx = with_row e t d \<and> insertable e t d)"
proof (cases "db_fail e CInsertTransaction")
  case None
  then show ?thesis
    using assms
    by (auto simp: q_InsertTransaction_def insert_params_of_def Let_def list_ex_find_account
        list_ex_find_txn kind_consts with_row_def new_row_def burned_def insertable_def not_less
        split: if_splits)
next
  case (Some err)
  then show ?thesis
    using assms db_fail_Some [OF Some] by (auto simp: q_InsertTransaction_def Let_def)
qed

text \<open>The balance the guard reads is the exact one, or an error that is no sentinel.\<close>

lemma q_BalanceForAccount_Inr:
  "q_BalanceForAccount e a d = Inr b \<Longrightarrow> sint b = balance_of d a \<and> account_sum d a = Some (sint b)"
  using account_sum_exact
  by (fastforce simp: q_BalanceForAccount_def split: option.splits)

lemma q_BalanceForAccount_Inl: "q_BalanceForAccount e a d = Inl err \<Longrightarrow> \<exists>m. err = ErrorsNew m"
  by (auto simp: q_BalanceForAccount_def dest: db_fail_Some split: option.splits)

lemma overdraft_guard_None:
  "overdraft_guard e t n tx = None \<Longrightarrow> n = 1 \<Longrightarrow> deducts t \<Longrightarrow> 0 \<le> balance_of tx (t_AccountID t)"
  by (auto simp: overdraft_guard_def deducts_def not_less dest: q_BalanceForAccount_Inr
      split: sum.splits if_splits option.splits)

lemma overdraft_guard_Some:
  assumes "overdraft_guard e t n tx = Some err" and "errors_is err ErrInsufficientBalance"
  shows "n = 1 \<and> deducts t \<and> balance_of tx (t_AccountID t) < 0"
  using assms
  by (auto simp: overdraft_guard_def deducts_def
      dest!: db_fail_Some q_BalanceForAccount_Inr q_BalanceForAccount_Inl
      split: sum.splits if_splits option.splits)

text \<open>The six outcomes of a call, each with what it says about the database before and after.\<close>

inductive record_outcome ::
    "env \<Rightarrow> txn \<Rightarrow> db \<Rightarrow> goerr + txn \<times> bool \<Rightarrow> db \<Rightarrow> bool" for e t d where
  insufficient: "insertable e t d \<Longrightarrow> deducts t \<Longrightarrow> balance_of (with_row e t d) (t_AccountID t) < 0
    \<Longrightarrow> errors_is err ErrInsufficientBalance \<Longrightarrow> record_outcome e t d (Inl err) d"
| refused: "\<not> errors_is err ErrInsufficientBalance \<Longrightarrow> record_outcome e t d (Inl err) d"
| created: "insertable e t d \<Longrightarrow> deducts t \<longrightarrow> 0 \<le> balance_of (with_row e t d) (t_AccountID t)
    \<Longrightarrow> record_outcome e t d (Inr (txn_of_row (new_row e t d), True)) (with_row e t d)"
| created_unreported: "insertable e t d \<Longrightarrow> deducts t \<longrightarrow> 0 \<le> balance_of (with_row e t d) (t_AccountID t)
    \<Longrightarrow> \<not> quiet e \<Longrightarrow> \<not> errors_is err ErrInsufficientBalance
    \<Longrightarrow> record_outcome e t d (Inl err) (with_row e t d)"
| replayed: "find_txn d (t_Ref t) = Some row \<Longrightarrow> find_account d (t_AccountID t) \<noteq> None
    \<Longrightarrow> txn_seq d + 1 + int (id_gap e) \<le> max_int64
    \<Longrightarrow> record_outcome e t d (Inr (txn_of_row row, False)) (burned e d)"
| replayed_unreported: "txn_seq d + 1 + int (id_gap e) \<le> max_int64
    \<Longrightarrow> \<not> quiet e \<Longrightarrow> \<not> errors_is err ErrInsufficientBalance
    \<Longrightarrow> record_outcome e t d (Inl err) (burned e d)"

inductive_cases record_outcome_InlE: "record_outcome e t d (Inl err) d'"
inductive_cases record_outcome_InrE: "record_outcome e t d (Inr p) d'"

lemma find_txn_with_row:
  "find_txn (with_row e t d) k =
     (case find_txn d k of Some r \<Rightarrow> Some r
      | None \<Rightarrow> if t_Ref t = k then Some (new_row e t d) else None)"
  by (simp add: find_txn_def with_row_def row_simps) (simp add: new_row_def)

lemma find_txn_burned [simp]: "find_txn (burned e d) k = find_txn d k"
  by (simp add: find_txn_def burned_def)

text \<open>The part after the insert, as one expression over the number of inserted rows.\<close>

definition finish_tx :: "env \<Rightarrow> txn \<Rightarrow> int \<Rightarrow> db \<Rightarrow> db \<Rightarrow> (goerr + txn \<times> bool) \<times> db" where
  "finish_tx e t n tx d =
     (case overdraft_guard e t n tx of Some err \<Rightarrow> (Inl err, d)
      | None \<Rightarrow>
        (case q_GetTransactionByRef e (t_Ref t) tx of
           Inl err \<Rightarrow> (Inl (Errorf ''get transaction by ref'' err), d)
         | Inr row \<Rightarrow>
           (case db_fail e CCommit of
              Some err \<Rightarrow> (Inl (Errorf ''commit'' err), if lands e CCommit then tx else d)
            | None \<Rightarrow> (Inr (txn_of_row row, n = 1), tx))))"

lemma finish_tx_replay:
  assumes "finish_tx e t 0 (burned e d) d = (r, d')" and "find_txn d (t_Ref t) \<noteq> None"
    and "find_account d (t_AccountID t) \<noteq> None" and "txn_seq d + 1 + int (id_gap e) \<le> max_int64"
  shows "record_outcome e t d r d'"
proof -
  obtain row where row: "find_txn d (t_Ref t) = Some row" using assms(2) by blast
  show ?thesis
    using assms row
    by (auto simp: finish_tx_def overdraft_guard_def q_GetTransactionByRef_def
        intro: record_outcome.intros dest!: db_fail_Some dest: fails_lands
        split: option.splits if_splits)
qed

lemma finish_tx_fresh:
  assumes "finish_tx e t 1 (with_row e t d) d = (r, d')" and ins: "insertable e t d"
  shows "record_outcome e t d r d'"
proof (cases "overdraft_guard e t 1 (with_row e t d)")
  case (Some err)
  with assms(1) have r: "r = Inl err" "d' = d" by (simp_all add: finish_tx_def)
  show ?thesis
  proof (cases "errors_is err ErrInsufficientBalance")
    case True
    with overdraft_guard_Some [OF Some] ins show ?thesis unfolding r by (auto intro: insufficient)
  next
    case False
    then show ?thesis unfolding r by (rule refused)
  qed
next
  case None
  have bal: "deducts t \<longrightarrow> 0 \<le> balance_of (with_row e t d) (t_AccountID t)"
    using overdraft_guard_None [OF None] by blast
  have "find_txn (with_row e t d) (t_Ref t) = Some (new_row e t d)"
    using ins by (simp add: find_txn_with_row insertable_def)
  then show ?thesis
    using assms None bal
    by (auto simp: finish_tx_def q_GetTransactionByRef_def
        intro: record_outcome.intros dest!: db_fail_Some dest: fails_lands
        split: option.splits if_splits)
qed

lemma st_RecordTransaction_outcome:
  assumes "st_RecordTransaction e t d = (r, d')"
  shows "record_outcome e t d r d'"
proof -
  have unfold: "(case db_fail e CBeginTx of Some err \<Rightarrow> (Inl (Errorf ''begin tx'' err), d)
      | None \<Rightarrow> (case q_AccountExists e (t_AccountID t) d of Inl err \<Rightarrow> (Inl (Errorf ''account exists'' err), d)
       | Inr exists \<Rightarrow> if \<not> exists then (Inl (Sentinel ErrNotFound), d)
         else (case q_InsertTransaction e (insert_params_of t) d of
          (Inl err, tx) \<Rightarrow> (Inl (Errorf ''insert transaction'' err), d)
        | (Inr res, tx) \<Rightarrow> (case q_RowsAffected e res of Inl err \<Rightarrow> (Inl (Errorf ''rows affected'' err), d)
           | Inr n \<Rightarrow> finish_tx e t n tx d)))) = (r, d')"
    using assms by (simp only: st_RecordTransaction_def finish_tx_def)
  have plain: "record_outcome e t d (Inl (Errorf m (ErrorsNew m'))) d" for m m'
    by (rule refused) simp
  have nf: "record_outcome e t d (Inl (Sentinel ErrNotFound)) d"
    by (rule refused) simp
  obtain res tx where ins: "q_InsertTransaction e (insert_params_of t) d = (res, tx)" by fastforce
  note cs = q_InsertTransaction_cases [OF ins]
  show ?thesis
  proof (cases "db_fail e CBeginTx = None \<and> db_fail e CAccountExists = None
      \<and> find_account d (t_AccountID t) \<noteq> None \<and> (\<exists>n. res = Inr n) \<and> db_fail e CRowsAffected = None")
    case True
    then obtain n where n: "res = Inr n" by blast
    with True unfold ins have fin: "finish_tx e t n tx d = (r, d')"
      by (simp add: q_AccountExists_def q_RowsAffected_def list_ex_find_account)
    from cs n True show ?thesis
      using fin finish_tx_replay finish_tx_fresh by auto
  next
    case False
    with unfold [unfolded ins] plain nf cs show ?thesis
      by (auto simp: q_AccountExists_def q_RowsAffected_def list_ex_find_account dest!: db_fail_Some
          split: option.splits sum.splits if_splits)
  qed
qed

section \<open>The views after a write\<close>

lemma balance_with_row:
  "balance_of (with_row e t d) a =
     balance_of d a + (if a = t_AccountID t then signed_points (t_Kind t) (t_Points t) else 0)"
  by (simp add: balance_of_def with_row_def new_row_def row_points_signed)

lemma held_with_row:
  "find_txn d (t_Ref t) = None \<Longrightarrow>
     held_txn (with_row e t d) = (held_txn d)(t_Ref t \<mapsto> txn_of_row (new_row e t d))"
  by (auto simp: held_txn_def find_txn_with_row fun_eq_iff split: option.splits)

lemma with_row_frame [simp]:
  "accounts (with_row e t d) = accounts d" "audit_log (with_row e t d) = audit_log d"
  "audit_seq (with_row e t d) = audit_seq d"
  by (simp_all add: with_row_def)

lemma burned_frame [simp]:
  "accounts (burned e d) = accounts d" "transactions (burned e d) = transactions d"
  "audit_log (burned e d) = audit_log d" "audit_seq (burned e d) = audit_seq d"
  by (simp_all add: burned_def)

lemma find_account_frame: "accounts d' = accounts d \<Longrightarrow> find_account d' = find_account d"
  by (simp add: find_account_def fun_eq_iff)

lemma credential_frame: "accounts d' = accounts d \<Longrightarrow> credential d' = credential d"
  by (simp add: credential_def find_account_def fun_eq_iff)

lemma view_frame:
  "transactions d' = transactions d \<Longrightarrow> same_view held_txn balance_of d d'"
  by (simp add: same_view_def held_txn_def find_txn_def balance_of_def fun_eq_iff)

lemma new_row_stored:
  "t_Ref (txn_of_row (new_row e t d)) = t_Ref t" "t_AccountID (txn_of_row (new_row e t d)) = t_AccountID t"
  "t_Kind (txn_of_row (new_row e t d)) = t_Kind t" "t_Points (txn_of_row (new_row e t d)) = t_Points t"
  "t_Reward (txn_of_row (new_row e t d)) = t_Reward t"
  by (simp_all add: txn_of_row_def new_row_def null_string_def)

lemma took_with_row:
  assumes "insertable e t d" and "deducts t \<longrightarrow> 0 \<le> balance_of (with_row e t d) (t_AccountID t)"
  shows "took held_txn balance_of t (txn_of_row (new_row e t d)) d (with_row e t d)"
proof -
  have "held_txn d (t_Ref t) = None" and free: "find_txn d (t_Ref t) = None"
    using assms(1) by (auto simp: insertable_def held_txn_def)
  moreover have "balance_of (with_row e t d) = (balance_of d)(t_AccountID t :=
      balance_of d (t_AccountID t) + signed_points (t_Kind t) (t_Points t))"
    by (simp add: fun_eq_iff balance_with_row)
  moreover have "t_Kind t = KindEarn \<or> 0 \<le> balance_of (with_row e t d) (t_AccountID t)"
    using assms by (auto simp: insertable_def deducts_def)
  ultimately show ?thesis
    using assms(1) held_with_row [OF free] by (simp add: took_def new_row_stored insertable_def)
qed

section \<open>Every write keeps the invariant\<close>

lemma txn_row_ok_mono:
  "\<lbrakk>txn_row_ok d r; txn_seq d \<le> txn_seq d'; accounts d' = accounts d\<rbrakk> \<Longrightarrow> txn_row_ok d' r"
  by (simp add: txn_row_ok_def)

lemma db_ok_burned:
  assumes "db_ok d" and "txn_seq d + 1 + int (id_gap e) \<le> max_int64"
  shows "db_ok (burned e d)"
proof -
  have "list_all (txn_row_ok (burned e d)) (transactions d)"
    using assms(1) txn_row_ok_mono [of d _ "burned e d"]
    by (auto simp: db_ok_def txns_ok_def list_all_iff burned_def)
  then show ?thesis
    using assms by (simp add: db_ok_def accounts_ok_def txns_ok_def audit_ok_def) (simp add: burned_def)
qed

lemma db_ok_with_row:
  assumes "db_ok d" and ins: "insertable e t d"
  shows "db_ok (with_row e t d)"
proof -
  let ?d = "with_row e t d"
  have tx: "transactions ?d = transactions d @ [new_row e t d]"
    and seq: "txn_seq ?d = txn_seq d + 1 + int (id_gap e)" by (simp_all add: with_row_def)
  have ok: "txns_ok d" using assms(1) by (simp add: db_ok_def)
  have "list_all (txn_row_ok ?d) (transactions d)"
    using ok txn_row_ok_mono [of d _ ?d] by (auto simp: txns_ok_def list_all_iff seq)
  moreover have "txn_row_ok ?d (new_row e t d)"
    using ins ok by (auto simp: txn_row_ok_def insertable_def new_row_def kind_consts seq
        list_ex_find_account txns_ok_def)
  moreover have "tr_ref (new_row e t d) \<notin> tr_ref ` set (transactions d)"
    using ins by (simp add: insertable_def find_txn_def find_None_key new_row_def)
  moreover have "\<forall>r \<in> set (transactions d). tr_id r < tr_id (new_row e t d)"
    using ok by (auto simp: txns_ok_def list_all_iff txn_row_ok_def new_row_def)
  ultimately have "txns_ok ?d"
    using ok ins by (auto simp: txns_ok_def tx seq sorted_wrt_append insertable_def)
  then show ?thesis using assms(1) by (simp add: db_ok_def accounts_ok_def audit_ok_def)
qed

lemma db_ok_RecordTransaction:
  assumes "db_ok d" and "st_RecordTransaction e t d = (r, d')"
  shows "db_ok d'"
  using st_RecordTransaction_outcome [OF assms(2)]
  by cases (use assms(1) db_ok_with_row db_ok_burned in auto)

text \<open>Appending to the audit log.\<close>

definition new_audit_row :: "env \<Rightarrow> audit_entry \<Rightarrow> db \<Rightarrow> audit_row" where
  "new_audit_row e x d =
     \<lparr>lr_id = audit_seq d + 1 + int (id_gap e), lr_ref = ae_Ref x, lr_account = ae_AccountID x,
      lr_kind = ae_Kind x, lr_points = ae_Points x, lr_outcome = ae_Outcome x,
      lr_reason = ae_Reason x, lr_created = now_text e\<rparr>"

definition with_audit :: "env \<Rightarrow> audit_entry \<Rightarrow> db \<Rightarrow> db" where
  "with_audit e x d =
     d\<lparr>audit_log := audit_log d @ [new_audit_row e x d], audit_seq := audit_seq d + 1 + int (id_gap e)\<rparr>"

lemma with_audit_frame [simp]:
  "accounts (with_audit e x d) = accounts d" "transactions (with_audit e x d) = transactions d"
  "txn_seq (with_audit e x d) = txn_seq d"
  by (simp_all add: with_audit_def)

lemma st_AppendAudit_cases:
  assumes "st_AppendAudit e x d = (r, d')"
  shows "(\<exists>err. r = Inl err \<and> d' = d) \<or>
    (d' = with_audit e x d \<and> valid_outcome (ae_Outcome x) \<and> audit_seq d + 1 + int (id_gap e) \<le> max_int64
      \<and> (r = Inr (auditFromRow (new_audit_row e x d)) \<or> (\<exists>err. r = Inl err \<and> \<not> quiet e)))"
  using assms
  by (auto simp: st_AppendAudit_def q_AppendAuditEntry_def Let_def with_audit_def new_audit_row_def
      valid_outcome_def outcome_consts not_less dest: db_fail_lands split: option.splits if_splits)

lemma db_ok_with_audit:
  assumes "db_ok d" and "valid_outcome (ae_Outcome x)" and "audit_seq d + 1 + int (id_gap e) \<le> max_int64"
  shows "db_ok (with_audit e x d)"
proof -
  have ok: "audit_ok d" using assms(1) by (simp add: db_ok_def)
  then have "\<forall>r \<in> set (audit_log d). lr_id r < audit_seq d + 1 + int (id_gap e)"
    by (auto simp: audit_ok_def list_all_iff)
  then have "audit_ok (with_audit e x d)"
    using ok assms(2,3)
    by (auto simp: audit_ok_def with_audit_def new_audit_row_def sorted_wrt_append list_all_iff)
  moreover have "txns_ok (with_audit e x d)"
    using assms(1) by (simp add: db_ok_def txns_ok_def txn_row_ok_def list_all_iff)
  ultimately show ?thesis using assms(1) by (simp add: db_ok_def accounts_ok_def)
qed

lemma db_ok_AppendAudit: "db_ok d \<Longrightarrow> st_AppendAudit e x d = (r, d') \<Longrightarrow> db_ok d'"
  by (metis st_AppendAudit_cases db_ok_with_audit)

lemma audit_view_with_audit:
  "audit_view (with_audit e x d) = auditFromRow (new_audit_row e x d) # audit_view d"
  by (simp add: audit_view_def with_audit_def)

lemma audit_view_frame: "audit_log d' = audit_log d \<Longrightarrow> audit_view d' = audit_view d"
  by (simp add: audit_view_def)

section \<open>The store meets the contracts\<close>

interpretation ledger: txn_contract store_txns quiet db_ok held_txn balance_of
proof (unfold_locales, unfold store_txns_def txn_repository.simps)
  fix d e t r d' assume "db_ok d" "st_RecordTransaction e t d = (r, d')"
  then show "db_ok d'" by (rule db_ok_RecordTransaction)
next
  fix d e t u d' assume "db_ok d" "st_RecordTransaction e t d = (Inr (u, True), d')"
  from st_RecordTransaction_outcome [OF this(2)]
  show "took held_txn balance_of t u d d'" by cases (simp_all add: took_with_row)
next
  fix d e t u d' assume "db_ok d" "st_RecordTransaction e t d = (Inr (u, False), d')"
  from st_RecordTransaction_outcome [OF this(2)]
  show "held_txn d (t_Ref t) = Some u \<and> same_view held_txn balance_of d d'"
    by cases (simp_all add: held_txn_def view_frame)
next
  fix d e t err d' assume "db_ok d" "st_RecordTransaction e t d = (Inl err, d')"
  from st_RecordTransaction_outcome [OF this(2)]
  show "same_view held_txn balance_of d d' \<or> (\<not> quiet e \<and> (\<exists>u. took held_txn balance_of t u d d'))"
    by cases (blast intro: view_frame burned_frame took_with_row)+
next
  fix d e t err d' assume "db_ok d" "st_RecordTransaction e t d = (Inl err, d')"
    and err: "errors_is err ErrInsufficientBalance"
  from st_RecordTransaction_outcome [OF this(2)]
  show "same_view held_txn balance_of d d' \<and> held_txn d (t_Ref t) = None
      \<and> balance_of d (t_AccountID t) + signed_points (t_Kind t) (t_Points t) < 0"
    by cases (use err in \<open>simp_all add: view_frame held_txn_def insertable_def balance_with_row\<close>)
qed

lemma st_GetCredential_Inr: "st_GetCredential e i d = Inr c \<Longrightarrow> credential d i = Some c"
  by (auto simp: st_GetCredential_def q_GetAccountCredential_def credential_def ParseRole_Inr
      split: option.splits sum.splits if_splits)

lemma st_GetCredential_value:
  assumes "no_faults e" and "db_ok d" and "credential d i = Some c"
  shows "st_GetCredential e i d = Inr c"
proof -
  obtain r where r: "find_account d i = Some r" and c: "c = (null_string (ar_hash r), ar_role r)"
    using assms(3) by (auto simp: credential_def)
  have "ar_role r = RoleMember \<or> ar_role r = RoleAdmin"
    using assms(2) find_account_id [OF r]
    by (auto simp: db_ok_def accounts_ok_def list_all_iff role_consts)
  then have "ParseRole (ar_role r) = Inr (ar_role r)" by (simp add: ParseRole_Inr)
  then show ?thesis
    using assms(1) by (simp add: st_GetCredential_def q_GetAccountCredential_def r c)
qed

interpretation credentials: account_contract store_accounts quiet db_ok credential
proof (unfold_locales, unfold store_accounts_def account_repository.simps)
  fix d e a h r d' assume "db_ok d" "st_CreateAccount e a h d = (r, d')"
  then show "db_ok d'" by (rule db_ok_CreateAccount)
next
  fix d e a h d' assume "st_CreateAccount e a h d = (None, d')"
  from st_CreateAccount_cases [OF this] show "opened credential (acc_ID a) h d d'"
    by (auto simp: opened_def credential_with_account) (simp add: credential_def)
next
  fix d e a h err d' assume "st_CreateAccount e a h d = (Some err, d')"
  from st_CreateAccount_cases [OF this]
  show "credential d' = credential d \<or> (\<not> quiet e \<and> opened credential (acc_ID a) h d d')"
    by (auto simp: opened_def credential_with_account) (simp add: credential_def)
next
  fix d e i c assume "st_GetCredential e i d = Inr c"
  then show "credential d i = Some c" by (rule st_GetCredential_Inr)
qed

lemma st_ListAudit_Inr:
  assumes "db_ok d" and "st_ListAudit e a d = Inr ys"
  shows "ys = (if a = [] then audit_view d else filter (\<lambda>y. ae_AccountID y = a) (audit_view d))"
proof -
  have ids: "sorted_wrt (<) (map lr_id (audit_log d))"
    using assms(1) by (simp add: db_ok_def audit_ok_def)
  then have "sort_desc lr_id (audit_log d) = rev (audit_log d)"
    and "sort_desc lr_id (filter (\<lambda>r. lr_account r = a) (audit_log d))
       = rev (filter (\<lambda>r. lr_account r = a) (audit_log d))"
    by (metis sort_desc_rev sorted_wrt_less_sorted sorted_wrt_filter_map)+
  with assms(2) show ?thesis
    by (auto simp: st_ListAudit_def q_ListAuditLog_def q_ListAuditLogByAccount_def audit_view_def
        filter_map comp_def auditFromRow_def rev_filter split: option.splits if_splits)
qed

interpretation audit_trail: audit_contract store_audit quiet db_ok audit_view
proof (unfold_locales, unfold store_audit_def audit_repository.simps)
  fix d e x r d' assume "db_ok d" "st_AppendAudit e x d = (r, d')"
  then show "db_ok d'" by (rule db_ok_AppendAudit)
next
  fix d e x y d' assume "st_AppendAudit e x d = (Inr y, d')"
  from st_AppendAudit_cases [OF this]
  show "same_attempt x y \<and> audit_view d' = y # audit_view d"
    by (auto simp: audit_view_with_audit) (simp add: same_attempt_def auditFromRow_def new_audit_row_def)
next
  fix d e x err d' assume "st_AppendAudit e x d = (Inl err, d')"
  from st_AppendAudit_cases [OF this]
  show "audit_view d' = audit_view d
      \<or> (\<not> quiet e \<and> (\<exists>y. same_attempt x y \<and> audit_view d' = y # audit_view d))"
    by (auto simp: audit_view_with_audit) (simp add: same_attempt_def auditFromRow_def new_audit_row_def)
next
  fix d e a ys assume "db_ok d" "st_ListAudit e a d = Inr ys"
  then show "ys = (if a = [] then audit_view d else filter (\<lambda>y. ae_AccountID y = a) (audit_view d))"
    by (rule st_ListAudit_Inr)
qed

text \<open>Balances and listings.\<close>

lemma st_Balance_Inr:
  "st_Balance e i d = Inr b \<Longrightarrow> sint b = balance_of d i \<and> find_account d i \<noteq> None"
  by (auto simp: st_Balance_def q_AccountExists_def list_ex_find_account dest: q_BalanceForAccount_Inr
      split: option.splits sum.splits if_splits)

lemma account_sum_sint: "account_sum d a = Some b \<Longrightarrow> sint (word_of_int b :: int64) = balance_of d a"
  using account_sum_exact by metis

lemma balance_rows_Some:
  "balance_rows d rs = Some xs \<Longrightarrow>
     map br_id xs = map ar_id rs \<and> map br_role xs = map ar_role rs \<and>
     (\<forall>x \<in> set xs. sint (br_balance x) = balance_of d (br_id x))"
  by (induction rs arbitrary: xs) (auto simp: account_sum_sint split: option.splits)

lemma summaries_Inr:
  "summaries rows = Inr xs \<Longrightarrow>
     map as_ID xs = map br_id rows \<and> map as_Role xs = map br_role rows \<and>
     map as_Balance xs = map br_balance rows \<and> map as_Name xs = map br_name rows"
  by (induction rows arbitrary: xs) (auto simp: ParseRole_Inr split: sum.splits)

lemma st_ListAccounts_Inr:
  assumes "st_ListAccounts e d = Inr xs"
  shows "map as_ID xs = map ar_id (sort_key ar_id (accounts d))
    \<and> map as_Role xs = map ar_role (sort_key ar_id (accounts d))
    \<and> (\<forall>x \<in> set xs. sint (as_Balance x) = balance_of d (as_ID x))"
proof -
  obtain rows where rows: "balance_rows d (sort_key ar_id (accounts d)) = Some rows"
    and xs: "summaries rows = Inr xs"
    using assms by (auto simp: st_ListAccounts_def q_ListAccountsWithBalance_def
        split: option.splits sum.splits)
  note br = balance_rows_Some [OF rows] and sm = summaries_Inr [OF xs]
  have "sint (as_Balance x) = balance_of d (as_ID x)" if "x \<in> set xs" for x
  proof -
    from that obtain i where i: "i < length xs" "x = xs ! i" by (auto simp: in_set_conv_nth)
    have len: "length rows = length xs" using sm by (metis length_map)
    then have "as_ID x = br_id (rows ! i)" "as_Balance x = br_balance (rows ! i)"
      using sm i by (metis nth_map)+
    moreover have "rows ! i \<in> set rows" using i len by simp
    ultimately show ?thesis using br by simp
  qed
  then show ?thesis using br sm by simp
qed

lemma st_ListAccounts_known:
  assumes "st_ListAccounts e d = Inr xs" and "x \<in> set xs"
  shows "find_account d (as_ID x) \<noteq> None"
proof -
  have "as_ID x \<in> set (map as_ID xs)" using assms(2) by simp
  then have "as_ID x \<in> ar_id ` set (accounts d)"
    using st_ListAccounts_Inr [OF assms(1)] by (metis set_map set_sort)
  then show ?thesis by (simp add: find_account_def find_None_key)
qed

lemma st_CreateAccount_frame:
  assumes "st_CreateAccount e a h d = (r, d')"
  shows "same_view held_txn balance_of d d'"
  using st_CreateAccount_cases [OF assms] by (elim disjE conjE) (simp_all add: view_frame)

lemma st_RecordTransaction_frame:
  assumes "st_RecordTransaction e t d = (r, d')"
  shows "credential d' = credential d"
  using st_RecordTransaction_outcome [OF assms]
  by cases (simp_all add: credential_frame [OF with_row_frame(1)] credential_frame [OF burned_frame(1)])

lemma st_RecordTransaction_known:
  assumes "st_RecordTransaction e t d = (Inr p, d')"
  shows "find_account d (t_AccountID t) \<noteq> None"
  using st_RecordTransaction_outcome [OF assms] by cases (simp_all add: insertable_def)

lemma credential_known: "credential d i = None \<longleftrightarrow> find_account d i = None"
  by (simp add: credential_def)

interpretation wallet_db: wallet_contract store_txns quiet db_ok held_txn balance_of store_accounts credential
proof (intro wallet_contract.intro wallet_contract_axioms.intro)
  show "txn_contract store_txns quiet db_ok held_txn balance_of" ..
  show "account_contract store_accounts quiet db_ok credential" ..
qed (simp_all add: store_txns_def store_accounts_def credential_known st_CreateAccount_frame
    st_RecordTransaction_frame st_RecordTransaction_known st_Balance_Inr st_ListAccounts_Inr
    st_ListAccounts_known)

lemma st_RecordTransaction_log:
  assumes "st_RecordTransaction e t d = (r, d')"
  shows "audit_view d' = audit_view d"
  using st_RecordTransaction_outcome [OF assms]
  by cases (simp_all add: audit_view_def)

lemma st_CreateAccount_log:
  assumes "st_CreateAccount e a h d = (r, d')"
  shows "audit_view d' = audit_view d"
  using st_CreateAccount_cases [OF assms] by (elim disjE conjE) (simp_all add: audit_view_def)

lemma st_AppendAudit_view:
  assumes "st_AppendAudit e x d = (r, d')"
  shows "same_view held_txn balance_of d d' \<and> credential d' = credential d"
proof -
  have "accounts d' = accounts d" "transactions d' = transactions d"
    using st_AppendAudit_cases [OF assms] by auto
  then show ?thesis using view_frame [of d' d] credential_frame [of d' d] by simp
qed

end
