(* ===== verification/Ledger.thy ===== *)
theory Ledger
  imports Store
begin

text \<open>
  What the store promises, without SQL: a ledger is the accounts that exist, the transaction held
  under each reference and the balance of each account. Recording a transaction there is four
  lines; the refinement theorem says that the store's insert-first transaction with its guard,
  rollback and re-read computes the same result on the abstraction of the database, whenever no
  database call fails, row ids are left, and the points an account ever earned fit in 64 bits.

  Below it: the same side condition makes every balance readable, and the listing of an account's
  transactions is complete, scoped to the account and newest first.
\<close>

section \<open>The abstract ledger\<close>

record ledger =
  lg_known :: "string \<Rightarrow> bool"
  lg_held :: "string \<Rightarrow> txn option"
  lg_bal :: "string \<Rightarrow> int"

datatype ledger_result = LUnknown | LReplay txn | LShort | LNew txn

text \<open>The stored transaction is the given one, its time cut to what RFC 3339 seconds can say.\<close>

definition stored_txn :: "txn \<Rightarrow> txn" where
  "stored_txn t = t\<lparr>t_OccurredAt := parse_or_zero (Format (t_OccurredAt t))\<rparr>"

definition ledger_record :: "txn \<Rightarrow> ledger \<Rightarrow> ledger_result \<times> ledger" where
  "ledger_record t L =
     (if \<not> lg_known L (t_AccountID t) then (LUnknown, L)
      else case lg_held L (t_Ref t) of
             Some u \<Rightarrow> (LReplay u, L)
           | None \<Rightarrow>
               let b = lg_bal L (t_AccountID t) + signed_points (t_Kind t) (t_Points t)
               in if b < 0 then (LShort, L)
                  else (LNew (stored_txn t),
                        L\<lparr>lg_held := (lg_held L)(t_Ref t \<mapsto> stored_txn t),
                          lg_bal := (lg_bal L)(t_AccountID t := b)\<rparr>))"

fun result_of :: "ledger_result \<Rightarrow> goerr + txn \<times> bool" where
  "result_of LUnknown = Inl (Sentinel ErrNotFound)"
| "result_of (LReplay u) = Inr (u, False)"
| "result_of LShort = Inl (Sentinel ErrInsufficientBalance)"
| "result_of (LNew u) = Inr (u, True)"

definition abs_db :: "db \<Rightarrow> ledger" where
  "abs_db d =
     \<lparr>lg_known = (\<lambda>a. find_account d a \<noteq> None), lg_held = held_txn d, lg_bal = balance_of d\<rparr>"

section \<open>Sums that stay in range\<close>

definition earned :: "db \<Rightarrow> string \<Rightarrow> int" where
  "earned d a = sum_list (map (\<lambda>r. max 0 (row_points r)) (filter (\<lambda>r. tr_account r = a) (transactions d)))"

lemma sum64_in_range:
  assumes "acc + sum_list (map (max 0) xs) \<le> max_int64" and "- max_int64 \<le> acc + sum_list (map (min 0) xs)"
  shows "sum64 acc xs = Some (acc + sum_list xs)"
  using assms
proof (induction xs arbitrary: acc)
  case Nil
  then show ?case by simp
next
  case (Cons x xs)
  have pos: "0 \<le> sum_list (map (max 0) xs)" and neg: "sum_list (map (min 0) xs) \<le> 0"
    by (induction xs) auto
  have hi: "acc + max 0 x + sum_list (map (max 0) xs) \<le> max_int64"
    and lo: "- max_int64 \<le> acc + min 0 x + sum_list (map (min 0) xs)"
    using Cons.prems by (simp_all add: add.assoc)
  have x: "x \<le> max 0 x" "min 0 x \<le> x" by simp_all
  have "acc + x \<le> max_int64" and "- max_int64 \<le> acc + x"
    using hi lo pos neg x by linarith+
  then have "fits64 (acc + x)" by (simp add: fits64_def max_int64_def)
  moreover have "sum64 (acc + x) xs = Some (acc + x + sum_list xs)"
    using hi lo x by (intro Cons.IH) linarith+
  ultimately show ?case by (simp add: add.assoc)
qed

lemma sum_pos_neg: "sum_list (xs :: int list) = sum_list (map (max 0) xs) + sum_list (map (min 0) xs)"
  by (induction xs) (auto simp: max_def min_def)

lemma account_sum_in_range:
  assumes "earned d a \<le> max_int64" and "- max_int64 \<le> balance_of d a - earned d a"
  shows "account_sum d a = Some (balance_of d a)"
proof -
  let ?xs = "map row_points (filter (\<lambda>r. tr_account r = a) (transactions d))"
  have "sum_list (map (max 0) ?xs) = earned d a" by (simp add: earned_def comp_def)
  then show ?thesis
    using sum64_in_range [of 0 ?xs] assms sum_pos_neg [of ?xs]
    by (simp add: account_sum_def balance_of_def)
qed

lemma account_sum_solvent:
  "\<lbrakk>solvent d; earned d a \<le> max_int64\<rbrakk> \<Longrightarrow> account_sum d a = Some (balance_of d a)"
  by (rule account_sum_in_range) (auto simp: solvent_def dest: spec [of _ a])

lemma earned_with_row:
  "earned (with_row e t d) a =
     earned d a + (if a = t_AccountID t then max 0 (signed_points (t_Kind t) (t_Points t)) else 0)"
  by (simp add: earned_def with_row_def new_row_def row_points_signed)

lemma earned_nonneg: "0 \<le> earned d a"
  unfolding earned_def by (rule sum_list_map_filter_nonneg) simp

section \<open>Refinement\<close>

definition recordable :: "env \<Rightarrow> txn \<Rightarrow> db \<Rightarrow> bool" where
  "recordable e t d \<longleftrightarrow> no_faults e
     \<and> (t_Kind t = KindEarn \<or> t_Kind t = KindSpend \<or> t_Kind t = KindRedeem) \<and> 0 < sint (t_Points t)
     \<and> txn_seq d + 1 + int (id_gap e) \<le> max_int64
     \<and> earned d (t_AccountID t) + sint (t_Points t) \<le> max_int64"

lemma st_RecordTransaction_unknown:
  "\<lbrakk>no_faults e; find_account d (t_AccountID t) = None\<rbrakk>
     \<Longrightarrow> st_RecordTransaction e t d = (Inl (Sentinel ErrNotFound), d)"
  by (simp add: st_RecordTransaction_def q_AccountExists_def list_ex_find_account)

lemma st_RecordTransaction_finish:
  assumes "no_faults e" and "find_account d (t_AccountID t) \<noteq> None"
    and "q_InsertTransaction e (insert_params_of t) d = (Inr n, tx)"
  shows "st_RecordTransaction e t d = finish_tx e t n tx d"
  using assms
  by (simp add: st_RecordTransaction_def finish_tx_def q_AccountExists_def list_ex_find_account
      q_RowsAffected_def)

lemma q_InsertTransaction_fresh:
  assumes "recordable e t d" and "find_account d (t_AccountID t) \<noteq> None" and "find_txn d (t_Ref t) = None"
  shows "q_InsertTransaction e (insert_params_of t) d = (Inr 1, with_row e t d)" and "insertable e t d"
  using assms
  by (auto simp: recordable_def q_InsertTransaction_def insert_params_of_def Let_def
      list_ex_find_account list_ex_find_txn kind_consts with_row_def new_row_def insertable_def not_less)

lemma q_InsertTransaction_held:
  assumes "recordable e t d" and "find_txn d (t_Ref t) \<noteq> None"
  shows "q_InsertTransaction e (insert_params_of t) d = (Inr 0, burned e d)"
  using assms
  by (auto simp: recordable_def q_InsertTransaction_def insert_params_of_def Let_def
      list_ex_find_txn kind_consts burned_def not_less)

lemma overdraft_guard_value:
  assumes rec: "recordable e t d" and sol: "solvent d"
  shows "overdraft_guard e t 1 (with_row e t d) =
    (if balance_of (with_row e t d) (t_AccountID t) < 0 then Some (Sentinel ErrInsufficientBalance) else None)"
proof -
  let ?a = "t_AccountID t"
  let ?p = "signed_points (t_Kind t) (t_Points t)"
  have p: "\<bar>?p\<bar> = sint (t_Points t)" and rng: "earned d ?a + \<bar>?p\<bar> \<le> max_int64"
    using rec by (auto simp: recordable_def signed_points_def)
  have bal: "balance_of (with_row e t d) ?a = balance_of d ?a + ?p"
    and ear: "earned (with_row e t d) ?a = earned d ?a + max 0 ?p"
    by (simp_all add: balance_with_row earned_with_row)
  have b0: "0 \<le> balance_of d ?a" using sol by (simp add: solvent_def)
  have sum: "account_sum (with_row e t d) ?a = Some (balance_of (with_row e t d) ?a)"
    using rng b0 earned_nonneg [of d ?a] by (intro account_sum_in_range) (auto simp: bal ear max_def)
  have nf: "no_faults e" using rec by (simp add: recordable_def)
  show ?thesis
  proof (cases "deducts t")
    case True
    then show ?thesis
      using account_sum_sint [OF sum] nf
      by (simp add: overdraft_guard_def deducts_def q_BalanceForAccount_def sum)
  next
    case False
    then have "?p = sint (t_Points t)" using rec by (auto simp: deducts_def recordable_def signed_points_def)
    then have "0 \<le> balance_of (with_row e t d) ?a" using b0 rec by (simp add: bal recordable_def)
    with False show ?thesis by (auto simp: overdraft_guard_def deducts_def)
  qed
qed

lemma txn_of_new_row: "txn_of_row (new_row e t d) = stored_txn t"
  by (simp add: txn_of_row_def new_row_def stored_txn_def null_string_def)

lemma abs_with_row:
  assumes "find_txn d (t_Ref t) = None"
  shows "abs_db (with_row e t d) = (abs_db d)
    \<lparr>lg_held := (held_txn d)(t_Ref t \<mapsto> stored_txn t),
     lg_bal := (balance_of d)(t_AccountID t :=
        balance_of d (t_AccountID t) + signed_points (t_Kind t) (t_Points t))\<rparr>"
proof -
  have "find_account (with_row e t d) = find_account d"
    by (rule find_account_frame) simp
  moreover have "balance_of (with_row e t d) = (balance_of d)(t_AccountID t :=
        balance_of d (t_AccountID t) + signed_points (t_Kind t) (t_Points t))"
    by (simp add: fun_eq_iff balance_with_row)
  ultimately show ?thesis
    using held_with_row [OF assms] by (simp add: abs_db_def txn_of_new_row)
qed

lemma abs_burned: "abs_db (burned e d) = abs_db d"
  using find_account_frame [of "burned e d" d]
  by (simp add: abs_db_def held_txn_def balance_of_def fun_eq_iff)

lemma record_refines:
  assumes sol: "solvent d" and rec: "recordable e t d"
  shows "(case st_RecordTransaction e t d of (r, d') \<Rightarrow> (r, abs_db d')) =
         (case ledger_record t (abs_db d) of (r, L) \<Rightarrow> (result_of r, L))"
proof -
  have nf: "no_faults e" using rec by (simp add: recordable_def)
  show ?thesis
  proof (cases "find_account d (t_AccountID t) = None")
    case True
    then show ?thesis
      using st_RecordTransaction_unknown [of e d t] nf by (simp add: ledger_record_def abs_db_def)
  next
    case known: False
    show ?thesis
    proof (cases "find_txn d (t_Ref t)")
      case None
      note ins = q_InsertTransaction_fresh [OF rec known None]
      have "find_txn (with_row e t d) (t_Ref t) = Some (new_row e t d)"
        using None by (simp add: find_txn_with_row)
      then show ?thesis
        using nf known None abs_with_row [OF None, of e]
        by (simp add: st_RecordTransaction_finish [OF nf known ins(1)] finish_tx_def
            overdraft_guard_value [OF rec sol] q_GetTransactionByRef_def ledger_record_def Let_def
            balance_with_row txn_of_new_row) (simp add: abs_db_def held_txn_def)
    next
      case (Some row)
      then have ins: "q_InsertTransaction e (insert_params_of t) d = (Inr 0, burned e d)"
        by (intro q_InsertTransaction_held [OF rec]) simp
      show ?thesis
        using nf known Some abs_burned [of e d]
        by (simp add: st_RecordTransaction_finish [OF nf known ins] finish_tx_def overdraft_guard_def
            q_GetTransactionByRef_def ledger_record_def) (simp add: abs_db_def held_txn_def)
    qed
  qed
qed

section \<open>Reading an account\<close>

lemma st_Balance_value:
  assumes "no_faults e" and "solvent d" and "find_account d a \<noteq> None" and "earned d a \<le> max_int64"
  shows "st_Balance e a d = Inr (word_of_int (balance_of d a))"
  using assms account_sum_solvent [OF assms(2,4)]
  by (simp add: st_Balance_def q_AccountExists_def list_ex_find_account q_BalanceForAccount_def)

lemma st_ListTransactions_value:
  assumes "db_ok d" and "st_ListTransactions e a d = Inr xs"
  shows "xs = rev (map (ledger_txn a) (filter (\<lambda>r. tr_account r = a) (transactions d)))"
    and "find_account d a \<noteq> None"
proof -
  have "sorted_wrt (<) (map tr_id (transactions d))"
    using assms(1) by (simp add: db_ok_def txns_ok_def)
  then have "sort_desc tr_id (filter (\<lambda>r. tr_account r = a) (transactions d))
      = rev (filter (\<lambda>r. tr_account r = a) (transactions d))"
    by (metis sort_desc_rev sorted_wrt_less_sorted sorted_wrt_filter_map)
  with assms(2) show "xs = rev (map (ledger_txn a) (filter (\<lambda>r. tr_account r = a) (transactions d)))"
    and "find_account d a \<noteq> None"
    by (auto simp: st_ListTransactions_def q_ListTransactionsByAccount_def q_AccountExists_def
        list_ex_find_account rev_map split: option.splits sum.splits if_splits)
qed

end
