(* ===== verification/System.thy ===== *)
theory System
  imports Router Ledger
begin

text \<open>
  The assembled program: the store wired into the router as \<^verbatim>\<open>run\<close> in
  \<^verbatim>\<open>cmd/gowallet/main.go\<close> does it, one served request as a function on the database, and the
  states the program reaches from the migrated database by serving requests, one after the other,
  each in its own outside world (failing database calls, clock, contents).
\<close>

section \<open>Wiring\<close>

definition store_deps :: "string \<Rightarrow> string \<Rightarrow> int \<Rightarrow> (env, db) deps" where
  "store_deps spec secret ttl =
     \<lparr>dp_Health = st_Ping, dp_Accounts = store_accounts, dp_Txns = store_txns, dp_Audit = store_audit,
      dp_SpecYAML = spec, dp_JWTSecret = secret, dp_JWTTTL = ttl\<rparr>"

text \<open>The third-party code and the configuration a process runs with.\<close>

record platform =
  pf_bcrypt :: bcrypt
  pf_jwt :: jwt_lib
  pf_codec :: codec
  pf_edge :: edge
  pf_spec :: string
  pf_secret :: string
  pf_ttl :: int

definition wallet_server :: "platform \<Rightarrow> (env, db) server" where
  "wallet_server pf = server_of (pf_bcrypt pf) (pf_jwt pf) (pf_codec pf)
     (store_deps (pf_spec pf) (pf_secret pf) (pf_ttl pf))"

text \<open>\<open>None\<close>: the router did not start.\<close>

definition serve :: "platform \<Rightarrow> env world \<Rightarrow> request \<Rightarrow> db \<Rightarrow> (response \<times> db) option" where
  "serve pf wo r d =
     (case NewRouter (pf_bcrypt pf) (pf_jwt pf) (pf_codec pf) (pf_edge pf)
             (store_deps (pf_spec pf) (pf_secret pf) (pf_ttl pf)) wo of
        Inl m \<Rightarrow> None
      | Inr f \<Rightarrow> Some (f r d))"

inductive reaches :: "platform \<Rightarrow> db \<Rightarrow> bool" for pf where
  start: "reaches pf (seed_db now)"
| request: "reaches pf d \<Longrightarrow> serve pf wo r d = Some (p, d') \<Longrightarrow> reaches pf d'"

inductive_cases reachesE: "reaches pf d"

section \<open>One request\<close>

interpretation api_db: api_contract store_txns quiet db_ok held_txn balance_of store_accounts credential
  store_audit audit_view
proof (intro api_contract.intro api_contract_axioms.intro)
  show "wallet_contract store_txns quiet db_ok held_txn balance_of store_accounts credential" ..
  show "audit_contract store_audit quiet db_ok audit_view" ..
qed (simp_all add: store_txns_def store_accounts_def store_audit_def st_RecordTransaction_log
    st_CreateAccount_log st_AppendAudit_view)

lemma wired_store: "wired (wallet_server pf) store_txns store_accounts store_audit"
  by (simp add: wired_def wallet_server_def server_of_def store_deps_def)

lemma wallet_server_simps [simp]:
  "sv_txns (wallet_server pf) = store_txns" "sv_accounts (wallet_server pf) = store_accounts"
  "sv_audit (wallet_server pf) = store_audit" "sv_health (wallet_server pf) = st_Ping"
  "sv_bcrypt (wallet_server pf) = pf_bcrypt pf" "sv_jwt (wallet_server pf) = pf_jwt pf"
  "sv_codec (wallet_server pf) = pf_codec pf" "sv_jwtSecret (wallet_server pf) = pf_secret pf"
  "sv_jwtTTL (wallet_server pf) = pf_ttl pf"
  by (simp_all add: wallet_server_def server_of_def store_deps_def)

lemma store_repo_simps [simp]:
  "repo_RecordTransaction (store_txns e) = st_RecordTransaction e"
  "repo_CreateAccount (store_accounts e) = st_CreateAccount e"
  "repo_GetAccount (store_accounts e) = st_GetAccount e"
  "repo_Balance (store_accounts e) = st_Balance e"
  "repo_GetCredential (store_accounts e) = st_GetCredential e"
  "repo_ListAccounts (store_accounts e) = st_ListAccounts e"
  "repo_ListTransactions (store_accounts e) = st_ListTransactions e"
  "repo_AppendAudit (store_audit e) = st_AppendAudit e"
  "repo_ListAudit (store_audit e) = st_ListAudit e"
  by (simp_all add: store_txns_def store_accounts_def store_audit_def)

definition proven :: "platform \<Rightarrow> env world \<Rightarrow> request \<Rightarrow> identity option" where
  "proven pf wo r = proven_identity (pf_jwt pf) (wo_now wo) (pf_secret pf) r"

lemma serve_keeps:
  assumes "serve pf wo r d = Some (p, d')"
  shows "keeps db_ok held_txn balance_of credential audit_view
    (may_reach (pf_jwt pf) (wo_now wo) (pf_secret pf) r) d d'"
proof -
  obtain f where f: "NewRouter (pf_bcrypt pf) (pf_jwt pf) (pf_codec pf) (pf_edge pf)
      (store_deps (pf_spec pf) (pf_secret pf) (pf_ttl pf)) wo = Inr f" and "f r d = (p, d')"
    using assms by (auto simp: serve_def split: sum.splits)
  from api_db.served_keeps [OF this wired_store [unfolded wallet_server_def]] show ?thesis
    by (simp add: store_deps_def)
qed

lemma serve_cases:
  assumes "serve pf wo r d = Some (p, d')"
  shows "d' = d \<or> (\<exists>t raw r'. eg_Route (pf_edge pf) routes (initial_request (pf_edge pf) r) = Routed t raw
    \<and> runs_as (pf_jwt pf) (wo_now wo) (pf_secret pf) (initial_request (pf_edge pf) r) r'
    \<and> writes_by (wallet_server pf) wo t r' d p d')"
proof -
  obtain f where f: "NewRouter (pf_bcrypt pf) (pf_jwt pf) (pf_codec pf) (pf_edge pf)
      (store_deps (pf_spec pf) (pf_secret pf) (pf_ttl pf)) wo = Inr f" and "f r d = (p, d')"
    using assms by (auto simp: serve_def split: sum.splits)
  from served_cases [OF this] show ?thesis by (simp add: wallet_server_def store_deps_def)
qed

text \<open>Without an identity the recording handlers write nothing.\<close>

lemma writes_by_anonymous:
  assumes "writes_by sv wo t r s p s'" and "rq_Identity r = None" and "t \<noteq> OpCreateAccount"
  shows "s' = s"
  using assms(1)
proof cases
  case create
  with assms(3) show ?thesis by simp
next
  case transaction
  then show ?thesis using h_CreateTransaction_cases assms(2) by (fastforce simp: may_act_def)
next
  case (redeem a)
  then show ?thesis using h_RedeemPoints_cases assms(2) by (fastforce simp: may_act_def)
next
  case batch
  then show ?thesis
    using assms(2) by (simp add: h_IngestBatch_def requireAdmin_def identityFrom_def)
qed

lemma serve_anonymous:
  assumes run: "serve pf wo r d = Some (p, d')" and chi: "chi_ok (pf_edge pf)"
    and sec: "pf_secret pf \<noteq> []" and anon: "proven pf wo r = None"
  shows "d' = d"
proof -
  let ?r = "initial_request (pf_edge pf) r"
  from serve_cases [OF run] show ?thesis
  proof (elim disjE exE conjE)
    fix t raw r'
    assume rt: "eg_Route (pf_edge pf) routes ?r = Routed t raw"
      and runs: "runs_as (pf_jwt pf) (wo_now wo) (pf_secret pf) ?r r'"
      and wr: "writes_by (wallet_server pf) wo t r' d p d'"
    from runs anon sec have "r' = ?r" and pub: "rq_Path ?r \<in> set publicPaths"
      by (auto simp: runs_as_def proven_def)
    moreover have "t \<noteq> OpCreateAccount" using public_read_only [OF chi pub rt] by auto
    ultimately show "d' = d" using writes_by_anonymous [OF wr] by simp
  qed
qed

section \<open>Every reachable state\<close>

lemma seed_ok: "db_ok (seed_db now)" and seed_solvent: "solvent (seed_db now)"
  by (simp_all add: db_ok_def accounts_ok_def txns_ok_def audit_ok_def seed_db_def solvent_def
      balance_of_def max_int64_def seed_hash_member_def seed_hash_admin_def)

definition sound_db :: "db \<Rightarrow> bool" where
  "sound_db d \<longleftrightarrow> db_ok d \<and> solvent d"

lemma reaches_sound: "reaches pf d \<Longrightarrow> sound_db d"
proof (induction rule: reaches.induct)
  case (start now)
  then show ?case by (simp add: sound_db_def seed_ok seed_solvent)
next
  case (request d wo r p d')
  from serve_keeps [OF request.hyps(2)] request.IH show ?case
    by (simp add: sound_db_def keeps_def solvent_def)
qed

lemma seed_admin: "credential (seed_db now) i = Some (h, RoleAdmin) \<Longrightarrow> i = ''admin-001'' \<and> h = seed_hash_admin"
  by (auto simp: credential_def find_account_def seed_db_def role_consts null_string_def split: if_splits)

lemma reaches_admin:
  "reaches pf d \<Longrightarrow> credential d i = Some (h, RoleAdmin) \<Longrightarrow> i = ''admin-001'' \<and> h = seed_hash_admin"
proof (induction rule: reaches.induct)
  case (start now)
  then show ?case by (rule seed_admin)
next
  case (request d wo r p d')
  have "db_ok d" using reaches_sound [OF request.hyps(1)] by (simp add: sound_db_def)
  with serve_keeps [OF request.hyps(2)] have "evolves held_txn credential audit_view d d'"
    by (simp add: keeps_def)
  with request.prems have "credential d i = Some (h, RoleAdmin)" unfolding evolves_def by blast
  then show ?case by (rule request.IH)
qed

section \<open>The reading handlers on the store\<close>

lemma h_GetBalance_ok:
  assumes "h_GetBalance (wallet_server pf) wo r a d = (p, d')" and "rs_Status p = 200"
  shows "may_act r a \<and> (\<exists>b. rs_Body p = BBalance \<lparr>gb_AccountId = a, gb_Balance = b\<rparr>
    \<and> sint b = balance_of d a \<and> find_account d a \<noteq> None)"
proof -
  have e: "rs_Status (writeDomainError r err) \<noteq> 200" for err
    using writeDomainError_status(1) [of r err] by auto
  obtain b where "may_act r a" and "st_Balance (wo_call wo 0) a d = Inr b"
    and "p = writeJSON [] 200 (BBalance \<lparr>gb_AccountId = a, gb_Balance = b\<rparr>)"
    using assms e by (auto simp: h_GetBalance_def authorizeTarget_eq svc_Balance_def
        split: if_splits sum.splits)
  with st_Balance_Inr [of "wo_call wo 0" a d b] show ?thesis by simp
qed

lemma h_ListTransactions_ok:
  assumes "h_ListTransactions (wallet_server pf) wo r a d = (p, d')" and "rs_Status p = 200"
  shows "may_act r a \<and> (\<exists>xs. rs_Body p = BTransactionList (map ledger_to_wire xs)
    \<and> st_ListTransactions (wo_call wo 0) a d = Inr xs)"
proof -
  have e: "rs_Status (writeDomainError r err) \<noteq> 200" for err
    using writeDomainError_status(1) [of r err] by auto
  show ?thesis
    using assms e by (auto simp: h_ListTransactions_def authorizeTarget_eq svc_ListTransactions_def
        split: if_splits sum.splits)
qed

lemma h_ListAccounts_ok:
  assumes "h_ListAccounts (wallet_server pf) wo r d = (p, d')" and "rs_Status p = 200"
  shows "is_admin r \<and> (\<exists>xs. rs_Body p = BAccountList (map summary_to_wire xs)
    \<and> st_ListAccounts (wo_call wo 0) d = Inr xs)"
proof -
  have e: "rs_Status (writeDomainError r err) \<noteq> 200" for err
    using writeDomainError_status(1) [of r err] by auto
  show ?thesis
    using assms e by (auto simp: h_ListAccounts_def requireAdmin_eq svc_ListAccounts_def
        split: if_splits sum.splits option.splits)
qed

lemma h_ListAudit_ok:
  assumes "h_ListAudit (wallet_server pf) wo r q d = (p, d')" and "rs_Status p = 200"
  shows "is_admin r \<and> (\<exists>xs. rs_Body p = BAuditLog (map auditToWire xs)
    \<and> st_ListAudit (wo_call wo 0) (secret_of q) d = Inr xs)"
proof -
  have e: "rs_Status (writeDomainError r err) \<noteq> 200" for err
    using writeDomainError_status(1) [of r err] by auto
  show ?thesis
    using assms e by (auto simp: h_ListAudit_def requireAdmin_eq svc_List_def secret_of_def Let_def
        split: if_splits sum.splits option.splits)
qed

text \<open>The listed entries of an account add up to its balance.\<close>

lemma ledger_entries_sum:
  "sum_list (map (\<lambda>x. signed_points (le_Kind x) (le_Points x))
     (map ledger_to_wire (rev (map (ledger_txn a) (filter (\<lambda>r. tr_account r = a) (transactions d))))))
   = balance_of d a"
proof -
  have "(\<lambda>r. signed_points (tr_kind r) (tr_points r)) = row_points"
    by (simp add: fun_eq_iff row_points_signed)
  then show ?thesis
    by (simp add: balance_of_def ledger_to_wire_def ledger_txn_def comp_def sum_list_rev rev_map
        flip: rev_map)
qed

lemma held_txn_ref: "held_txn d k = Some u \<Longrightarrow> t_Ref u = k"
  by (auto simp: held_txn_def txn_of_row_def dest: find_txn_ref)

section \<open>The audit entries of a batch\<close>

lemma st_RecordTransaction_audit:
  assumes "st_RecordTransaction e t d = (r, d')"
  shows "audit_log d' = audit_log d \<and> audit_seq d' = audit_seq d"
  using st_RecordTransaction_outcome [OF assms] by cases simp_all

lemma row_step_audit:
  assumes "row_step (wallet_server pf) e rd d = (bx, d1)"
  shows "audit_log d1 = audit_log d \<and> audit_seq d1 = audit_seq d"
proof (cases "d1 = d")
  case False
  obtain b x where bx: "bx = (b, x)" by (cases bx) auto
  obtain c res where "svc_call_step (store_txns e) c d = (res, d1)"
    using row_step_cases [OF assms [unfolded bx]] False by auto
  then have "st_RecordTransaction e (svc_txn c) d = (res, d1)"
    using svc_call_step_cases [of "store_txns e" c d] False by auto
  then show ?thesis by (rule st_RecordTransaction_audit)
qed simp

lemma row_step_outcome:
  assumes "row_step sv e rd s = (bx, s1)"
  shows "valid_outcome (ae_Outcome (snd bx))"
proof -
  obtain b x where bx: "bx = (b, x)" by (cases bx) auto
  have "ae_Outcome x = outcome_of b" using row_step_cases [OF assms [unfolded bx]] by blast
  then show ?thesis by (cases b) (simp_all add: bx outcome_of_def valid_outcome_def)
qed

lemma recordAudit_value:
  assumes "no_faults e" and "valid_outcome (ae_Outcome x)" and "audit_seq d + 1 + int (id_gap e) \<le> max_int64"
  shows "recordAudit (wallet_server pf) e x d = with_audit e x d"
  using assms
  by (auto simp: recordAudit_def svc_Record_def st_AppendAudit_def q_AppendAuditEntry_def Let_def
      with_audit_def new_audit_row_def valid_outcome_def outcome_consts)

definition audit_room :: "env world \<Rightarrow> nat \<Rightarrow> db \<Rightarrow> bool" where
  "audit_room wo n d \<longleftrightarrow> (\<forall>k. no_faults (wo_call wo k) \<and> id_gap (wo_call wo k) = 0)
     \<and> audit_seq d + int n \<le> max_int64"

lemma batch_trace_audit:
  "\<lbrakk>audit_room wo (length reads) d; batch_trace (wallet_server pf) wo k reads d = (tr, d')\<rbrakk>
     \<Longrightarrow> \<exists>ys. audit_view d' = rev ys @ audit_view d \<and> list_all2 same_attempt (map snd tr) ys"
proof (induction reads arbitrary: k d tr)
  case Nil
  then show ?case by simp
next
  case (Cons rd reads)
  obtain bx d1 where step: "row_step (wallet_server pf) (wo_call wo (2 * k)) rd d = (bx, d1)" by fastforce
  let ?e = "wo_call wo (2 * k + 1)"
  let ?d2 = "with_audit ?e (snd bx) d1"
  note same = row_step_audit [OF step]
  have e: "no_faults ?e" "id_gap ?e = 0" and seq: "audit_seq d1 + 1 + int (id_gap ?e) \<le> max_int64"
    using Cons.prems(1) same by (auto simp: audit_room_def)
  have d2: "recordAudit (wallet_server pf) ?e (snd bx) d1 = ?d2"
    by (rule recordAudit_value [OF e(1) row_step_outcome [OF step] seq])
  obtain tr' where tr: "tr = bx # tr'" and rest: "batch_trace (wallet_server pf) wo (Suc k) reads ?d2 = (tr', d')"
    using Cons.prems(2) step d2 by (auto split: prod.splits)
  have room: "audit_room wo (length reads) ?d2"
    using Cons.prems(1) same e(2) by (simp add: audit_room_def with_audit_def)
  obtain ys where ys: "audit_view d' = rev ys @ audit_view ?d2" "list_all2 same_attempt (map snd tr') ys"
    using Cons.IH [OF room rest] by blast
  let ?y = "auditFromRow (new_audit_row ?e (snd bx) d1)"
  have y: "same_attempt (snd bx) ?y"
    by (simp add: same_attempt_def auditFromRow_def new_audit_row_def)
  have "audit_view d1 = audit_view d" using audit_view_frame same by blast
  then have "audit_view d' = rev (?y # ys) @ audit_view d"
    using ys(1) by (simp add: audit_view_with_audit)
  then show ?case using ys(2) y tr by (intro exI [of _ "?y # ys"]) simp
qed

end
