(* ===== verification/Boot.thy ===== *)
theory Boot
  imports System
begin

text \<open>
  Starting the program: the configuration read from the environment (\<open>loadConfig\<close>, \<open>envOr\<close>),
  opening and migrating the database (\<^verbatim>\<open>sqlite.go\<close>) and \<open>run\<close> of \<^verbatim>\<open>cmd/gowallet/main.go\<close>, whose
  wiring is \<open>store_deps\<close>.

  The record \<open>host\<close> holds what the machine decides: the environment variables (empty when unset),
  the reading of a duration text, the driver's answers to opening and pinging, goose's answers, the
  contents of a file, and how listening ended (\<open>None\<close> after a regular close).
\<close>

record host =
  ho_Getenv :: "string \<Rightarrow> string"
  ho_ParseDuration :: "string \<Rightarrow> goerr + int"
  ho_SqlOpen :: "string \<Rightarrow> goerr option"
  ho_SqlPing :: "string \<Rightarrow> goerr option"
  ho_GooseDialect :: "string \<Rightarrow> goerr option"
  ho_GooseUp :: "string \<Rightarrow> goerr option"
  ho_ReadFile :: "string \<Rightarrow> goerr + string"
  ho_Listen :: "string \<Rightarrow> goerr option"

section \<open>Configuration\<close>

record config =
  cfg_addr :: string
  cfg_dbPath :: string
  cfg_specPath :: string
  cfg_jwtSecret :: string
  cfg_jwtTTL :: int

definition envOr :: "host \<Rightarrow> string \<Rightarrow> string \<Rightarrow> string" where
  "envOr ho key fallback = (let v = ho_Getenv ho key in if v \<noteq> [] then v else fallback)"

definition hour :: int where "hour = 3600 * ns_per_second"

definition loadConfig :: "host \<Rightarrow> goerr + config" where
  "loadConfig ho =
     (let secret = ho_Getenv ho ''GOWALLET_JWT_SECRET''
      in if secret = []
         then Inl (ErrorsNew (''GOWALLET_JWT_SECRET is required (HMAC signing secret) ''
                @ [CHR 0xE2, CHR 0x80, CHR 0x94] @ '' refusing to start without it''))
         else
           case (let v = ho_Getenv ho ''GOWALLET_JWT_TTL''
                 in if v \<noteq> [] then ho_ParseDuration ho v else Inr hour) of
             Inl err \<Rightarrow> Inl (Errorf ''GOWALLET_JWT_TTL is not a valid duration (e.g. 1h, 30m)'' err)
           | Inr ttl \<Rightarrow>
               Inr \<lparr>cfg_addr = envOr ho ''GOWALLET_ADDR'' '':8080'',
                    cfg_dbPath = envOr ho ''GOWALLET_DB'' ''gowallet.db'',
                    cfg_specPath = envOr ho ''GOWALLET_SPEC'' ''api/openapi.yaml'',
                    cfg_jwtSecret = secret, cfg_jwtTTL = ttl\<rparr>)"

section \<open>The database\<close>

definition pragmas :: string where
  "pragmas = ''?_pragma=journal_mode(WAL)'' @ ''&_pragma=busy_timeout(5000)''
     @ ''&_pragma=synchronous(NORMAL)'' @ ''&_pragma=foreign_keys(ON)''"

text \<open>The error, or the data source the store was opened on.\<close>

definition Open :: "host \<Rightarrow> string \<Rightarrow> goerr + string" where
  "Open ho path =
     (let dsn = path @ pragmas
      in case ho_SqlOpen ho dsn of
           Some err \<Rightarrow> Inl (Errorf ''open sqlite'' err)
         | None \<Rightarrow> (case ho_SqlPing ho dsn of
                      Some err \<Rightarrow> Inl (Errorf ''ping sqlite'' err)
                    | None \<Rightarrow> Inr dsn))"

definition Migrate :: "host \<Rightarrow> string \<Rightarrow> goerr option" where
  "Migrate ho dsn =
     (case ho_GooseDialect ho ''sqlite3'' of
        Some err \<Rightarrow> Some (Errorf ''goose dialect'' err)
      | None \<Rightarrow> (case ho_GooseUp ho dsn of
                   Some err \<Rightarrow> Some (Errorf ''goose up'' err)
                 | None \<Rightarrow> None))"

section \<open>Run\<close>

text \<open>How the process ends: an error it logs, a panic, or a regular stop after serving with \<open>pf\<close>.\<close>

datatype process_end = Fatal goerr | Crashed string | Stopped platform | Failed platform goerr

definition run_gowallet :: "host \<Rightarrow> platform \<Rightarrow> gotime \<Rightarrow> config \<Rightarrow> process_end" where
  "run_gowallet ho third now cfg =
     (case Open ho (cfg_dbPath cfg) of
        Inl err \<Rightarrow> Fatal err
      | Inr dsn \<Rightarrow>
      (case Migrate ho dsn of
         Some err \<Rightarrow> Fatal err
       | None \<Rightarrow>
       (case ho_ReadFile ho (cfg_specPath cfg) of
          Inl err \<Rightarrow> Fatal err
        | Inr specYAML \<Rightarrow>
            let pf = third\<lparr>pf_spec := specYAML, pf_secret := cfg_jwtSecret cfg, pf_ttl := cfg_jwtTTL cfg\<rparr>
            in case middlewares_of (pf_jwt pf) (pf_edge pf)
                      (store_deps specYAML (cfg_jwtSecret cfg) (cfg_jwtTTL cfg)) now of
                 Inl err \<Rightarrow> Crashed (''httpapi: load spec for validation: '' @ err_text err)
               | Inr mws \<Rightarrow> (case ho_Listen ho (cfg_addr cfg) of
                               Some err \<Rightarrow> Failed pf err
                             | None \<Rightarrow> Stopped pf))))"

definition main_gowallet :: "host \<Rightarrow> platform \<Rightarrow> gotime \<Rightarrow> process_end" where
  "main_gowallet ho third now =
     (case loadConfig ho of Inl err \<Rightarrow> Fatal err | Inr cfg \<Rightarrow> run_gowallet ho third now cfg)"

text \<open>The platform a process served with, if it came to serving.\<close>

fun served_with :: "process_end \<Rightarrow> platform option" where
  "served_with (Stopped pf) = Some pf"
| "served_with (Failed pf err) = Some pf"
| "served_with x = None"

lemma loadConfig_Inr:
  assumes "loadConfig ho = Inr cfg"
  shows "cfg_jwtSecret cfg \<noteq> []" and "cfg_jwtSecret cfg = ho_Getenv ho ''GOWALLET_JWT_SECRET''"
    and "cfg_addr cfg \<noteq> []" and "cfg_dbPath cfg \<noteq> []" and "cfg_specPath cfg \<noteq> []"
  using assms by (auto simp: loadConfig_def envOr_def Let_def split: if_splits sum.splits)

lemma main_served:
  assumes "served_with (main_gowallet ho third now) = Some pf"
  shows "pf_secret pf \<noteq> [] \<and> pf_edge pf = pf_edge third \<and> Migrate ho (cfg_dbPath (projr (loadConfig ho)) @ pragmas) = None"
proof -
  obtain cfg where cfg: "loadConfig ho = Inr cfg" and run: "served_with (run_gowallet ho third now cfg) = Some pf"
    using assms by (auto simp: main_gowallet_def split: sum.splits)
  have "pf_secret pf = cfg_jwtSecret cfg \<and> pf_edge pf = pf_edge third \<and> Migrate ho (cfg_dbPath cfg @ pragmas) = None"
    using run by (auto simp: run_gowallet_def Open_def Let_def split: sum.splits option.splits)
  with loadConfig_Inr(1) [OF cfg] cfg show ?thesis by simp
qed

end
