(* ===== verification/Concurrency.thy ===== *)
theory Concurrency
  imports System
begin

text \<open>
  Concurrent requests on the one connection (\<^verbatim>\<open>SetMaxOpenConns(1)\<close> in \<^verbatim>\<open>sqlite.go\<close>). Every request
  goroutine has one storage job to do. A recording is a sequence of statements: it takes the
  connection at BeginTx, runs its statements on its own transaction and gives the connection back
  at the commit or the rollback. \<^verbatim>\<open>Balance\<close> and \<^verbatim>\<open>ListTransactions\<close> are two statements with nothing held
  in between; everything else is one statement, which needs the free connection for itself. Any
  goroutine that can move may move next.

  The theorem of this theory: whatever the interleaving, the results and the database are those of
  running the finished jobs one after the other, in the order they finished, with the atomic
  methods of \<^verbatim>\<open>Store\<close>; and as long as a job is unfinished some goroutine can move.
\<close>

section \<open>Jobs\<close>

datatype store_op =
    ORecord env txn
  | OCreate env account string
  | OAppend env audit_entry
  | OCredential env string
  | OAccount env string
  | OBalance env string
  | OAccounts env
  | OTransactions env string
  | OAudit env string

datatype store_res =
    RRecord "goerr + txn \<times> bool"
  | RCreate "goerr option"
  | RAppend "goerr + audit_entry"
  | RCredential "goerr + string \<times> string"
  | RAccount "goerr + account"
  | RBalance "goerr + int64"
  | RAccounts "goerr + account_summary list"
  | RTransactions "goerr + txn list"
  | RAudit "goerr + audit_entry list"

fun atomic_op :: "store_op \<Rightarrow> db \<Rightarrow> store_res \<times> db" where
  "atomic_op (ORecord e t) d = (case st_RecordTransaction e t d of (r, d') \<Rightarrow> (RRecord r, d'))"
| "atomic_op (OCreate e a h) d = (case st_CreateAccount e a h d of (r, d') \<Rightarrow> (RCreate r, d'))"
| "atomic_op (OAppend e x) d = (case st_AppendAudit e x d of (r, d') \<Rightarrow> (RAppend r, d'))"
| "atomic_op (OCredential e a) d = (RCredential (st_GetCredential e a d), d)"
| "atomic_op (OAccount e a) d = (RAccount (st_GetAccount e a d), d)"
| "atomic_op (OBalance e a) d = (RBalance (st_Balance e a d), d)"
| "atomic_op (OAccounts e) d = (RAccounts (st_ListAccounts e d), d)"
| "atomic_op (OTransactions e a) d = (RTransactions (st_ListTransactions e a d), d)"
| "atomic_op (OAudit e a) d = (RAudit (st_ListAudit e a d), d)"

fun serial_run :: "store_op list \<Rightarrow> db \<Rightarrow> store_res list \<times> db" where
  "serial_run [] d = ([], d)"
| "serial_run (p # ps) d =
     (case atomic_op p d of (r, d1) \<Rightarrow> (case serial_run ps d1 of (rs, d2) \<Rightarrow> (r # rs, d2)))"

section \<open>The reads of two statements\<close>

text \<open>The existence check, which may already give the answer, and the query that follows it.\<close>

fun exists_check :: "env \<Rightarrow> string \<Rightarrow> db \<Rightarrow> goerr option" where
  "exists_check e a d =
     (case q_AccountExists e a d of
        Inl err \<Rightarrow> Some (Errorf ''account exists'' err)
      | Inr exists \<Rightarrow> if \<not> exists then Some (Sentinel ErrNotFound) else None)"

fun first_read :: "store_op \<Rightarrow> db \<Rightarrow> store_res option" where
  "first_read (OBalance e a) d = map_option (\<lambda>err. RBalance (Inl err)) (exists_check e a d)"
| "first_read (OTransactions e a) d = map_option (\<lambda>err. RTransactions (Inl err)) (exists_check e a d)"
| "first_read p d = None"

fun second_read :: "store_op \<Rightarrow> db \<Rightarrow> store_res" where
  "second_read (OBalance e a) d =
     RBalance (case q_BalanceForAccount e a d of
                 Inl err \<Rightarrow> Inl (Errorf ''balance'' err) | Inr bal \<Rightarrow> Inr bal)"
| "second_read (OTransactions e a) d =
     RTransactions (case q_ListTransactionsByAccount e a d of
                      Inl err \<Rightarrow> Inl (Errorf ''list transactions'' err)
                    | Inr rows \<Rightarrow> Inr (map (ledger_txn a) rows))"
| "second_read p d = fst (atomic_op p d)"

fun reads_twice :: "store_op \<Rightarrow> bool" where
  "reads_twice (OBalance e a) = True"
| "reads_twice (OTransactions e a) = True"
| "reads_twice p = False"

fun records :: "store_op \<Rightarrow> bool" where
  "records (ORecord e t) = True"
| "records p = False"

lemma recordsE: "records p \<Longrightarrow> (\<And>e t. p = ORecord e t \<Longrightarrow> thesis) \<Longrightarrow> thesis"
  by (cases p) auto

lemma atomic_first_read:
  "\<lbrakk>reads_twice p; first_read p d = Some r\<rbrakk> \<Longrightarrow> atomic_op p d = (r, d)"
  by (cases p) (auto simp: st_Balance_def st_ListTransactions_def split: sum.splits if_splits)

lemma atomic_second_read:
  "\<lbrakk>reads_twice p; first_read p d = None\<rbrakk> \<Longrightarrow> atomic_op p d = (second_read p d, d)"
  by (cases p) (auto simp: st_Balance_def st_ListTransactions_def split: sum.splits if_splits)

section \<open>RecordTransaction statement by statement\<close>

text \<open>Where a goroutine stands; from \<open>Began\<close> on it holds the connection until it is \<open>Finished\<close>.\<close>

datatype place =
    Ready | Looked | Began | Exists | Inserted int | Guarded int | Fetched int txn_row | Finished

datatype move =
    Go place db                                  \<comment> \<open>next statement, with the transaction so far\<close>
  | Stop "goerr + txn \<times> bool" "db option"        \<comment> \<open>the result; the committed database, or rolled back\<close>

fun tx_next :: "env \<Rightarrow> txn \<Rightarrow> place \<Rightarrow> db \<Rightarrow> move" where
  "tx_next e t Began tx =
     (case q_AccountExists e (t_AccountID t) tx of
        Inl err \<Rightarrow> Stop (Inl (Errorf ''account exists'' err)) None
      | Inr exists \<Rightarrow> if \<not> exists then Stop (Inl (Sentinel ErrNotFound)) None else Go Exists tx)"
| "tx_next e t Exists tx =
     (case q_InsertTransaction e (insert_params_of t) tx of
        (Inl err, tx') \<Rightarrow> Stop (Inl (Errorf ''insert transaction'' err)) None
      | (Inr res, tx') \<Rightarrow>
          (case q_RowsAffected e res of
             Inl err \<Rightarrow> Stop (Inl (Errorf ''rows affected'' err)) None
           | Inr affected \<Rightarrow> Go (Inserted affected) tx'))"
| "tx_next e t (Inserted affected) tx =
     (case overdraft_guard e t affected tx of
        Some err \<Rightarrow> Stop (Inl err) None
      | None \<Rightarrow> Go (Guarded affected) tx)"
| "tx_next e t (Guarded affected) tx =
     (case q_GetTransactionByRef e (t_Ref t) tx of
        Inl err \<Rightarrow> Stop (Inl (Errorf ''get transaction by ref'' err)) None
      | Inr row \<Rightarrow> Go (Fetched affected row) tx)"
| "tx_next e t (Fetched affected row) tx =
     (case db_fail e CCommit of
        Some err \<Rightarrow> Stop (Inl (Errorf ''commit'' err)) (if lands e CCommit then Some tx else None)
      | None \<Rightarrow> Stop (Inr (txn_of_row row, affected = 1)) (Some tx))"
| "tx_next e t p tx = Go p tx"

definition in_tx :: "place \<Rightarrow> bool" where
  "in_tx p \<longleftrightarrow> p \<noteq> Ready \<and> p \<noteq> Looked \<and> p \<noteq> Finished"

definition settled :: "db option \<Rightarrow> db \<Rightarrow> db" where
  "settled c d = (case c of None \<Rightarrow> d | Some d' \<Rightarrow> d')"

section \<open>The machine\<close>

record machine =
  mc_db :: db
  mc_conn :: "nat option"
  mc_tx :: db
  mc_place :: "nat \<Rightarrow> place"
  mc_log :: "(nat \<times> store_res) list"     \<comment> \<open>finished jobs, oldest first\<close>

definition finish :: "nat \<Rightarrow> store_res \<Rightarrow> db \<Rightarrow> machine \<Rightarrow> machine" where
  "finish i r d m =
     m\<lparr>mc_db := d, mc_place := (mc_place m)(i := Finished), mc_log := mc_log m @ [(i, r)]\<rparr>"

inductive step :: "(nat \<Rightarrow> store_op) \<Rightarrow> machine \<Rightarrow> machine \<Rightarrow> bool" for job where
  begin_fails: "\<lbrakk>mc_place m i = Ready; job i = ORecord e t; db_fail e CBeginTx = Some err\<rbrakk>
    \<Longrightarrow> step job m (finish i (RRecord (Inl (Errorf ''begin tx'' err))) (mc_db m) m)"
| begins: "\<lbrakk>mc_place m i = Ready; job i = ORecord e t; db_fail e CBeginTx = None; mc_conn m = None\<rbrakk>
    \<Longrightarrow> step job m (m\<lparr>mc_conn := Some i, mc_tx := mc_db m, mc_place := (mc_place m)(i := Began)\<rparr>)"
| goes: "\<lbrakk>in_tx (mc_place m i); job i = ORecord e t; tx_next e t (mc_place m i) (mc_tx m) = Go p tx'\<rbrakk>
    \<Longrightarrow> step job m (m\<lparr>mc_tx := tx', mc_place := (mc_place m)(i := p)\<rparr>)"
| stops: "\<lbrakk>in_tx (mc_place m i); job i = ORecord e t; tx_next e t (mc_place m i) (mc_tx m) = Stop r c\<rbrakk>
    \<Longrightarrow> step job m ((finish i (RRecord r) (settled c (mc_db m)) m)\<lparr>mc_conn := None\<rparr>)"
| statement: "\<lbrakk>mc_place m i = Ready; mc_conn m = None; \<not> records (job i); \<not> reads_twice (job i);
      atomic_op (job i) (mc_db m) = (r, d)\<rbrakk>
    \<Longrightarrow> step job m (finish i r d m)"
| turned_away: "\<lbrakk>mc_place m i = Ready; mc_conn m = None; reads_twice (job i);
      first_read (job i) (mc_db m) = Some r\<rbrakk>
    \<Longrightarrow> step job m (finish i r (mc_db m) m)"
| looks: "\<lbrakk>mc_place m i = Ready; mc_conn m = None; reads_twice (job i);
      first_read (job i) (mc_db m) = None\<rbrakk>
    \<Longrightarrow> step job m (m\<lparr>mc_place := (mc_place m)(i := Looked)\<rparr>)"
| answers: "\<lbrakk>mc_place m i = Looked; mc_conn m = None\<rbrakk>
    \<Longrightarrow> step job m (finish i (second_read (job i) (mc_db m)) (mc_db m) m)"

definition initial :: "db \<Rightarrow> machine" where
  "initial d = \<lparr>mc_db = d, mc_conn = None, mc_tx = d, mc_place = (\<lambda>i. Ready), mc_log = []\<rparr>"

inductive executes :: "(nat \<Rightarrow> store_op) \<Rightarrow> db \<Rightarrow> machine \<Rightarrow> bool" for job d where
  start: "executes job d (initial d)"
| more: "executes job d m \<Longrightarrow> step job m m' \<Longrightarrow> executes job d m'"

section \<open>Running one transaction to its end\<close>

fun rank :: "place \<Rightarrow> nat" where
  "rank Ready = 6" | "rank Began = 5" | "rank Exists = 4" | "rank (Inserted n) = 3"
| "rank (Guarded n) = 2" | "rank (Fetched n row) = 1" | "rank Looked = 1" | "rank Finished = 0"

lemma tx_next_rank:
  "tx_next e t p tx = Go p' tx' \<Longrightarrow> in_tx p \<Longrightarrow> rank p' < rank p \<and> in_tx p'"
  by (cases p) (auto simp: in_tx_def split: sum.splits if_splits option.splits prod.splits)

function tx_rest :: "env \<Rightarrow> txn \<Rightarrow> place \<Rightarrow> db \<Rightarrow> db \<Rightarrow> (goerr + txn \<times> bool) \<times> db" where
  "tx_rest e t p tx d =
     (if in_tx p
      then (case tx_next e t p tx of
              Go p' tx' \<Rightarrow> tx_rest e t p' tx' d
            | Stop r c \<Rightarrow> (r, settled c d))
      else (Inl (ErrorsNew []), d))"
  by pat_completeness auto
termination
  by (relation "measure (\<lambda>(e, t, p, tx, d). rank p)") (auto dest: tx_next_rank)

declare tx_rest.simps [simp del]

lemma tx_rest_go:
  "\<lbrakk>in_tx p; tx_next e t p tx = Go p' tx'\<rbrakk> \<Longrightarrow> tx_rest e t p tx d = tx_rest e t p' tx' d"
  by (subst tx_rest.simps) simp

lemma tx_rest_stop:
  "\<lbrakk>in_tx p; tx_next e t p tx = Stop r c\<rbrakk> \<Longrightarrow> tx_rest e t p tx d = (r, settled c d)"
  by (subst tx_rest.simps) simp

lemma tx_rest_Inserted: "tx_rest e t (Inserted n) tx d = finish_tx e t n tx d"
proof (cases "overdraft_guard e t n tx")
  case (Some err)
  then show ?thesis
    using tx_rest_stop [of "Inserted n" e t tx] by (simp add: finish_tx_def in_tx_def settled_def)
next
  case None
  then have g: "tx_rest e t (Inserted n) tx d = tx_rest e t (Guarded n) tx d"
    by (intro tx_rest_go) (simp_all add: in_tx_def)
  show ?thesis
  proof (cases "q_GetTransactionByRef e (t_Ref t) tx")
    case (Inl err)
    then show ?thesis
      using tx_rest_stop [of "Guarded n" e t tx] None by (simp add: g finish_tx_def in_tx_def settled_def)
  next
    case (Inr row)
    then have "tx_rest e t (Guarded n) tx d = tx_rest e t (Fetched n row) tx d"
      by (intro tx_rest_go) (simp_all add: in_tx_def)
    moreover have "tx_rest e t (Fetched n row) tx d =
      (case db_fail e CCommit of
         Some err \<Rightarrow> (Inl (Errorf ''commit'' err), if lands e CCommit then tx else d)
       | None \<Rightarrow> (Inr (txn_of_row row, n = 1), tx))"
      using tx_rest_stop [of "Fetched n row" e t tx]
      by (cases "db_fail e CCommit") (simp_all add: in_tx_def settled_def)
    ultimately show ?thesis using None Inr by (simp add: g finish_tx_def)
  qed
qed

text \<open>From BeginTx on, the statements add up to the atomic method.\<close>

lemma tx_rest_record:
  assumes "db_fail e CBeginTx = None"
  shows "tx_rest e t Began d d = st_RecordTransaction e t d"
proof -
  have eq: "st_RecordTransaction e t d =
    (case q_AccountExists e (t_AccountID t) d of Inl err \<Rightarrow> (Inl (Errorf ''account exists'' err), d)
       | Inr exists \<Rightarrow> if \<not> exists then (Inl (Sentinel ErrNotFound), d)
         else (case q_InsertTransaction e (insert_params_of t) d of
          (Inl err, tx) \<Rightarrow> (Inl (Errorf ''insert transaction'' err), d)
        | (Inr res, tx) \<Rightarrow> (case q_RowsAffected e res of Inl err \<Rightarrow> (Inl (Errorf ''rows affected'' err), d)
           | Inr n \<Rightarrow> finish_tx e t n tx d)))"
    using assms by (simp only: st_RecordTransaction_def finish_tx_def option.case)
  have ex: "tx_rest e t Exists d d = (case q_InsertTransaction e (insert_params_of t) d of
          (Inl err, tx) \<Rightarrow> (Inl (Errorf ''insert transaction'' err), d)
        | (Inr res, tx) \<Rightarrow> (case q_RowsAffected e res of Inl err \<Rightarrow> (Inl (Errorf ''rows affected'' err), d)
           | Inr n \<Rightarrow> finish_tx e t n tx d))"
    by (subst tx_rest.simps)
      (auto simp: in_tx_def settled_def tx_rest_Inserted split: sum.split prod.split)
  show ?thesis
    unfolding eq by (subst tx_rest.simps) (auto simp: in_tx_def settled_def ex split: sum.split)
qed

section \<open>Serialisation\<close>

definition jobs_done :: "(nat \<Rightarrow> store_op) \<Rightarrow> machine \<Rightarrow> store_op list" where
  "jobs_done job m = map (\<lambda>x. job (fst x)) (mc_log m)"

definition serialised :: "(nat \<Rightarrow> store_op) \<Rightarrow> db \<Rightarrow> machine \<Rightarrow> bool" where
  "serialised job d m \<longleftrightarrow> serial_run (jobs_done job m) d = (map snd (mc_log m), mc_db m)"

text \<open>The holder of the connection is the one goroutine inside a transaction, and what it has left to
  do amounts to the atomic method on the database as it is now.\<close>

definition holder_ok :: "(nat \<Rightarrow> store_op) \<Rightarrow> machine \<Rightarrow> bool" where
  "holder_ok job m \<longleftrightarrow>
     (\<forall>i. in_tx (mc_place m i) \<longrightarrow> mc_conn m = Some i) \<and>
     (\<forall>i. mc_conn m = Some i \<longrightarrow> in_tx (mc_place m i) \<and>
        (\<exists>e t. job i = ORecord e t \<and>
           tx_rest e t (mc_place m i) (mc_tx m) (mc_db m) = st_RecordTransaction e t (mc_db m)))"

text \<open>An account found by the first statement is still there for the second.\<close>

definition looked_ok :: "(nat \<Rightarrow> store_op) \<Rightarrow> machine \<Rightarrow> bool" where
  "looked_ok job m \<longleftrightarrow>
     (\<forall>i. mc_place m i = Looked \<longrightarrow> reads_twice (job i) \<and> first_read (job i) (mc_db m) = None)"

definition log_ok :: "machine \<Rightarrow> bool" where
  "log_ok m \<longleftrightarrow> distinct (map fst (mc_log m)) \<and> (\<forall>i. mc_place m i = Finished \<longleftrightarrow> i \<in> fst ` set (mc_log m))"

lemma serial_run_snoc:
  "serial_run (ps @ [p]) d = (case serial_run ps d of (rs, d1) \<Rightarrow>
     (case atomic_op p d1 of (r, d2) \<Rightarrow> (rs @ [r], d2)))"
  by (induction ps arbitrary: d) (auto split: prod.splits)

lemma serialised_finish:
  assumes "serialised job d m" and "atomic_op (job i) (mc_db m) = (r, d')"
  shows "serialised job d (finish i r d' m)"
  using assms by (simp add: serialised_def jobs_done_def finish_def serial_run_snoc)

lemma serialised_frame:
  "\<lbrakk>serialised job d m; mc_log m' = mc_log m; mc_db m' = mc_db m\<rbrakk> \<Longrightarrow> serialised job d m'"
  by (simp add: serialised_def jobs_done_def)

lemma in_tx_simps [simp]: "\<not> in_tx Ready" "\<not> in_tx Looked" "\<not> in_tx Finished" "in_tx Began"
  by (simp_all add: in_tx_def)

lemma log_ok_finish:
  assumes "log_ok m" and "mc_place m i \<noteq> Finished"
  shows "log_ok (finish i r d m)"
  using assms by (auto simp: log_ok_def finish_def)

lemma holder_tx: "\<lbrakk>holder_ok job m; in_tx (mc_place m i)\<rbrakk> \<Longrightarrow> mc_conn m = Some i"
  unfolding holder_ok_def by blast

lemma holder_free: "\<lbrakk>holder_ok job m; mc_conn m = None\<rbrakk> \<Longrightarrow> \<not> in_tx (mc_place m i)"
  unfolding holder_ok_def by force

lemma holder_rest:
  assumes "holder_ok job m" and "mc_conn m = Some i"
  obtains e t where "in_tx (mc_place m i)" and "job i = ORecord e t"
    and "tx_rest e t (mc_place m i) (mc_tx m) (mc_db m) = st_RecordTransaction e t (mc_db m)"
  using assms unfolding holder_ok_def by blast

lemma holder_okI_free:
  "\<lbrakk>mc_conn m = None; \<And>i. \<not> in_tx (mc_place m i)\<rbrakk> \<Longrightarrow> holder_ok job m"
  unfolding holder_ok_def by simp

lemma holder_okI_held:
  "\<lbrakk>mc_conn m = Some k; in_tx (mc_place m k); \<And>i. i \<noteq> k \<Longrightarrow> \<not> in_tx (mc_place m i); job k = ORecord e t;
     tx_rest e t (mc_place m k) (mc_tx m) (mc_db m) = st_RecordTransaction e t (mc_db m)\<rbrakk>
     \<Longrightarrow> holder_ok job m"
  unfolding holder_ok_def by force

lemma holder_alone:
  "\<lbrakk>holder_ok job m; mc_conn m = Some k; i \<noteq> k\<rbrakk> \<Longrightarrow> \<not> in_tx (mc_place m i)"
  using holder_tx by fastforce

text \<open>A goroutine outside a transaction moves and leaves the database alone, or finds the connection free.\<close>

lemma holder_outside:
  assumes ok: "holder_ok job m" and "mc_conn m' = mc_conn m" and "mc_tx m' = mc_tx m"
    and "mc_place m' = (mc_place m)(i := p)" and "\<not> in_tx (mc_place m i)" and "\<not> in_tx p"
    and "mc_conn m = None \<or> mc_db m' = mc_db m"
  shows "holder_ok job m'"
proof (cases "mc_conn m")
  case None
  with assms holder_free [OF ok] show ?thesis by (intro holder_okI_free) simp_all
next
  case (Some k)
  from holder_rest [OF ok Some] obtain e t where k: "in_tx (mc_place m k)" "job k = ORecord e t"
    "tx_rest e t (mc_place m k) (mc_tx m) (mc_db m) = st_RecordTransaction e t (mc_db m)" .
  then have "k \<noteq> i" using assms(5) by blast
  with assms k Some holder_alone [OF ok Some] show ?thesis
    by (intro holder_okI_held [of m' k]) simp_all
qed

lemma step_holder:
  assumes "step job m m'" and "holder_ok job m"
  shows "holder_ok job m'"
  using assms(1)
proof cases
  case (begins i e t)
  with holder_free [OF assms(2)] tx_rest_record show ?thesis
    by (intro holder_okI_held [of m' i job e t]) simp_all
next
  case (goes i e t p tx')
  note c = holder_tx [OF assms(2) goes(2)]
  from holder_rest [OF assms(2) c] goes(3)
  have r: "tx_rest e t (mc_place m i) (mc_tx m) (mc_db m) = st_RecordTransaction e t (mc_db m)" by auto
  have "in_tx p" using tx_next_rank [OF goes(4,2)] by blast
  with goes c r tx_rest_go [OF goes(2,4)] holder_alone [OF assms(2) c] show ?thesis
    by (intro holder_okI_held [of m' i job e t]) simp_all
next
  case (stops i e t r c)
  with holder_alone [OF assms(2) holder_tx [OF assms(2) stops(2)]] show ?thesis
    by (intro holder_okI_free) (simp_all add: finish_def)
qed (use holder_outside [OF assms(2)] in \<open>simp_all add: finish_def\<close>)

lemma stops_atomic:
  assumes "holder_ok job m" and "in_tx (mc_place m i)" and "job i = ORecord e t"
    and "tx_next e t (mc_place m i) (mc_tx m) = Stop r c"
  shows "atomic_op (job i) (mc_db m) = (RRecord r, settled c (mc_db m))"
proof -
  from holder_rest [OF assms(1) holder_tx [OF assms(1,2)]] assms(3)
  have "tx_rest e t (mc_place m i) (mc_tx m) (mc_db m) = st_RecordTransaction e t (mc_db m)" by auto
  then have "st_RecordTransaction e t (mc_db m) = (r, settled c (mc_db m))"
    using tx_rest_stop [OF assms(2,4)] by metis
  then show ?thesis unfolding assms(3) atomic_op.simps by simp
qed

text \<open>Every job leaves the accounts it found.\<close>

lemma atomic_op_accounts:
  assumes "atomic_op p d = (r, d')" and "find_account d a \<noteq> None"
  shows "find_account d' a \<noteq> None"
proof (cases p)
  case (ORecord e t)
  then obtain rr where "st_RecordTransaction e t d = (rr, d')" using assms(1) by (auto split: prod.splits)
  from st_RecordTransaction_frame [OF this] assms(2) show ?thesis by (metis credential_known)
next
  case (OCreate e b h)
  then obtain rr where "st_CreateAccount e b h d = (rr, d')" using assms(1) by (auto split: prod.splits)
  from st_CreateAccount_cases [OF this] assms(2) show ?thesis
    by (elim disjE conjE) (auto simp: find_account_def with_account_def find_None_key)
next
  case (OAppend e x)
  then obtain rr where "st_AppendAudit e x d = (rr, d')" using assms(1) by (auto split: prod.splits)
  from st_AppendAudit_view [OF this] assms(2) show ?thesis by (metis credential_known)
qed (use assms in simp_all)

lemma first_read_None:
  "\<lbrakk>first_read q d = None; \<And>a. find_account d a \<noteq> None \<Longrightarrow> find_account d' a \<noteq> None\<rbrakk>
     \<Longrightarrow> first_read q d' = None"
  by (cases q) (auto simp: q_AccountExists_def list_ex_find_account split: option.splits if_splits)

lemma looked_ok_finish:
  assumes "looked_ok job m" and "atomic_op (job k) (mc_db m) = (r, d')"
  shows "looked_ok job (finish i r' d' m)"
  using assms atomic_op_accounts [OF assms(2)] first_read_None [of _ "mc_db m" d']
  by (auto simp: looked_ok_def finish_def)

lemma looked_ok_frame: "looked_ok job m \<Longrightarrow> looked_ok job (finish i r (mc_db m) m)"
  by (auto simp: looked_ok_def finish_def)

lemma step_looked:
  assumes "step job m m'" and "holder_ok job m" and "looked_ok job m"
  shows "looked_ok job m'"
  using assms(1)
proof cases
  case (goes i e t p tx')
  have "p \<noteq> Looked" using tx_next_rank [OF goes(4,2)] by auto
  with goes assms(3) show ?thesis by (auto simp: looked_ok_def)
next
  case (stops i e t r c)
  from looked_ok_finish [OF assms(3) stops_atomic [OF assms(2) stops(2-4)]] stops(1)
  show ?thesis by (simp add: looked_ok_def)
next
  case (statement i r d)
  from looked_ok_finish [OF assms(3) statement(6)] statement(1) show ?thesis by simp
next
  case (begins i e t)
  with assms(3) show ?thesis by (auto simp: looked_ok_def)
next
  case (looks i)
  with assms(3) show ?thesis by (auto simp: looked_ok_def)
qed (use looked_ok_frame [OF assms(3)] in simp_all)

lemma step_serialised:
  assumes "step job m m'" and "holder_ok job m" and "serialised job d m" and "looked_ok job m"
  shows "serialised job d m'"
  using assms(1)
proof cases
  case (begin_fails i e t err)
  have "atomic_op (job i) (mc_db m) = (RRecord (Inl (Errorf ''begin tx'' err)), mc_db m)"
    using begin_fails by (simp add: st_RecordTransaction_def)
  from serialised_finish [OF assms(3) this] begin_fails(1) show ?thesis by simp
next
  case (begins i e t)
  then show ?thesis using assms(3) by (auto intro: serialised_frame)
next
  case (goes i e t p tx')
  then show ?thesis using assms(3) by (auto intro: serialised_frame)
next
  case (stops i e t r c)
  from serialised_finish [OF assms(3) stops_atomic [OF assms(2) stops(2-4)]] stops(1)
  show ?thesis by (auto intro: serialised_frame)
next
  case (statement i r d')
  from serialised_finish [OF assms(3) statement(6)] statement(1) show ?thesis by simp
next
  case (turned_away i r)
  from serialised_finish [OF assms(3) atomic_first_read [OF turned_away(4,5)]] turned_away(1)
  show ?thesis by simp
next
  case (looks i)
  then show ?thesis using assms(3) by (auto intro: serialised_frame)
next
  case (answers i)
  have "reads_twice (job i)" "first_read (job i) (mc_db m) = None"
    using answers(2) assms(4) by (simp_all add: looked_ok_def)
  from serialised_finish [OF assms(3) atomic_second_read [OF this]] answers(1) show ?thesis by simp
qed

lemma log_ok_move:
  assumes "log_ok m" and "mc_place m i \<noteq> Finished" and "p \<noteq> Finished"
    and "mc_log m' = mc_log m" and "mc_place m' = (mc_place m)(i := p)"
  shows "log_ok m'"
  using assms by (auto simp: log_ok_def)

lemma step_log:
  assumes "step job m m'" and "log_ok m"
  shows "log_ok m'"
  using assms(1)
proof cases
  case (begins i e t)
  then show ?thesis by (intro log_ok_move [OF assms(2), of i Began]) simp_all
next
  case (goes i e t p tx')
  have "p \<noteq> Finished" using tx_next_rank [OF goes(4,2)] by auto
  with goes show ?thesis by (intro log_ok_move [OF assms(2), of i p]) auto
next
  case (stops i e t r c)
  then have "log_ok (finish i (RRecord r) (settled c (mc_db m)) m)"
    using assms(2) by (intro log_ok_finish) auto
  with stops(1) show ?thesis by (simp add: log_ok_def)
next
  case (looks i)
  then show ?thesis by (intro log_ok_move [OF assms(2), of i Looked]) simp_all
qed (use assms(2) in \<open>auto intro: log_ok_finish\<close>)

lemma executes_ok:
  "executes job d m \<Longrightarrow> holder_ok job m \<and> looked_ok job m \<and> serialised job d m \<and> log_ok m"
proof (induction rule: executes.induct)
  case start
  then show ?case by (simp add: holder_ok_def looked_ok_def serialised_def jobs_done_def log_ok_def initial_def)
next
  case (more m m')
  then show ?case using step_holder step_looked step_serialised step_log by blast
qed

text \<open>Nobody waits forever for the connection.\<close>

definition moves :: "(nat \<Rightarrow> store_op) \<Rightarrow> machine \<Rightarrow> nat \<Rightarrow> bool" where
  "moves job m i \<longleftrightarrow> (\<exists>m' p. step job m m' \<and> mc_place m' = (mc_place m)(i := p))"

lemma movesI: "step job m m' \<Longrightarrow> mc_place m' = (mc_place m)(i := p) \<Longrightarrow> moves job m i"
  unfolding moves_def by blast

lemma finish_place [simp]: "mc_place (finish i r d m) = (mc_place m)(i := Finished)"
  by (simp add: finish_def)

lemma ready_moves:
  assumes "mc_conn m = None" and "mc_place m i = Ready"
  shows "moves job m i"
proof -
  consider e t where "job i = ORecord e t" | "reads_twice (job i)"
    | "\<not> records (job i)" "\<not> reads_twice (job i)" by (meson recordsE)
  then show ?thesis
  proof cases
    case (1 e t)
    then show ?thesis
      by (cases "db_fail e CBeginTx") (auto intro: movesI [OF begins] movesI [OF begin_fails] assms)
  next
    case 2
    then show ?thesis
      by (cases "first_read (job i) (mc_db m)")
        (auto intro: movesI [OF looks] movesI [OF turned_away] assms)
  next
    case 3
    obtain r d' where "atomic_op (job i) (mc_db m) = (r, d')" by fastforce
    from movesI [OF statement [where job = job, OF assms(2,1) 3 this]] show ?thesis by simp
  qed
qed

lemma holder_moves:
  assumes "holder_ok job m" and "mc_conn m = Some k"
  shows "moves job m k"
proof -
  from holder_rest [OF assms] obtain e t where k: "in_tx (mc_place m k)" "job k = ORecord e t" by metis
  show ?thesis
  proof (cases "tx_next e t (mc_place m k) (mc_tx m)")
    case (Go p tx')
    from movesI [OF goes [where job = job, OF k this]] show ?thesis by simp
  next
    case (Stop r c)
    from movesI [OF stops [where job = job, OF k this]] show ?thesis by simp
  qed
qed

lemma executes_progress:
  assumes "executes job d m" and "mc_place m i \<noteq> Finished"
  shows "moves job m (case mc_conn m of None \<Rightarrow> i | Some k \<Rightarrow> k)"
proof (cases "mc_conn m")
  case (Some k)
  with holder_moves executes_ok [OF assms(1)] show ?thesis by auto
next
  case None
  have "\<not> in_tx (mc_place m i)" using executes_ok [OF assms(1)] None holder_free by blast
  then consider "mc_place m i = Ready" | "mc_place m i = Looked" using assms(2) by (auto simp: in_tx_def)
  then have "moves job m i"
  proof cases
    case 1
    then show ?thesis by (rule ready_moves [OF None])
  next
    case 2
    from movesI [OF answers [OF 2 None]] show ?thesis by simp
  qed
  then show ?thesis by (simp add: None)
qed

section \<open>Every scheduler gets the jobs done\<close>

text \<open>A step moves one goroutine, and moves it closer to its end.\<close>

lemma step_mover:
  assumes "step job m m'"
  obtains i p where "mc_place m' = (mc_place m)(i := p)" and "rank p < rank (mc_place m i)"
  using assms
proof cases
  case (goes i e t p tx')
  then show ?thesis using tx_next_rank [OF goes(4,2)] by (intro that [of i p]) simp_all
next
  case (stops i e t r c)
  then have "0 < rank (mc_place m i)" by (cases "mc_place m i") (simp_all add: in_tx_def)
  with stops(1) show ?thesis by (intro that [of i Finished]) (simp_all add: finish_def)
qed (auto simp: finish_def intro: that)

definition work_left :: "nat \<Rightarrow> machine \<Rightarrow> nat" where
  "work_left n m = (\<Sum>i<n. rank (mc_place m i))"

text \<open>A step of one of the first \<open>n\<close> goroutines.\<close>

definition step_below :: "nat \<Rightarrow> (nat \<Rightarrow> store_op) \<Rightarrow> machine \<Rightarrow> machine \<Rightarrow> bool" where
  "step_below n job m m' \<longleftrightarrow> step job m m' \<and> (\<forall>i\<ge>n. mc_place m' i = mc_place m i)"

lemma step_below_work:
  assumes "step_below n job m m'"
  shows "work_left n m' < work_left n m"
proof -
  obtain i p where p: "mc_place m' = (mc_place m)(i := p)" and less: "rank p < rank (mc_place m i)"
    using assms step_mover unfolding step_below_def by blast
  have "i < n"
  proof (rule ccontr)
    assume "\<not> i < n"
    then have "mc_place m' i = mc_place m i" using assms by (simp add: step_below_def)
    then have "p = mc_place m i" by (simp add: p)
    with less show False by simp
  qed
  then show ?thesis unfolding work_left_def p
    by (intro sum_strict_mono_ex1) (use less in auto)
qed

lemma steps_below_work: "(step_below n job ^^ k) m m' \<Longrightarrow> k + work_left n m' \<le> work_left n m"
proof (induction k arbitrary: m')
  case (Suc k)
  then obtain m1 where "(step_below n job ^^ k) m m1" and "step_below n job m1 m'" by auto
  from Suc.IH [OF this(1)] step_below_work [OF this(2)] show ?case by linarith
qed simp

lemma steps_below_executes:
  "(step_below n job ^^ k) (initial d) m \<Longrightarrow> executes job d m \<and> (\<forall>i\<ge>n. mc_place m i = Ready)"
proof (induction k arbitrary: m)
  case 0
  then have "m = initial d" by simp
  then show ?case by (simp add: start) (simp add: initial_def)
next
  case (Suc k)
  then obtain m1 where m1: "(step_below n job ^^ k) (initial d) m1" "step_below n job m1 m" by auto
  with Suc.IH [OF m1(1)] show ?case by (auto simp: step_below_def intro: more)
qed

lemma step_belowI:
  assumes "step job m m'" and "mc_place m' = (mc_place m)(i := p)" and "i < n"
  shows "step_below n job m m'"
  using assms by (simp add: step_below_def)

lemma initial_work: "work_left n (initial d) = 6 * n"
  by (simp add: work_left_def initial_def)

section \<open>What the contracts give under any interleaving\<close>

lemma same_view_solvent: "\<lbrakk>same_view held_txn balance_of d d'; solvent d\<rbrakk> \<Longrightarrow> solvent d'"
  by (simp add: same_view_def solvent_def)

lemma took_solvent: "\<lbrakk>took held_txn balance_of t u d d'; solvent d\<rbrakk> \<Longrightarrow> solvent d'"
  by (auto simp: took_def solvent_def signed_points_def)

lemma record_solvent:
  assumes "db_ok d" and "solvent d" and "st_RecordTransaction e t d = (r, d')"
  shows "solvent d'"
  using st_RecordTransaction_outcome [OF assms(3)] assms(2)
  by cases (auto intro: same_view_solvent [OF view_frame] took_solvent [OF took_with_row])

lemma atomic_op_sound:
  assumes d: "sound_db d" and op: "atomic_op p d = (r, d')"
  shows "sound_db d'"
proof (cases p)
  case (ORecord e t)
  then obtain rr where "st_RecordTransaction e t d = (rr, d')" using op by (auto split: prod.splits)
  with d db_ok_RecordTransaction record_solvent show ?thesis unfolding sound_db_def by blast
next
  case (OCreate e a h)
  then obtain rr where "st_CreateAccount e a h d = (rr, d')" using op by (auto split: prod.splits)
  with d db_ok_CreateAccount st_CreateAccount_frame same_view_solvent show ?thesis
    unfolding sound_db_def by blast
next
  case (OAppend e x)
  then obtain rr where "st_AppendAudit e x d = (rr, d')" using op by (auto split: prod.splits)
  with d db_ok_AppendAudit st_AppendAudit_view same_view_solvent show ?thesis
    unfolding sound_db_def by blast
qed (use d op in simp_all)

lemma serial_run_sound: "\<lbrakk>sound_db d; serial_run ps d = (rs, d')\<rbrakk> \<Longrightarrow> sound_db d'"
proof (induction ps arbitrary: d rs)
  case Nil
  then show ?case by simp
next
  case (Cons p ps)
  obtain r d1 where op: "atomic_op p d = (r, d1)" by fastforce
  with Cons.prems obtain rs' where "serial_run ps d1 = (rs', d')" by (auto split: prod.splits)
  with Cons.IH atomic_op_sound [OF Cons.prems(1) op] show ?case by blast
qed

text \<open>When none of the first \<open>n\<close> goroutines can move, they are all done.\<close>

lemma stuck_done:
  assumes "(step_below n job ^^ k) (initial d) m" and "\<nexists>m'. step_below n job m m'" and "i < n"
  shows "mc_place m i = Finished"
proof (rule ccontr)
  assume nf: "mc_place m i \<noteq> Finished"
  have ex: "executes job d m" and out: "\<And>i. i \<ge> n \<Longrightarrow> mc_place m i = Ready"
    using steps_below_executes [OF assms(1)] by auto
  let ?k = "case mc_conn m of None \<Rightarrow> i | Some k \<Rightarrow> k"
  have "?k < n"
  proof (cases "mc_conn m")
    case (Some k)
    with holder_rest executes_ok [OF ex] have "in_tx (mc_place m k)" by metis
    with out [of k] Some show ?thesis by (cases "k < n") auto
  qed (simp add: assms(3))
  with executes_progress [OF ex nf] step_belowI assms(2) show False unfolding moves_def by blast
qed

section \<open>Running a schedule\<close>

text \<open>One step of goroutine \<open>i\<close>, \<open>None\<close> when it has to wait or is done: the relation as a function.\<close>

definition try_ready :: "(nat \<Rightarrow> store_op) \<Rightarrow> nat \<Rightarrow> machine \<Rightarrow> machine option" where
  "try_ready job i m =
     (if mc_conn m \<noteq> None then None
      else if reads_twice (job i)
      then (case first_read (job i) (mc_db m) of
              Some r \<Rightarrow> Some (finish i r (mc_db m) m)
            | None \<Rightarrow> Some (m\<lparr>mc_place := (mc_place m)(i := Looked)\<rparr>))
      else (case atomic_op (job i) (mc_db m) of (r, d) \<Rightarrow> Some (finish i r d m)))"

definition try_begin :: "env \<Rightarrow> nat \<Rightarrow> machine \<Rightarrow> machine option" where
  "try_begin e i m =
     (case db_fail e CBeginTx of
        Some err \<Rightarrow> Some (finish i (RRecord (Inl (Errorf ''begin tx'' err))) (mc_db m) m)
      | None \<Rightarrow>
          if mc_conn m = None
          then Some (m\<lparr>mc_conn := Some i, mc_tx := mc_db m, mc_place := (mc_place m)(i := Began)\<rparr>)
          else None)"

definition try_tx :: "env \<Rightarrow> txn \<Rightarrow> nat \<Rightarrow> machine \<Rightarrow> machine" where
  "try_tx e t i m =
     (case tx_next e t (mc_place m i) (mc_tx m) of
        Go q tx' \<Rightarrow> m\<lparr>mc_tx := tx', mc_place := (mc_place m)(i := q)\<rparr>
      | Stop r c \<Rightarrow> (finish i (RRecord r) (settled c (mc_db m)) m)\<lparr>mc_conn := None\<rparr>)"

definition try_step :: "(nat \<Rightarrow> store_op) \<Rightarrow> nat \<Rightarrow> machine \<Rightarrow> machine option" where
  "try_step job i m =
     (if mc_place m i = Finished then None
      else if mc_place m i = Looked
      then (if mc_conn m = None
            then Some (finish i (second_read (job i) (mc_db m)) (mc_db m) m) else None)
      else (case job i of
              ORecord e t \<Rightarrow> if mc_place m i = Ready then try_begin e i m else Some (try_tx e t i m)
            | _ \<Rightarrow> if mc_place m i = Ready then try_ready job i m else None))"

fun run_schedule :: "(nat \<Rightarrow> store_op) \<Rightarrow> nat list \<Rightarrow> machine \<Rightarrow> machine option" where
  "run_schedule job [] m = Some m"
| "run_schedule job (i # is) m =
     (case try_step job i m of None \<Rightarrow> None | Some m' \<Rightarrow> run_schedule job is m')"

lemma try_ready_step:
  assumes "try_ready job i m = Some m'" and "mc_place m i = Ready" and "\<not> records (job i)"
  shows "step job m m' \<and> (\<exists>p. mc_place m' = (mc_place m)(i := p))"
  using assms
  by (auto simp: try_ready_def split: if_splits option.splits prod.splits
      intro: statement turned_away looks)

lemma try_begin_step:
  assumes "try_begin e i m = Some m'" and "mc_place m i = Ready" and "job i = ORecord e t"
  shows "step job m m' \<and> (\<exists>p. mc_place m' = (mc_place m)(i := p))"
  using assms
  by (auto simp: try_begin_def split: if_splits option.splits intro: begins begin_fails)

lemma try_tx_step:
  assumes "in_tx (mc_place m i)" and "job i = ORecord e t"
  shows "step job m (try_tx e t i m) \<and> (\<exists>p. mc_place (try_tx e t i m) = (mc_place m)(i := p))"
proof (cases "tx_next e t (mc_place m i) (mc_tx m)")
  case (Go q tx')
  with goes [where job = job, OF assms Go] show ?thesis by (auto simp: try_tx_def)
next
  case (Stop r c)
  with stops [where job = job, OF assms Stop] show ?thesis by (auto simp: try_tx_def)
qed

lemma try_step_sound:
  assumes "try_step job i m = Some m'"
  shows "step job m m' \<and> (\<exists>p. mc_place m' = (mc_place m)(i := p))"
proof (cases "mc_place m i = Looked")
  case True
  with assms answers [of m i job] show ?thesis by (auto simp: try_step_def split: if_splits)
next
  case looked: False
  show ?thesis
  proof (cases "records (job i)")
    case True
    then obtain e t where job: "job i = ORecord e t" by (rule recordsE)
    show ?thesis
    proof (cases "mc_place m i = Ready")
      case True
      with assms job try_begin_step [of e i m m' job] show ?thesis by (simp add: try_step_def)
    next
      case False
      with assms looked job have "in_tx (mc_place m i)" "m' = try_tx e t i m"
        by (simp_all add: try_step_def in_tx_def split: if_splits)
      with job try_tx_step show ?thesis by blast
    qed
  next
    case False
    with assms looked have "try_ready job i m = Some m' \<and> mc_place m i = Ready"
      by (cases "job i") (simp_all add: try_step_def split: if_splits)
    with False try_ready_step show ?thesis by blast
  qed
qed

lemma run_schedule_executes:
  "\<lbrakk>executes job d m; run_schedule job is m = Some m'\<rbrakk> \<Longrightarrow> executes job d m'"
  by (induction "is" arbitrary: m) (auto split: option.splits dest!: try_step_sound intro: more)

lemma run_schedule_steps:
  "\<lbrakk>run_schedule job is m = Some m'; \<forall>i \<in> set is. i < n\<rbrakk> \<Longrightarrow> (step_below n job ^^ length is) m m'"
proof (induction "is" arbitrary: m)
  case (Cons i "is")
  then obtain m1 where m1: "try_step job i m = Some m1" and rest: "run_schedule job is m1 = Some m'"
    by (auto split: option.splits)
  from try_step_sound [OF m1] Cons.prems(2) have "step_below n job m m1" by (auto intro: step_belowI)
  moreover have "(step_below n job ^^ length is) m1 m'" using Cons.IH [OF rest] Cons.prems(2) by simp
  ultimately show ?case by (metis length_Cons relpowp_Suc_I2)
qed simp

end
