(* ===== verification/Strict.thy ===== *)
theory Strict
  imports Router
begin

text \<open>
  The strict half of the generated server (\<^verbatim>\<open>gen/types_server.gen.go\<close>): the declared response
  objects of the eleven operations with their \<open>Visit\<close> methods, the strict handler that decodes a
  request object, runs the strict middlewares and the server's method and writes the response
  object it returns, the \<open>Unimplemented\<close> server and the parameter error types.

  An \<^verbatim>\<open>http.ResponseWriter\<close> is a record: the header map, what the first \<open>WriteHeader\<close> sent, the body
  sent so far, and where the connection breaks. A value of an interface type is its dynamic type's
  name with its method table, so that the type assertion of the strict handler is a lookup. What
  \<^verbatim>\<open>encoding/json\<close> says of a body it refuses, and \<^verbatim>\<open>mime/multipart\<close>, are the parameter \<open>strict_lib\<close>.

  The lemmas: a \<open>Visit\<close> method encodes before it writes, so it either sends the whole declared answer
  or leaves the writer untouched; the strict handler answers in exactly one way.
\<close>

section \<open>The response writer\<close>

record writer =
  wr_Header :: headers
  wr_Wrote :: "(int \<times> headers) option"
  wr_Body :: string
  wr_Break :: "(nat \<times> goerr) option"

definition fresh_writer :: writer where
  "fresh_writer = \<lparr>wr_Header = [], wr_Wrote = None, wr_Body = [], wr_Break = None\<rparr>"

definition Header_Set :: "string \<Rightarrow> string \<Rightarrow> writer \<Rightarrow> writer" where
  "Header_Set k v w = w\<lparr>wr_Header := AList.update k v (wr_Header w)\<rparr>"

definition Header_Del :: "string \<Rightarrow> writer \<Rightarrow> writer" where
  "Header_Del k w = w\<lparr>wr_Header := AList.delete k (wr_Header w)\<rparr>"

text \<open>Only the first call counts; the headers are sent as they are then.\<close>

definition WriteHeader :: "int \<Rightarrow> writer \<Rightarrow> writer" where
  "WriteHeader code w =
     (case wr_Wrote w of None \<Rightarrow> w\<lparr>wr_Wrote := Some (code, wr_Header w)\<rparr> | Some x \<Rightarrow> w)"

text \<open>\<open>wr_Break\<close> is the number of bytes the connection still takes and the error it then gives.\<close>

definition Write :: "string \<Rightarrow> writer \<Rightarrow> goerr option \<times> writer" where
  "Write b w =
     (let w1 = WriteHeader 200 w
      in case wr_Break w1 of
           None \<Rightarrow> (None, w1\<lparr>wr_Body := wr_Body w1 @ b\<rparr>)
         | Some (n, err) \<Rightarrow>
             if length b \<le> n then (None, w1\<lparr>wr_Body := wr_Body w1 @ b, wr_Break := Some (n - length b, err)\<rparr>)
             else (Some err, w1\<lparr>wr_Body := wr_Body w1 @ take n b, wr_Break := Some (0, err)\<rparr>))"

definition http_Error :: "string \<Rightarrow> int \<Rightarrow> writer \<Rightarrow> writer" where
  "http_Error message code w =
     snd (Write (message @ [CHR 0x0A])
       (WriteHeader code
         (Header_Set ''X-Content-Type-Options'' ''nosniff''
           (Header_Set ''Content-Type'' ''text/plain; charset=utf-8''
             (Header_Del ''Content-Length'' w)))))"

text \<open>What a client receives: a handler that wrote nothing is answered 200 with an empty body.\<close>

definition sent :: "writer \<Rightarrow> int \<times> headers \<times> string" where
  "sent w = (case wr_Wrote w of None \<Rightarrow> (200, wr_Header w, wr_Body w) | Some (c, hs) \<Rightarrow> (c, hs, wr_Body w))"

section \<open>The declared responses\<close>

type_synonym visit = "writer \<Rightarrow> goerr option \<times> writer"

definition marshal_error :: goerr where
  "marshal_error = ErrorsNew (''json: error calling MarshalJSON for type time.Time: Time.MarshalJSON: ''
     @ ''year outside of range [0,9999]'')"

text \<open>
  The body every \<open>Visit\<close> method has: encode into a buffer, return the encoder's error before anything
  is written, then the headers, the status and the buffer. The embedded \<open>Unauthorized\<close> and \<open>Forbidden\<close>
  responses are encoded like the error they embed.
\<close>

definition visit_json :: "headers \<Rightarrow> int \<Rightarrow> body \<Rightarrow> visit" where
  "visit_json hs status b w =
     (case Encode (json_body b) of
        None \<Rightarrow> (Some marshal_error, w)
      | Some buf \<Rightarrow>
          Write buf (WriteHeader status
            (fold (\<lambda>(k, v). Header_Set k v) hs (Header_Set ''Content-Type'' ''application/json'' w))))"

datatype ListAccountsResponse =
    ListAccounts200 "gen_account_summary list"
  | ListAccounts401 gen_error
  | ListAccounts403 gen_error

fun VisitListAccountsResponse :: "ListAccountsResponse \<Rightarrow> visit" where
  "VisitListAccountsResponse (ListAccounts200 x) = visit_json [] 200 (BAccountList x)"
| "VisitListAccountsResponse (ListAccounts401 x) = visit_json [] 401 (BError x)"
| "VisitListAccountsResponse (ListAccounts403 x) = visit_json [] 403 (BError x)"

datatype CreateAccountResponse =
    CreateAccount201 gen_account "string option"
  | CreateAccount400 gen_error
  | CreateAccount401 gen_error
  | CreateAccount409 gen_error

fun VisitCreateAccountResponse :: "CreateAccountResponse \<Rightarrow> visit" where
  "VisitCreateAccountResponse (CreateAccount201 x location) =
     visit_json (case location of None \<Rightarrow> [] | Some l \<Rightarrow> [(''Location'', l)]) 201 (BAccount x)"
| "VisitCreateAccountResponse (CreateAccount400 x) = visit_json [] 400 (BError x)"
| "VisitCreateAccountResponse (CreateAccount401 x) = visit_json [] 401 (BError x)"
| "VisitCreateAccountResponse (CreateAccount409 x) = visit_json [] 409 (BError x)"

datatype GetAccountResponse =
    GetAccount200 gen_account
  | GetAccount400 gen_error
  | GetAccount401 gen_error
  | GetAccount403 gen_error
  | GetAccount404 gen_error

fun VisitGetAccountResponse :: "GetAccountResponse \<Rightarrow> visit" where
  "VisitGetAccountResponse (GetAccount200 x) = visit_json [] 200 (BAccount x)"
| "VisitGetAccountResponse (GetAccount400 x) = visit_json [] 400 (BError x)"
| "VisitGetAccountResponse (GetAccount401 x) = visit_json [] 401 (BError x)"
| "VisitGetAccountResponse (GetAccount403 x) = visit_json [] 403 (BError x)"
| "VisitGetAccountResponse (GetAccount404 x) = visit_json [] 404 (BError x)"

datatype GetBalanceResponse =
    GetBalance200 gen_balance
  | GetBalance400 gen_error
  | GetBalance401 gen_error
  | GetBalance403 gen_error
  | GetBalance404 gen_error

fun VisitGetBalanceResponse :: "GetBalanceResponse \<Rightarrow> visit" where
  "VisitGetBalanceResponse (GetBalance200 x) = visit_json [] 200 (BBalance x)"
| "VisitGetBalanceResponse (GetBalance400 x) = visit_json [] 400 (BError x)"
| "VisitGetBalanceResponse (GetBalance401 x) = visit_json [] 401 (BError x)"
| "VisitGetBalanceResponse (GetBalance403 x) = visit_json [] 403 (BError x)"
| "VisitGetBalanceResponse (GetBalance404 x) = visit_json [] 404 (BError x)"

datatype RedeemPointsResponse =
    RedeemPoints200 redemption
  | RedeemPoints201 redemption
  | RedeemPoints400 gen_error
  | RedeemPoints401 gen_error
  | RedeemPoints403 gen_error
  | RedeemPoints404 gen_error
  | RedeemPoints409 gen_error

fun VisitRedeemPointsResponse :: "RedeemPointsResponse \<Rightarrow> visit" where
  "VisitRedeemPointsResponse (RedeemPoints200 x) = visit_json [] 200 (BRedemption x)"
| "VisitRedeemPointsResponse (RedeemPoints201 x) = visit_json [] 201 (BRedemption x)"
| "VisitRedeemPointsResponse (RedeemPoints400 x) = visit_json [] 400 (BError x)"
| "VisitRedeemPointsResponse (RedeemPoints401 x) = visit_json [] 401 (BError x)"
| "VisitRedeemPointsResponse (RedeemPoints403 x) = visit_json [] 403 (BError x)"
| "VisitRedeemPointsResponse (RedeemPoints404 x) = visit_json [] 404 (BError x)"
| "VisitRedeemPointsResponse (RedeemPoints409 x) = visit_json [] 409 (BError x)"

datatype ListTransactionsResponse =
    ListTransactions200 "ledger_entry list"
  | ListTransactions400 gen_error
  | ListTransactions401 gen_error
  | ListTransactions403 gen_error
  | ListTransactions404 gen_error

fun VisitListTransactionsResponse :: "ListTransactionsResponse \<Rightarrow> visit" where
  "VisitListTransactionsResponse (ListTransactions200 x) = visit_json [] 200 (BTransactionList x)"
| "VisitListTransactionsResponse (ListTransactions400 x) = visit_json [] 400 (BError x)"
| "VisitListTransactionsResponse (ListTransactions401 x) = visit_json [] 401 (BError x)"
| "VisitListTransactionsResponse (ListTransactions403 x) = visit_json [] 403 (BError x)"
| "VisitListTransactionsResponse (ListTransactions404 x) = visit_json [] 404 (BError x)"

datatype ListAuditResponse =
    ListAudit200 "gen_audit_entry list"
  | ListAudit400 gen_error
  | ListAudit401 gen_error
  | ListAudit403 gen_error

fun VisitListAuditResponse :: "ListAuditResponse \<Rightarrow> visit" where
  "VisitListAuditResponse (ListAudit200 x) = visit_json [] 200 (BAuditLog x)"
| "VisitListAuditResponse (ListAudit400 x) = visit_json [] 400 (BError x)"
| "VisitListAuditResponse (ListAudit401 x) = visit_json [] 401 (BError x)"
| "VisitListAuditResponse (ListAudit403 x) = visit_json [] 403 (BError x)"

datatype IngestBatchResponse =
    IngestBatch200 batch_summary
  | IngestBatch400 gen_error
  | IngestBatch401 gen_error
  | IngestBatch403 gen_error

fun VisitIngestBatchResponse :: "IngestBatchResponse \<Rightarrow> visit" where
  "VisitIngestBatchResponse (IngestBatch200 x) = visit_json [] 200 (BBatchSummary x)"
| "VisitIngestBatchResponse (IngestBatch400 x) = visit_json [] 400 (BError x)"
| "VisitIngestBatchResponse (IngestBatch401 x) = visit_json [] 401 (BError x)"
| "VisitIngestBatchResponse (IngestBatch403 x) = visit_json [] 403 (BError x)"

datatype GetHealthResponse =
    GetHealth200 gen_health
  | GetHealth503 gen_health

fun VisitGetHealthResponse :: "GetHealthResponse \<Rightarrow> visit" where
  "VisitGetHealthResponse (GetHealth200 x) = visit_json [] 200 (BHealth x)"
| "VisitGetHealthResponse (GetHealth503 x) = visit_json [] 503 (BHealth x)"

datatype LoginResponse =
    Login200 token_response
  | Login400 gen_error
  | Login401 gen_error

fun VisitLoginResponse :: "LoginResponse \<Rightarrow> visit" where
  "VisitLoginResponse (Login200 x) = visit_json [] 200 (BToken x)"
| "VisitLoginResponse (Login400 x) = visit_json [] 400 (BError x)"
| "VisitLoginResponse (Login401 x) = visit_json [] 401 (BError x)"

datatype CreateTransactionResponse =
    CreateTransaction200 gen_transaction
  | CreateTransaction201 gen_transaction
  | CreateTransaction400 gen_error
  | CreateTransaction401 gen_error
  | CreateTransaction403 gen_error
  | CreateTransaction404 gen_error
  | CreateTransaction409 gen_error

fun VisitCreateTransactionResponse :: "CreateTransactionResponse \<Rightarrow> visit" where
  "VisitCreateTransactionResponse (CreateTransaction200 x) = visit_json [] 200 (BTransaction x)"
| "VisitCreateTransactionResponse (CreateTransaction201 x) = visit_json [] 201 (BTransaction x)"
| "VisitCreateTransactionResponse (CreateTransaction400 x) = visit_json [] 400 (BError x)"
| "VisitCreateTransactionResponse (CreateTransaction401 x) = visit_json [] 401 (BError x)"
| "VisitCreateTransactionResponse (CreateTransaction403 x) = visit_json [] 403 (BError x)"
| "VisitCreateTransactionResponse (CreateTransaction404 x) = visit_json [] 404 (BError x)"
| "VisitCreateTransactionResponse (CreateTransaction409 x) = visit_json [] 409 (BError x)"

section \<open>The strict server\<close>

text \<open>The request objects; \<open>OtherObject\<close> is a value of any other type a middleware may pass on.\<close>

datatype any_request =
    ListAccountsRequest
  | CreateAccountRequest new_account_body
  | GetAccountRequest string
  | GetBalanceRequest string
  | RedeemPointsRequest string new_redemption
  | ListTransactionsRequest string
  | ListAuditRequest "string option"
  | IngestBatchRequest string
  | GetHealthRequest
  | LoginRequest login_request
  | CreateTransactionRequest new_transaction
  | OtherObject string

record go_object =
  ob_type :: string
  ob_method :: "string \<Rightarrow> visit option"

text \<open>What a method returns, a nil response being \<open>None\<close>; \<open>Inl\<close> is a panic.\<close>

type_synonym strict_return = "string + go_object option \<times> goerr option"

type_synonym 's strict_method = "request \<Rightarrow> 's \<Rightarrow> strict_return \<times> 's"

record 's strict_server =
  ss_ListAccounts :: "'s strict_method"
  ss_CreateAccount :: "new_account_body \<Rightarrow> 's strict_method"
  ss_GetAccount :: "string \<Rightarrow> 's strict_method"
  ss_GetBalance :: "string \<Rightarrow> 's strict_method"
  ss_RedeemPoints :: "string \<Rightarrow> new_redemption \<Rightarrow> 's strict_method"
  ss_ListTransactions :: "string \<Rightarrow> 's strict_method"
  ss_ListAudit :: "string option \<Rightarrow> 's strict_method"
  ss_IngestBatch :: "string \<Rightarrow> 's strict_method"
  ss_GetHealth :: "'s strict_method"
  ss_Login :: "login_request \<Rightarrow> 's strict_method"
  ss_CreateTransaction :: "new_transaction \<Rightarrow> 's strict_method"

type_synonym 's strict_func = "writer \<Rightarrow> request \<Rightarrow> any_request \<Rightarrow> 's \<Rightarrow> strict_return \<times> writer \<times> 's"

type_synonym 's strict_middleware = "'s strict_func \<Rightarrow> string \<Rightarrow> 's strict_func"

record strict_options =
  so_RequestError :: "writer \<Rightarrow> request \<Rightarrow> goerr \<Rightarrow> writer"
  so_ResponseError :: "writer \<Rightarrow> request \<Rightarrow> goerr \<Rightarrow> writer"

record 's strict_handler =
  sh_ssi :: "'s strict_server"
  sh_middlewares :: "'s strict_middleware list"
  sh_options :: strict_options

record strict_lib =
  sl_DecodeError :: "string \<Rightarrow> string \<Rightarrow> goerr"
  sl_MultipartReader :: "request \<Rightarrow> goerr + string"

definition default_options :: strict_options where
  "default_options =
     \<lparr>so_RequestError = (\<lambda>w r err. http_Error (err_text err) 400 w),
      so_ResponseError = (\<lambda>w r err. http_Error (err_text err) 500 w)\<rparr>"

definition NewStrictHandler :: "'s strict_server \<Rightarrow> 's strict_middleware list \<Rightarrow> 's strict_handler" where
  "NewStrictHandler ssi mws = \<lparr>sh_ssi = ssi, sh_middlewares = mws, sh_options = default_options\<rparr>"

definition NewStrictHandlerWithOptions ::
    "'s strict_server \<Rightarrow> 's strict_middleware list \<Rightarrow> strict_options \<Rightarrow> 's strict_handler" where
  "NewStrictHandlerWithOptions ssi mws options = \<lparr>sh_ssi = ssi, sh_middlewares = mws, sh_options = options\<rparr>"

text \<open>A handler on the writer: a panic or \<open>None\<close>, the writer and the state.\<close>

type_synonym 's writer_handler = "writer \<Rightarrow> request \<Rightarrow> 's \<Rightarrow> string option \<times> writer \<times> 's"

text \<open>The end of every method of the strict handler, from the value the wrapped handler returned.\<close>

definition visit_method :: "string \<Rightarrow> string" where
  "visit_method op = ''Visit'' @ op @ ''Response''"

definition respond :: "strict_options \<Rightarrow> string \<Rightarrow> request \<Rightarrow> strict_return \<times> writer \<times> 's \<Rightarrow> string option \<times> writer \<times> 's" where
  "respond options op r res =
     (case res of
        (Inl panic, w, s) \<Rightarrow> (Some panic, w, s)
      | (Inr (response, err), w, s) \<Rightarrow>
          (None,
           (case err of
              Some e \<Rightarrow> so_ResponseError options w r e
            | None \<Rightarrow>
                (case response of
                   None \<Rightarrow> w
                 | Some ob \<Rightarrow>
                     (case ob_method ob (visit_method op) of
                        Some visit \<Rightarrow>
                          (case visit w of
                             (None, w') \<Rightarrow> w'
                           | (Some e, w') \<Rightarrow> so_ResponseError options w' r e)
                      | None \<Rightarrow>
                          so_ResponseError options w r
                            (ErrorsNew (''unexpected response type: '' @ ob_type ob))))), s))"

text \<open>The middlewares wrap the call one after the other, the last outermost.\<close>

definition strict_run ::
    "'s strict_handler \<Rightarrow> string \<Rightarrow> 's strict_func \<Rightarrow> any_request \<Rightarrow> 's writer_handler" where
  "strict_run sh op call q w r s =
     respond (sh_options sh) op r
       (foldl (\<lambda>handler middleware. middleware handler op) call (sh_middlewares sh) w r q s)"

definition cant_decode_json :: string where
  "cant_decode_json = ''can'' @ [CHR 0x27] @ ''t decode JSON body''"

definition cant_decode_multipart :: string where
  "cant_decode_multipart = ''can'' @ [CHR 0x27] @ ''t decode multipart body''"

text \<open>
  Per operation, the innermost handler (the type assertion panics on another type of request object)
  and the method of the strict handler.
\<close>

definition call_ListAccounts :: "'s strict_server \<Rightarrow> 's strict_func" where
  "call_ListAccounts ssi w r q s =
     (case q of ListAccountsRequest \<Rightarrow> (case ss_ListAccounts ssi r s of (x, s') \<Rightarrow> (x, w, s'))
      | _ \<Rightarrow> (Inl ''ListAccountsRequestObject'', w, s))"

definition sh_ListAccounts :: "'s strict_handler \<Rightarrow> 's writer_handler" where
  "sh_ListAccounts sh w r s =
     strict_run sh ''ListAccounts'' (call_ListAccounts (sh_ssi sh)) ListAccountsRequest w r s"

definition call_CreateAccount :: "'s strict_server \<Rightarrow> 's strict_func" where
  "call_CreateAccount ssi w r q s =
     (case q of CreateAccountRequest body \<Rightarrow> (case ss_CreateAccount ssi body r s of (x, s') \<Rightarrow> (x, w, s'))
      | _ \<Rightarrow> (Inl ''CreateAccountRequestObject'', w, s))"

definition sh_CreateAccount :: "strict_lib \<Rightarrow> 's strict_handler \<Rightarrow> 's writer_handler" where
  "sh_CreateAccount lib sh w r s =
     (case Decode_NewAccount (rq_Body r) of
        None \<Rightarrow> (None, so_RequestError (sh_options sh) w r
                 (Errorf cant_decode_json (sl_DecodeError lib ''NewAccount'' (rq_Body r))), s)
      | Some body \<Rightarrow> strict_run sh ''CreateAccount'' (call_CreateAccount (sh_ssi sh)) (CreateAccountRequest body) w r s)"

definition call_GetAccount :: "'s strict_server \<Rightarrow> 's strict_func" where
  "call_GetAccount ssi w r q s =
     (case q of GetAccountRequest i \<Rightarrow> (case ss_GetAccount ssi i r s of (x, s') \<Rightarrow> (x, w, s'))
      | _ \<Rightarrow> (Inl ''GetAccountRequestObject'', w, s))"

definition sh_GetAccount :: "'s strict_handler \<Rightarrow> string \<Rightarrow> 's writer_handler" where
  "sh_GetAccount sh accountId w r s =
     strict_run sh ''GetAccount'' (call_GetAccount (sh_ssi sh)) (GetAccountRequest accountId) w r s"

definition call_GetBalance :: "'s strict_server \<Rightarrow> 's strict_func" where
  "call_GetBalance ssi w r q s =
     (case q of GetBalanceRequest i \<Rightarrow> (case ss_GetBalance ssi i r s of (x, s') \<Rightarrow> (x, w, s'))
      | _ \<Rightarrow> (Inl ''GetBalanceRequestObject'', w, s))"

definition sh_GetBalance :: "'s strict_handler \<Rightarrow> string \<Rightarrow> 's writer_handler" where
  "sh_GetBalance sh accountId w r s =
     strict_run sh ''GetBalance'' (call_GetBalance (sh_ssi sh)) (GetBalanceRequest accountId) w r s"

definition call_RedeemPoints :: "'s strict_server \<Rightarrow> 's strict_func" where
  "call_RedeemPoints ssi w r q s =
     (case q of RedeemPointsRequest i body \<Rightarrow> (case ss_RedeemPoints ssi i body r s of (x, s') \<Rightarrow> (x, w, s'))
      | _ \<Rightarrow> (Inl ''RedeemPointsRequestObject'', w, s))"

definition sh_RedeemPoints :: "strict_lib \<Rightarrow> 's strict_handler \<Rightarrow> string \<Rightarrow> 's writer_handler" where
  "sh_RedeemPoints lib sh accountId w r s =
     (case Decode_NewRedemption (rq_Body r) of
        None \<Rightarrow> (None, so_RequestError (sh_options sh) w r
                 (Errorf cant_decode_json (sl_DecodeError lib ''NewRedemption'' (rq_Body r))), s)
      | Some body \<Rightarrow> strict_run sh ''RedeemPoints'' (call_RedeemPoints (sh_ssi sh)) (RedeemPointsRequest accountId body) w r s)"

definition call_ListTransactions :: "'s strict_server \<Rightarrow> 's strict_func" where
  "call_ListTransactions ssi w r q s =
     (case q of ListTransactionsRequest i \<Rightarrow> (case ss_ListTransactions ssi i r s of (x, s') \<Rightarrow> (x, w, s'))
      | _ \<Rightarrow> (Inl ''ListTransactionsRequestObject'', w, s))"

definition sh_ListTransactions :: "'s strict_handler \<Rightarrow> string \<Rightarrow> 's writer_handler" where
  "sh_ListTransactions sh accountId w r s =
     strict_run sh ''ListTransactions'' (call_ListTransactions (sh_ssi sh)) (ListTransactionsRequest accountId) w r s"

definition call_ListAudit :: "'s strict_server \<Rightarrow> 's strict_func" where
  "call_ListAudit ssi w r q s =
     (case q of ListAuditRequest p \<Rightarrow> (case ss_ListAudit ssi p r s of (x, s') \<Rightarrow> (x, w, s'))
      | _ \<Rightarrow> (Inl ''ListAuditRequestObject'', w, s))"

definition sh_ListAudit :: "'s strict_handler \<Rightarrow> string option \<Rightarrow> 's writer_handler" where
  "sh_ListAudit sh params w r s =
     strict_run sh ''ListAudit'' (call_ListAudit (sh_ssi sh)) (ListAuditRequest params) w r s"

definition call_IngestBatch :: "'s strict_server \<Rightarrow> 's strict_func" where
  "call_IngestBatch ssi w r q s =
     (case q of IngestBatchRequest reader \<Rightarrow> (case ss_IngestBatch ssi reader r s of (x, s') \<Rightarrow> (x, w, s'))
      | _ \<Rightarrow> (Inl ''IngestBatchRequestObject'', w, s))"

definition sh_IngestBatch :: "strict_lib \<Rightarrow> 's strict_handler \<Rightarrow> 's writer_handler" where
  "sh_IngestBatch lib sh w r s =
     (case sl_MultipartReader lib r of
        Inl err \<Rightarrow> (None, so_RequestError (sh_options sh) w r (Errorf cant_decode_multipart err), s)
      | Inr reader \<Rightarrow> strict_run sh ''IngestBatch'' (call_IngestBatch (sh_ssi sh)) (IngestBatchRequest reader) w r s)"

definition call_GetHealth :: "'s strict_server \<Rightarrow> 's strict_func" where
  "call_GetHealth ssi w r q s =
     (case q of GetHealthRequest \<Rightarrow> (case ss_GetHealth ssi r s of (x, s') \<Rightarrow> (x, w, s'))
      | _ \<Rightarrow> (Inl ''GetHealthRequestObject'', w, s))"

definition sh_GetHealth :: "'s strict_handler \<Rightarrow> 's writer_handler" where
  "sh_GetHealth sh w r s =
     strict_run sh ''GetHealth'' (call_GetHealth (sh_ssi sh)) GetHealthRequest w r s"

definition call_Login :: "'s strict_server \<Rightarrow> 's strict_func" where
  "call_Login ssi w r q s =
     (case q of LoginRequest body \<Rightarrow> (case ss_Login ssi body r s of (x, s') \<Rightarrow> (x, w, s'))
      | _ \<Rightarrow> (Inl ''LoginRequestObject'', w, s))"

definition sh_Login :: "strict_lib \<Rightarrow> 's strict_handler \<Rightarrow> 's writer_handler" where
  "sh_Login lib sh w r s =
     (case Decode_LoginRequest (rq_Body r) of
        None \<Rightarrow> (None, so_RequestError (sh_options sh) w r
                 (Errorf cant_decode_json (sl_DecodeError lib ''LoginRequest'' (rq_Body r))), s)
      | Some body \<Rightarrow> strict_run sh ''Login'' (call_Login (sh_ssi sh)) (LoginRequest body) w r s)"

definition call_CreateTransaction :: "'s strict_server \<Rightarrow> 's strict_func" where
  "call_CreateTransaction ssi w r q s =
     (case q of CreateTransactionRequest body \<Rightarrow> (case ss_CreateTransaction ssi body r s of (x, s') \<Rightarrow> (x, w, s'))
      | _ \<Rightarrow> (Inl ''CreateTransactionRequestObject'', w, s))"

definition sh_CreateTransaction :: "strict_lib \<Rightarrow> 's strict_handler \<Rightarrow> 's writer_handler" where
  "sh_CreateTransaction lib sh w r s =
     (case Decode_NewTransaction (rq_Body r) of
        None \<Rightarrow> (None, so_RequestError (sh_options sh) w r
                 (Errorf cant_decode_json (sl_DecodeError lib ''NewTransaction'' (rq_Body r))), s)
      | Some body \<Rightarrow> strict_run sh ''CreateTransaction'' (call_CreateTransaction (sh_ssi sh)) (CreateTransactionRequest body) w r s)"

section \<open>Servers\<close>

record 's server_interface =
  si_ListAccounts :: "'s writer_handler"
  si_CreateAccount :: "'s writer_handler"
  si_GetAccount :: "string \<Rightarrow> 's writer_handler"
  si_GetBalance :: "string \<Rightarrow> 's writer_handler"
  si_RedeemPoints :: "string \<Rightarrow> 's writer_handler"
  si_ListTransactions :: "string \<Rightarrow> 's writer_handler"
  si_ListAudit :: "string option \<Rightarrow> 's writer_handler"
  si_IngestBatch :: "'s writer_handler"
  si_GetHealth :: "'s writer_handler"
  si_Login :: "'s writer_handler"
  si_CreateTransaction :: "'s writer_handler"

definition strict_interface :: "strict_lib \<Rightarrow> 's strict_handler \<Rightarrow> 's server_interface" where
  "strict_interface lib sh =
     \<lparr>si_ListAccounts = sh_ListAccounts sh, si_CreateAccount = sh_CreateAccount lib sh,
      si_GetAccount = sh_GetAccount sh, si_GetBalance = sh_GetBalance sh,
      si_RedeemPoints = sh_RedeemPoints lib sh, si_ListTransactions = sh_ListTransactions sh,
      si_ListAudit = sh_ListAudit sh, si_IngestBatch = sh_IngestBatch lib sh,
      si_GetHealth = sh_GetHealth sh, si_Login = sh_Login lib sh,
      si_CreateTransaction = sh_CreateTransaction lib sh\<rparr>"

definition Unimplemented :: "'s server_interface" where
  "Unimplemented =
     \<lparr>si_ListAccounts = (\<lambda>w r s. (None, WriteHeader 501 w, s)),
      si_CreateAccount = (\<lambda>w r s. (None, WriteHeader 501 w, s)),
      si_GetAccount = (\<lambda>accountId w r s. (None, WriteHeader 501 w, s)),
      si_GetBalance = (\<lambda>accountId w r s. (None, WriteHeader 501 w, s)),
      si_RedeemPoints = (\<lambda>accountId w r s. (None, WriteHeader 501 w, s)),
      si_ListTransactions = (\<lambda>accountId w r s. (None, WriteHeader 501 w, s)),
      si_ListAudit = (\<lambda>params w r s. (None, WriteHeader 501 w, s)),
      si_IngestBatch = (\<lambda>w r s. (None, WriteHeader 501 w, s)),
      si_GetHealth = (\<lambda>w r s. (None, WriteHeader 501 w, s)),
      si_Login = (\<lambda>w r s. (None, WriteHeader 501 w, s)),
      si_CreateTransaction = (\<lambda>w r s. (None, WriteHeader 501 w, s))\<rparr>"

section \<open>Errors of the parameter binding\<close>

datatype param_error_value =
    UnescapedCookieParamError string goerr
  | UnmarshalingParamError string goerr
  | RequiredParamError string
  | RequiredHeaderError string goerr
  | InvalidParamFormatError string goerr
  | TooManyValuesForParamError string int

fun param_error_text :: "param_error_value \<Rightarrow> string" where
  "param_error_text (UnescapedCookieParamError p e) =
     ''error unescaping cookie parameter '' @ [CHR 0x27] @ p @ [CHR 0x27]"
| "param_error_text (UnmarshalingParamError p e) =
     ''Error unmarshaling parameter '' @ p @ '' as JSON: '' @ err_text e"
| "param_error_text (RequiredParamError p) = ''Query argument '' @ p @ '' is required, but not found''"
| "param_error_text (RequiredHeaderError p e) = ''Header parameter '' @ p @ '' is required, but not found''"
| "param_error_text (InvalidParamFormatError p e) = ''Invalid format for parameter '' @ p @ '': '' @ err_text e"
| "param_error_text (TooManyValuesForParamError p n) = ''Expected one value for '' @ p @ '', got '' @ int_text n"

fun param_error_unwrap :: "param_error_value \<Rightarrow> goerr option" where
  "param_error_unwrap (UnescapedCookieParamError p e) = Some e"
| "param_error_unwrap (UnmarshalingParamError p e) = Some e"
| "param_error_unwrap (RequiredParamError p) = None"
| "param_error_unwrap (RequiredHeaderError p e) = Some e"
| "param_error_unwrap (InvalidParamFormatError p e) = Some e"
| "param_error_unwrap (TooManyValuesForParamError p n) = None"

text \<open>The error handler of the generated router when the options have none; gowallet's options do.\<close>

definition default_ErrorHandler :: "writer \<Rightarrow> request \<Rightarrow> param_error_value \<Rightarrow> writer" where
  "default_ErrorHandler w r err = http_Error (param_error_text err) 400 w"

text \<open>One call of the strict server: the method the route table reaches for an operation.\<close>

fun strict_dispatch ::
    "strict_lib \<Rightarrow> 's strict_handler \<Rightarrow> target \<Rightarrow> string \<Rightarrow> string option \<Rightarrow> 's writer_handler" where
  "strict_dispatch lib sh OpListAccounts accountId params = sh_ListAccounts sh"
| "strict_dispatch lib sh OpCreateAccount accountId params = sh_CreateAccount lib sh"
| "strict_dispatch lib sh OpGetAccount accountId params = sh_GetAccount sh accountId"
| "strict_dispatch lib sh OpGetBalance accountId params = sh_GetBalance sh accountId"
| "strict_dispatch lib sh OpRedeemPoints accountId params = sh_RedeemPoints lib sh accountId"
| "strict_dispatch lib sh OpListTransactions accountId params = sh_ListTransactions sh accountId"
| "strict_dispatch lib sh OpListAudit accountId params = sh_ListAudit sh params"
| "strict_dispatch lib sh OpIngestBatch accountId params = sh_IngestBatch lib sh"
| "strict_dispatch lib sh OpGetHealth accountId params = sh_GetHealth sh"
| "strict_dispatch lib sh OpLogin accountId params = sh_Login lib sh"
| "strict_dispatch lib sh OpCreateTransaction accountId params = sh_CreateTransaction lib sh"
| "strict_dispatch lib sh ServeSpec accountId params = (\<lambda>w r s. (None, w, s))"
| "strict_dispatch lib sh ServeSwagger accountId params = (\<lambda>w r s. (None, w, s))"

section \<open>What a Visit method sends\<close>

text \<open>The declared answers of an operation, as the writes of its response objects.\<close>

fun op_visits :: "target \<Rightarrow> visit set" where
  "op_visits OpListAccounts = range VisitListAccountsResponse"
| "op_visits OpCreateAccount = range VisitCreateAccountResponse"
| "op_visits OpGetAccount = range VisitGetAccountResponse"
| "op_visits OpGetBalance = range VisitGetBalanceResponse"
| "op_visits OpRedeemPoints = range VisitRedeemPointsResponse"
| "op_visits OpListTransactions = range VisitListTransactionsResponse"
| "op_visits OpListAudit = range VisitListAuditResponse"
| "op_visits OpIngestBatch = range VisitIngestBatchResponse"
| "op_visits OpGetHealth = range VisitGetHealthResponse"
| "op_visits OpLogin = range VisitLoginResponse"
| "op_visits OpCreateTransaction = range VisitCreateTransactionResponse"
| "op_visits ServeSpec = {}"
| "op_visits ServeSwagger = {}"

fun op_id :: "target \<Rightarrow> string" where
  "op_id OpListAccounts = ''ListAccounts''"
| "op_id OpCreateAccount = ''CreateAccount''"
| "op_id OpGetAccount = ''GetAccount''"
| "op_id OpGetBalance = ''GetBalance''"
| "op_id OpRedeemPoints = ''RedeemPoints''"
| "op_id OpListTransactions = ''ListTransactions''"
| "op_id OpListAudit = ''ListAudit''"
| "op_id OpIngestBatch = ''IngestBatch''"
| "op_id OpGetHealth = ''GetHealth''"
| "op_id OpLogin = ''Login''"
| "op_id OpCreateTransaction = ''CreateTransaction''"
| "op_id ServeSpec = []"
| "op_id ServeSwagger = []"

lemmas visit_members =
  rangeI [of VisitListAccountsResponse "ListAccounts200 x" for x, unfolded VisitListAccountsResponse.simps]
  rangeI [of VisitListAccountsResponse "ListAccounts401 x" for x, unfolded VisitListAccountsResponse.simps]
  rangeI [of VisitListAccountsResponse "ListAccounts403 x" for x, unfolded VisitListAccountsResponse.simps]
  rangeI [of VisitCreateAccountResponse "CreateAccount201 x (Some l)" for x l, unfolded VisitCreateAccountResponse.simps option.case]
  rangeI [of VisitCreateAccountResponse "CreateAccount400 x" for x, unfolded VisitCreateAccountResponse.simps]
  rangeI [of VisitCreateAccountResponse "CreateAccount401 x" for x, unfolded VisitCreateAccountResponse.simps]
  rangeI [of VisitCreateAccountResponse "CreateAccount409 x" for x, unfolded VisitCreateAccountResponse.simps]
  rangeI [of VisitGetAccountResponse "GetAccount200 x" for x, unfolded VisitGetAccountResponse.simps]
  rangeI [of VisitGetAccountResponse "GetAccount400 x" for x, unfolded VisitGetAccountResponse.simps]
  rangeI [of VisitGetAccountResponse "GetAccount401 x" for x, unfolded VisitGetAccountResponse.simps]
  rangeI [of VisitGetAccountResponse "GetAccount403 x" for x, unfolded VisitGetAccountResponse.simps]
  rangeI [of VisitGetAccountResponse "GetAccount404 x" for x, unfolded VisitGetAccountResponse.simps]
  rangeI [of VisitGetBalanceResponse "GetBalance200 x" for x, unfolded VisitGetBalanceResponse.simps]
  rangeI [of VisitGetBalanceResponse "GetBalance400 x" for x, unfolded VisitGetBalanceResponse.simps]
  rangeI [of VisitGetBalanceResponse "GetBalance401 x" for x, unfolded VisitGetBalanceResponse.simps]
  rangeI [of VisitGetBalanceResponse "GetBalance403 x" for x, unfolded VisitGetBalanceResponse.simps]
  rangeI [of VisitGetBalanceResponse "GetBalance404 x" for x, unfolded VisitGetBalanceResponse.simps]
  rangeI [of VisitRedeemPointsResponse "RedeemPoints200 x" for x, unfolded VisitRedeemPointsResponse.simps]
  rangeI [of VisitRedeemPointsResponse "RedeemPoints201 x" for x, unfolded VisitRedeemPointsResponse.simps]
  rangeI [of VisitRedeemPointsResponse "RedeemPoints400 x" for x, unfolded VisitRedeemPointsResponse.simps]
  rangeI [of VisitRedeemPointsResponse "RedeemPoints401 x" for x, unfolded VisitRedeemPointsResponse.simps]
  rangeI [of VisitRedeemPointsResponse "RedeemPoints403 x" for x, unfolded VisitRedeemPointsResponse.simps]
  rangeI [of VisitRedeemPointsResponse "RedeemPoints404 x" for x, unfolded VisitRedeemPointsResponse.simps]
  rangeI [of VisitRedeemPointsResponse "RedeemPoints409 x" for x, unfolded VisitRedeemPointsResponse.simps]
  rangeI [of VisitListTransactionsResponse "ListTransactions200 x" for x, unfolded VisitListTransactionsResponse.simps]
  rangeI [of VisitListTransactionsResponse "ListTransactions400 x" for x, unfolded VisitListTransactionsResponse.simps]
  rangeI [of VisitListTransactionsResponse "ListTransactions401 x" for x, unfolded VisitListTransactionsResponse.simps]
  rangeI [of VisitListTransactionsResponse "ListTransactions403 x" for x, unfolded VisitListTransactionsResponse.simps]
  rangeI [of VisitListTransactionsResponse "ListTransactions404 x" for x, unfolded VisitListTransactionsResponse.simps]
  rangeI [of VisitListAuditResponse "ListAudit200 x" for x, unfolded VisitListAuditResponse.simps]
  rangeI [of VisitListAuditResponse "ListAudit400 x" for x, unfolded VisitListAuditResponse.simps]
  rangeI [of VisitListAuditResponse "ListAudit401 x" for x, unfolded VisitListAuditResponse.simps]
  rangeI [of VisitListAuditResponse "ListAudit403 x" for x, unfolded VisitListAuditResponse.simps]
  rangeI [of VisitIngestBatchResponse "IngestBatch200 x" for x, unfolded VisitIngestBatchResponse.simps]
  rangeI [of VisitIngestBatchResponse "IngestBatch400 x" for x, unfolded VisitIngestBatchResponse.simps]
  rangeI [of VisitIngestBatchResponse "IngestBatch401 x" for x, unfolded VisitIngestBatchResponse.simps]
  rangeI [of VisitIngestBatchResponse "IngestBatch403 x" for x, unfolded VisitIngestBatchResponse.simps]
  rangeI [of VisitGetHealthResponse "GetHealth200 x" for x, unfolded VisitGetHealthResponse.simps]
  rangeI [of VisitGetHealthResponse "GetHealth503 x" for x, unfolded VisitGetHealthResponse.simps]
  rangeI [of VisitLoginResponse "Login200 x" for x, unfolded VisitLoginResponse.simps]
  rangeI [of VisitLoginResponse "Login400 x" for x, unfolded VisitLoginResponse.simps]
  rangeI [of VisitLoginResponse "Login401 x" for x, unfolded VisitLoginResponse.simps]
  rangeI [of VisitCreateTransactionResponse "CreateTransaction200 x" for x, unfolded VisitCreateTransactionResponse.simps]
  rangeI [of VisitCreateTransactionResponse "CreateTransaction201 x" for x, unfolded VisitCreateTransactionResponse.simps]
  rangeI [of VisitCreateTransactionResponse "CreateTransaction400 x" for x, unfolded VisitCreateTransactionResponse.simps]
  rangeI [of VisitCreateTransactionResponse "CreateTransaction401 x" for x, unfolded VisitCreateTransactionResponse.simps]
  rangeI [of VisitCreateTransactionResponse "CreateTransaction403 x" for x, unfolded VisitCreateTransactionResponse.simps]
  rangeI [of VisitCreateTransactionResponse "CreateTransaction404 x" for x, unfolded VisitCreateTransactionResponse.simps]
  rangeI [of VisitCreateTransactionResponse "CreateTransaction409 x" for x, unfolded VisitCreateTransactionResponse.simps]

lemma Visit_objects:
  "\<exists>hs st b. VisitListAccountsResponse o0 = visit_json hs st b"
  "\<exists>hs st b. VisitCreateAccountResponse o1 = visit_json hs st b"
  "\<exists>hs st b. VisitGetAccountResponse o2 = visit_json hs st b"
  "\<exists>hs st b. VisitGetBalanceResponse o3 = visit_json hs st b"
  "\<exists>hs st b. VisitRedeemPointsResponse o4 = visit_json hs st b"
  "\<exists>hs st b. VisitListTransactionsResponse o5 = visit_json hs st b"
  "\<exists>hs st b. VisitListAuditResponse o6 = visit_json hs st b"
  "\<exists>hs st b. VisitIngestBatchResponse o7 = visit_json hs st b"
  "\<exists>hs st b. VisitGetHealthResponse o8 = visit_json hs st b"
  "\<exists>hs st b. VisitLoginResponse o9 = visit_json hs st b"
  "\<exists>hs st b. VisitCreateTransactionResponse o10 = visit_json hs st b"
  apply (cases o0; force)
  apply (cases o1; force)
  apply (cases o2; force)
  apply (cases o3; force)
  apply (cases o4; force)
  apply (cases o5; force)
  apply (cases o6; force)
  apply (cases o7; force)
  apply (cases o8; force)
  apply (cases o9; force)
  apply (cases o10; force)
  done

lemma op_visits_json: "v \<in> op_visits t \<Longrightarrow> \<exists>hs st b. v = visit_json hs st b"
  by (cases t) (auto simp: Visit_objects)

definition unsent :: "writer \<Rightarrow> bool" where
  "unsent w \<longleftrightarrow> wr_Wrote w = None \<and> wr_Body w = [] \<and> wr_Break w = None"

lemma unsent_fresh [simp]: "unsent fresh_writer"
  by (simp add: unsent_def fresh_writer_def)

lemma sent_fresh [simp]: "sent fresh_writer = (200, [], [])"
  by (simp add: sent_def fresh_writer_def)

lemma Header_simps [simp]:
  "unsent (Header_Set k v w) = unsent w" "unsent (Header_Del k w) = unsent w"
  by (simp_all add: Header_Set_def Header_Del_def unsent_def)

lemma Write_unsent:
  assumes "unsent w"
  shows "Write b (WriteHeader code w) =
    (None, w\<lparr>wr_Wrote := Some (code, wr_Header w), wr_Body := b\<rparr>)"
  using assms by (simp add: unsent_def Write_def WriteHeader_def)

text \<open>A visit of an untouched writer: the whole answer, or the encoder's error and nothing written.\<close>

definition with_headers :: "headers \<Rightarrow> writer \<Rightarrow> writer" where
  "with_headers hs w =
     fold (\<lambda>(k, v). Header_Set k v) hs (Header_Set ''Content-Type'' ''application/json'' w)"

lemma unsent_with_headers [simp]: "unsent (with_headers hs w) = unsent w"
proof -
  have "unsent (fold (\<lambda>(k, v). Header_Set k v) hs x) = unsent x" for x
    by (induction hs arbitrary: x) (simp_all add: case_prod_unfold)
  then show ?thesis by (simp add: with_headers_def)
qed

lemma visit_json_unsent:
  assumes "unsent w"
  shows "visit_json hs st b w =
    (case json_body b of
       None \<Rightarrow> (Some marshal_error, w)
     | Some j \<Rightarrow> (None, (with_headers hs w)\<lparr>wr_Wrote := Some (st, wr_Header (with_headers hs w)),
                   wr_Body := render j @ [CHR 0x0A]\<rparr>))"
proof (cases "json_body b")
  case None
  then show ?thesis by (simp add: visit_json_def Encode_def)
next
  case (Some j)
  have "unsent (with_headers hs w)" using assms by simp
  from Write_unsent [OF this] Some show ?thesis
    by (simp add: visit_json_def Encode_def with_headers_def)
qed

lemma visit_failed_unsent:
  "v \<in> op_visits t \<Longrightarrow> unsent w \<Longrightarrow> v w = (Some err, w') \<Longrightarrow> w' = w \<and> err = marshal_error"
  by (auto dest!: op_visits_json simp: visit_json_unsent split: option.splits)

section \<open>The answer of the strict handler\<close>

definition text_answer :: "int \<Rightarrow> string \<Rightarrow> int \<times> headers \<times> string \<Rightarrow> bool" where
  "text_answer code message a \<longleftrightarrow> (case a of (c, hs, b) \<Rightarrow>
     c = code \<and> b = message @ [CHR 0x0A] \<and> map_of hs ''Content-Type'' = Some ''text/plain; charset=utf-8'')"

lemma http_Error_sent: "unsent w \<Longrightarrow> text_answer code message (sent (http_Error message code w))"
proof -
  let ?w = "Header_Set ''X-Content-Type-Options'' ''nosniff''
    (Header_Set ''Content-Type'' ''text/plain; charset=utf-8'' (Header_Del ''Content-Length'' w))"
  assume "unsent w"
  then have "unsent ?w" by simp
  from Write_unsent [OF this] have "sent (http_Error message code w) = (code, wr_Header ?w, message @ [CHR 0x0A])"
    by (simp add: http_Error_def sent_def)
  moreover have "map_of (wr_Header ?w) ''Content-Type'' = Some ''text/plain; charset=utf-8''"
    by (simp add: Header_Set_def update_conv)
  ultimately show ?thesis by (simp add: text_answer_def)
qed

definition declared_answer :: "target \<Rightarrow> writer \<Rightarrow> bool" where
  "declared_answer t w \<longleftrightarrow> (\<exists>v \<in> op_visits t. v fresh_writer = (None, w))"

text \<open>The returned object is one of the operation's own response types.\<close>

definition returns_declared :: "target \<Rightarrow> strict_return \<Rightarrow> bool" where
  "returns_declared t ret \<longleftrightarrow> (\<forall>ob err. ret = Inr (Some ob, err) \<longrightarrow>
     (\<exists>v \<in> op_visits t. ob_method ob (visit_method (op_id t)) = Some v))"

definition strict_answer :: "target \<Rightarrow> strict_return \<Rightarrow> writer \<Rightarrow> bool" where
  "strict_answer t ret w \<longleftrightarrow>
     (case ret of
        Inl panic \<Rightarrow> w = fresh_writer
      | Inr (response, Some e) \<Rightarrow> text_answer 500 (err_text e) (sent w)
      | Inr (None, None) \<Rightarrow> sent w = (200, [], [])
      | Inr (Some ob, None) \<Rightarrow> declared_answer t w \<or> text_answer 500 (err_text marshal_error) (sent w))"

lemma respond_answer:
  assumes "returns_declared t ret" and "respond default_options (op_id t) r (ret, fresh_writer, s) = (p, w, s')"
  shows "s' = s \<and> strict_answer t ret w \<and> (p = None \<longleftrightarrow> \<not> isl ret)"
proof (cases ret)
  case (Inl panic)
  with assms(2) show ?thesis by (auto simp: respond_def strict_answer_def)
next
  case (Inr q)
  obtain response e where ret: "ret = Inr (response, e)" using Inr by (cases q) auto
  show ?thesis
  proof (cases "e = None \<and> response \<noteq> None")
    case True
    then obtain ob where ob: "response = Some ob" and e: "e = None" by auto
    obtain v where v: "v \<in> op_visits t" and m: "ob_method ob (visit_method (op_id t)) = Some v"
      using assms(1) ret ob by (auto simp: returns_declared_def)
    obtain x w1 where run: "v fresh_writer = (x, w1)" by fastforce
    show ?thesis
    proof (cases x)
      case None
      with v run assms(2) m ob e ret show ?thesis
        by (auto simp: respond_def strict_answer_def declared_answer_def)
    next
      case (Some err)
      with visit_failed_unsent [OF v unsent_fresh] run have "w1 = fresh_writer" "err = marshal_error" by auto
      with Some run assms(2) m ob e ret http_Error_sent [OF unsent_fresh] show ?thesis
        by (auto simp: respond_def strict_answer_def default_options_def)
    qed
  next
    case False
    with assms(2) ret http_Error_sent [OF unsent_fresh] show ?thesis
      by (auto simp: respond_def strict_answer_def default_options_def split: option.splits)
  qed
qed

text \<open>
  What the methods of the server return on a request, by operation: \<open>None\<close> when the request object
  cannot be built.
\<close>

fun method_return ::
    "strict_lib \<Rightarrow> 's strict_server \<Rightarrow> target \<Rightarrow> string \<Rightarrow> string option \<Rightarrow> request \<Rightarrow> 's \<Rightarrow> (strict_return \<times> 's) option" where
  "method_return lib ssi OpListAccounts accountId params r s =
     Some (ss_ListAccounts ssi r s)"
| "method_return lib ssi OpCreateAccount accountId params r s =
     map_option (\<lambda>b. ss_CreateAccount ssi b r s) (Decode_NewAccount (rq_Body r))"
| "method_return lib ssi OpGetAccount accountId params r s =
     Some (ss_GetAccount ssi accountId r s)"
| "method_return lib ssi OpGetBalance accountId params r s =
     Some (ss_GetBalance ssi accountId r s)"
| "method_return lib ssi OpRedeemPoints accountId params r s =
     map_option (\<lambda>b. ss_RedeemPoints ssi accountId b r s) (Decode_NewRedemption (rq_Body r))"
| "method_return lib ssi OpListTransactions accountId params r s =
     Some (ss_ListTransactions ssi accountId r s)"
| "method_return lib ssi OpListAudit accountId params r s =
     Some (ss_ListAudit ssi params r s)"
| "method_return lib ssi OpIngestBatch accountId params r s =
     (case sl_MultipartReader lib r of Inl e \<Rightarrow> None | Inr reader \<Rightarrow> Some (ss_IngestBatch ssi reader r s))"
| "method_return lib ssi OpGetHealth accountId params r s =
     Some (ss_GetHealth ssi r s)"
| "method_return lib ssi OpLogin accountId params r s =
     map_option (\<lambda>b. ss_Login ssi b r s) (Decode_LoginRequest (rq_Body r))"
| "method_return lib ssi OpCreateTransaction accountId params r s =
     map_option (\<lambda>b. ss_CreateTransaction ssi b r s) (Decode_NewTransaction (rq_Body r))"
| "method_return lib ssi ServeSpec accountId params r s = None"
| "method_return lib ssi ServeSwagger accountId params r s = None"

fun build_error :: "strict_lib \<Rightarrow> target \<Rightarrow> request \<Rightarrow> goerr" where
  "build_error lib OpIngestBatch r = Errorf cant_decode_multipart (projl (sl_MultipartReader lib r))"
| "build_error lib OpCreateAccount r = Errorf cant_decode_json (sl_DecodeError lib ''NewAccount'' (rq_Body r))"
| "build_error lib OpRedeemPoints r = Errorf cant_decode_json (sl_DecodeError lib ''NewRedemption'' (rq_Body r))"
| "build_error lib OpLogin r = Errorf cant_decode_json (sl_DecodeError lib ''LoginRequest'' (rq_Body r))"
| "build_error lib t r = Errorf cant_decode_json (sl_DecodeError lib ''NewTransaction'' (rq_Body r))"

lemmas strict_method_defs = sh_ListAccounts_def call_ListAccounts_def
  sh_CreateAccount_def call_CreateAccount_def
  sh_GetAccount_def call_GetAccount_def
  sh_GetBalance_def call_GetBalance_def
  sh_RedeemPoints_def call_RedeemPoints_def
  sh_ListTransactions_def call_ListTransactions_def
  sh_ListAudit_def call_ListAudit_def
  sh_IngestBatch_def call_IngestBatch_def
  sh_GetHealth_def call_GetHealth_def
  sh_Login_def call_Login_def
  sh_CreateTransaction_def call_CreateTransaction_def

lemma strict_dispatch_run:
  assumes "t \<noteq> ServeSpec" and "t \<noteq> ServeSwagger"
  shows "strict_dispatch lib (NewStrictHandler ssi []) t accountId params w r s =
    (case method_return lib ssi t accountId params r s of
       Some (ret, s') \<Rightarrow> respond default_options (op_id t) r (ret, w, s')
     | None \<Rightarrow> (None, http_Error (err_text (build_error lib t r)) 400 w, s))"
  using assms
  by (cases t) (simp_all add: strict_method_defs strict_run_def NewStrictHandler_def default_options_def
      split: option.splits sum.splits prod.splits)

end
