(* ===== verification/Declared.thy ===== *)
theory Declared
  imports Strict System
begin

text \<open>
  The hand-written handlers against the generated contract: the answers an operation declares are its
  response objects, and a handler over the store answers as one of them, or with a 500.

  \<open>runs_op\<close> is a run of any of the eleven handlers. \<open>answers_as\<close> compares what a client receives:
  the status, the headers as a map, and the body; a body that is not byte for byte the same has the
  same members in another order (the health probe writes its own bytes).
\<close>

section \<open>Runs and answers\<close>

inductive runs_op ::
    "('e, 's) server \<Rightarrow> 'e world \<Rightarrow> target \<Rightarrow> request \<Rightarrow> 's \<Rightarrow> response \<Rightarrow> 's \<Rightarrow> bool" for sv wo where
  list_accounts: "h_ListAccounts sv wo r s = (p, s') \<Longrightarrow> runs_op sv wo OpListAccounts r s p s'"
| create_account: "h_CreateAccount sv wo r s = (p, s') \<Longrightarrow> runs_op sv wo OpCreateAccount r s p s'"
| get_account: "h_GetAccount sv wo r a s = (p, s') \<Longrightarrow> runs_op sv wo OpGetAccount r s p s'"
| get_balance: "h_GetBalance sv wo r a s = (p, s') \<Longrightarrow> runs_op sv wo OpGetBalance r s p s'"
| redeem: "h_RedeemPoints sv wo r a s = (p, s') \<Longrightarrow> runs_op sv wo OpRedeemPoints r s p s'"
| list_transactions: "h_ListTransactions sv wo r a s = (p, s') \<Longrightarrow> runs_op sv wo OpListTransactions r s p s'"
| list_audit: "h_ListAudit sv wo r q s = (p, s') \<Longrightarrow> runs_op sv wo OpListAudit r s p s'"
| batch: "h_IngestBatch sv wo r s = (p, s') \<Longrightarrow> runs_op sv wo OpIngestBatch r s p s'"
| health: "h_GetHealth sv wo r s = (p, s') \<Longrightarrow> runs_op sv wo OpGetHealth r s p s'"
| login: "h_Login sv wo r s = (p, s') \<Longrightarrow> runs_op sv wo OpLogin r s p s'"
| transaction: "h_CreateTransaction sv wo r s = (p, s') \<Longrightarrow> runs_op sv wo OpCreateTransaction r s p s'"

definition json_alike :: "string \<Rightarrow> string \<Rightarrow> bool" where
  "json_alike a b \<longleftrightarrow> a = b \<or>
     (\<exists>xs ys. json_first a = Some (JObj xs) \<and> json_first b = Some (JObj ys) \<and> set xs = set ys
       \<and> distinct (map fst xs) \<and> distinct (map fst ys))"

definition same_answer :: "int \<times> headers \<times> string \<Rightarrow> response \<Rightarrow> bool" where
  "same_answer a p \<longleftrightarrow> (case a of (c, hs, b) \<Rightarrow>
     c = rs_Status p \<and> map_of hs = map_of (rs_Header p) \<and> json_alike b (body_bytes (rs_Body p)))"

text \<open>
  A value with a time that has no JSON form is the one case where the two servers differ: the \<open>Visit\<close>
  method returns an error, a hand-written handler has sent its status and no body.
\<close>

definition answers_as :: "visit \<Rightarrow> response \<Rightarrow> bool" where
  "answers_as v p \<longleftrightarrow>
     (case v fresh_writer of
        (None, w) \<Rightarrow> same_answer (sent w) p
      | (Some err, w) \<Rightarrow> err = marshal_error \<and> body_bytes (rs_Body p) = [])"

lemma json_first_Nil: "json_first [] = None"
  by code_simp

lemma json_alike_eq: "x = b \<Longrightarrow> json_alike (body_bytes b) (body_bytes x)"
  by (simp add: json_alike_def)

lemma answers_as_alike:
  assumes "rs_Status p = st" and "json_alike (body_bytes b) (body_bytes (rs_Body p))" and "\<nexists>x. b = BBytes x"
    and "map_of (rs_Header p) = map_of (wr_Header (with_headers hs fresh_writer))"
  shows "answers_as (visit_json hs st b) p"
proof (cases "json_body b")
  case None
  then have "body_bytes b = []" using assms(3) by (cases b) (simp_all add: Encode_def)
  with assms(2) json_first_Nil have "body_bytes (rs_Body p) = []" by (auto simp: json_alike_def)
  with None assms show ?thesis by (simp add: answers_as_def visit_json_unsent)
next
  case (Some j)
  then have "body_bytes b = render j @ [CHR 0x0A]" using assms(3) by (cases b) (simp_all add: Encode_def)
  with Some assms show ?thesis
    by (simp add: answers_as_def visit_json_unsent same_answer_def sent_def)
qed

lemmas answers_as_visit_json = answers_as_alike [OF _ json_alike_eq]

lemma json_headers: "map_of (wr_Header (with_headers [] fresh_writer)) = [''Content-Type'' \<mapsto> ''application/json'']"
  by (simp add: with_headers_def Header_Set_def fresh_writer_def)

lemma answers_writeJSON:
  assumes "visit_json [] st b \<in> op_visits t" and "\<nexists>x. b = BBytes x"
  shows "\<exists>v \<in> op_visits t. answers_as v (writeJSON [] st b)"
proof -
  have "answers_as (visit_json [] st b) (writeJSON [] st b)"
    by (rule answers_as_visit_json) (use assms(2) in \<open>simp_all add: json_headers\<close>, simp add: writeJSON_def)
  then show ?thesis using assms(1) by blast
qed

lemma answers_writeError:
  assumes "\<And>x. visit_json [] st (BError x) \<in> op_visits t"
  shows "\<exists>v \<in> op_visits t. answers_as v (writeError [] r st c m)"
proof -
  let ?p = "writeError [] r st c m"
  obtain x where x: "rs_Body ?p = BError x" by (simp add: writeError_def)
  have "answers_as (visit_json [] st (BError x)) ?p"
    by (rule answers_as_visit_json) (use x in \<open>simp_all add: json_headers\<close>, simp add: writeError_def)
  then show ?thesis using assms by blast
qed

section \<open>The errors of the store\<close>

text \<open>\<open>unknown_error\<close>: an error that carries no sentinel of the domain is answered 500.\<close>

definition domain_sentinels :: "sentinel set" where
  "domain_sentinels = {ErrForbidden, ErrNotFound, ErrAccountExists, ErrInsufficientBalance, ErrInvalidInput}"

definition carries :: "goerr \<Rightarrow> sentinel set \<Rightarrow> bool" where
  "carries err S \<longleftrightarrow> (\<forall>s \<in> domain_sentinels. errors_is err s \<longrightarrow> s \<in> S)"

lemma carries_simps [simp]:
  "carries (Sentinel s) S \<longleftrightarrow> s \<in> domain_sentinels \<longrightarrow> s \<in> S"
  "carries (ErrorsNew m) S" "carries (Errorf m e) S = carries e S"
  by (auto simp: carries_def)

lemma carries_mono: "carries e S \<Longrightarrow> S \<subseteq> T \<Longrightarrow> carries e T"
  by (auto simp: carries_def)

lemma carries_db_fail: "db_fail e c = Some err \<Longrightarrow> carries err S"
  by (auto dest!: db_fail_Some)

lemma ErrNoRows_foreign [simp]: "ErrNoRows \<notin> domain_sentinels"
  by (simp add: domain_sentinels_def)

lemma st_GetAccount_error: "st_GetAccount e i d = Inl err \<Longrightarrow> carries err {ErrNotFound}"
  by (auto simp: st_GetAccount_def q_GetAccount_def dest: carries_db_fail split: option.splits sum.splits if_splits)

lemma st_Balance_error: "st_Balance e i d = Inl err \<Longrightarrow> carries err {ErrNotFound}"
  by (auto simp: st_Balance_def q_AccountExists_def q_BalanceForAccount_def dest: carries_db_fail
      split: option.splits sum.splits if_splits)

lemma st_ListTransactions_error: "st_ListTransactions e i d = Inl err \<Longrightarrow> carries err {ErrNotFound}"
  by (auto simp: st_ListTransactions_def q_AccountExists_def q_ListTransactionsByAccount_def
      dest: carries_db_fail split: option.splits sum.splits if_splits)

lemma st_ListAudit_error: "st_ListAudit e a d = Inl err \<Longrightarrow> carries err {}"
  by (auto simp: st_ListAudit_def q_ListAuditLog_def q_ListAuditLogByAccount_def
      dest: carries_db_fail split: option.splits sum.splits if_splits)

lemma overdraft_guard_error:
  "overdraft_guard e t n tx = Some err \<Longrightarrow> carries err {ErrInsufficientBalance}"
  by (auto simp: overdraft_guard_def q_BalanceForAccount_def dest: carries_db_fail
      split: option.splits sum.splits if_splits)

lemma q_InsertTransaction_error: "q_InsertTransaction e p d = (Inl err, d') \<Longrightarrow> carries err S"
  by (auto simp: q_InsertTransaction_def Let_def dest: carries_db_fail split: option.splits if_splits)

lemma st_RecordTransaction_error:
  "st_RecordTransaction e t d = (Inl err, d') \<Longrightarrow> carries err {ErrNotFound, ErrInsufficientBalance}"
  by (auto simp: st_RecordTransaction_def q_AccountExists_def q_RowsAffected_def q_GetTransactionByRef_def
      dest: carries_db_fail q_InsertTransaction_error overdraft_guard_error [THEN carries_mono]
      split: option.splits sum.splits if_splits prod.splits)

lemma st_CreateAccount_error: "st_CreateAccount e a h d = (Some err, d') \<Longrightarrow> carries err {ErrAccountExists}"
  by (auto simp: st_CreateAccount_def q_CreateAccount_def Let_def dest: carries_db_fail
      split: option.splits if_splits)

lemma balance_rows_role:
  "balance_rows d rs = Some xs \<Longrightarrow> \<forall>r \<in> set rs. ar_role r = ''member'' \<or> ar_role r = ''admin'' \<Longrightarrow>
     \<forall>x \<in> set xs. br_role x = ''member'' \<or> br_role x = ''admin''"
  by (induction rs arbitrary: xs) (auto split: option.splits)

lemma summaries_total:
  "\<forall>x \<in> set xs. br_role x = ''member'' \<or> br_role x = ''admin'' \<Longrightarrow> summaries xs \<noteq> Inl err"
  by (induction xs) (auto simp: ParseRole_def role_consts split: sum.splits)

lemma st_ListAccounts_error:
  assumes "db_ok d" and "st_ListAccounts e d = Inl err"
  shows "carries err {}"
proof -
  have "\<forall>r \<in> set (sort_key ar_id (accounts d)). ar_role r = ''member'' \<or> ar_role r = ''admin''"
    using assms(1) by (auto simp: db_ok_def accounts_ok_def list_all_iff)
  then show ?thesis
    using assms(2) by (auto simp: st_ListAccounts_def q_ListAccountsWithBalance_def dest: carries_db_fail
        dest!: balance_rows_role summaries_total split: option.splits sum.splits)
qed

section \<open>Error answers\<close>

fun status_of :: "sentinel \<Rightarrow> int" where
  "status_of ErrForbidden = 403"
| "status_of ErrNotFound = 404"
| "status_of ErrAccountExists = 409"
| "status_of ErrInsufficientBalance = 409"
| "status_of ErrInvalidInput = 400"
| "status_of s = 500"

definition declares_error :: "target \<Rightarrow> int \<Rightarrow> bool" where
  "declares_error t st \<longleftrightarrow> (\<forall>x. visit_json [] st (BError x) \<in> op_visits t)"

definition settled :: "target \<Rightarrow> response \<Rightarrow> bool" where
  "settled t p \<longleftrightarrow> rs_Status p = 500 \<or> (\<exists>v \<in> op_visits t. answers_as v p)"

lemma settled_500 [simp]: "settled t (writeError hs r 500 c m)"
  by (simp add: settled_def)

lemma settled_writeError: "declares_error t st \<Longrightarrow> settled t (writeError [] r st c m)"
  by (simp add: settled_def declares_error_def answers_writeError)

lemma settled_writeJSON:
  "visit_json [] st b \<in> op_visits t \<Longrightarrow> \<nexists>x. b = BBytes x \<Longrightarrow> settled t (writeJSON [] st b)"
  by (simp add: settled_def answers_writeJSON)

lemma settled_domain:
  assumes "carries err S" and "\<And>s. s \<in> S \<Longrightarrow> declares_error t (status_of s)"
  shows "settled t (writeDomainError r err)"
proof -
  have "declares_error t (status_of s)" if "errors_is err s" "s \<in> domain_sentinels" for s
    using that assms by (auto simp: carries_def)
  from this [of ErrForbidden] this [of ErrNotFound] this [of ErrAccountExists]
    this [of ErrInsufficientBalance] this [of ErrInvalidInput]
  show ?thesis by (simp add: writeDomainError_def domain_sentinels_def settled_writeError)
qed

lemma settled_record_error:
  assumes "carries err S" and "declares_error t 404" and "\<And>s. s \<in> S \<Longrightarrow> declares_error t (status_of s)"
  shows "settled t (record_error r err)"
  using settled_domain [OF assms(1,3)] settled_writeError [OF assms(2)] by (simp add: record_error_def)

lemma declares_error_simps [simp]:
  "declares_error OpListAccounts 403" "declares_error OpCreateAccount 400" "declares_error OpCreateAccount 409"
  "declares_error OpGetAccount 403" "declares_error OpGetAccount 404"
  "declares_error OpGetBalance 403" "declares_error OpGetBalance 404"
  "declares_error OpRedeemPoints 400" "declares_error OpRedeemPoints 403" "declares_error OpRedeemPoints 404"
  "declares_error OpRedeemPoints 409" "declares_error OpListTransactions 403"
  "declares_error OpListTransactions 404" "declares_error OpListAudit 403" "declares_error OpIngestBatch 400"
  "declares_error OpIngestBatch 403" "declares_error OpLogin 400" "declares_error OpLogin 401"
  "declares_error OpCreateTransaction 400" "declares_error OpCreateTransaction 403"
  "declares_error OpCreateTransaction 404" "declares_error OpCreateTransaction 409"
  unfolding declares_error_def op_visits.simps by (intro allI visit_members)+

section \<open>The handlers\<close>

lemma settled_forbidden: "declares_error t 403 \<Longrightarrow> settled t (writeDomainError r (Sentinel ErrForbidden))"
  by (simp add: writeDomainError_Sentinel settled_writeError)

lemma settled_GetAccount: "settled OpGetAccount (fst (h_GetAccount (wallet_server pf) wo r a d))"
proof -
  have "settled OpGetAccount (writeJSON [] 200 (BAccount x))" for x
    by (rule settled_writeJSON) (simp_all add: visit_members)
  then show ?thesis
    using st_GetAccount_error [THEN settled_domain]
    by (auto simp: h_GetAccount_def svc_GetAccount_def authorizeTarget_eq settled_forbidden split: sum.split)
qed

lemma settled_GetBalance: "settled OpGetBalance (fst (h_GetBalance (wallet_server pf) wo r a d))"
proof -
  have "settled OpGetBalance (writeJSON [] 200 (BBalance x))" for x
    by (rule settled_writeJSON) (simp_all add: visit_members)
  then show ?thesis
    using st_Balance_error [THEN settled_domain]
    by (auto simp: h_GetBalance_def svc_Balance_def authorizeTarget_eq settled_forbidden split: sum.split)
qed

lemma settled_ListTransactions:
  "settled OpListTransactions (fst (h_ListTransactions (wallet_server pf) wo r a d))"
proof -
  have "settled OpListTransactions (writeJSON [] 200 (BTransactionList x))" for x
    by (rule settled_writeJSON) (simp_all add: visit_members)
  then show ?thesis
    using st_ListTransactions_error [THEN settled_domain]
    by (auto simp: h_ListTransactions_def svc_ListTransactions_def authorizeTarget_eq settled_forbidden
        split: sum.split)
qed

lemma settled_ListAccounts:
  assumes "db_ok d"
  shows "settled OpListAccounts (fst (h_ListAccounts (wallet_server pf) wo r d))"
proof -
  have "settled OpListAccounts (writeJSON [] 200 (BAccountList x))" for x
    by (rule settled_writeJSON) (simp_all add: visit_members)
  then show ?thesis
    using st_ListAccounts_error [OF assms, THEN settled_domain]
    by (auto simp: h_ListAccounts_def svc_ListAccounts_def requireAdmin_eq settled_forbidden split: sum.split)
qed

lemma settled_ListAudit: "settled OpListAudit (fst (h_ListAudit (wallet_server pf) wo r q d))"
proof -
  have "settled OpListAudit (writeJSON [] 200 (BAuditLog x))" for x
    by (rule settled_writeJSON) (simp_all add: visit_members)
  then show ?thesis
    using st_ListAudit_error [THEN settled_domain]
    by (auto simp: h_ListAudit_def svc_List_def requireAdmin_eq settled_forbidden Let_def split: sum.split)
qed

lemma settled_IngestBatch: "settled OpIngestBatch (fst (h_IngestBatch (wallet_server pf) wo r d))"
proof -
  have "settled OpIngestBatch (writeJSON [] 200 (BBatchSummary x))" for x
    by (rule settled_writeJSON) (simp_all add: visit_members)
  then show ?thesis
    by (auto simp: h_IngestBatch_def requireAdmin_eq settled_forbidden settled_writeError
        split: option.split list.split prod.split)
qed

text \<open>The recording handlers: every error of the three service calls is declared.\<close>

abbreviation record_sentinels :: "sentinel set" where
  "record_sentinels \<equiv> {ErrInvalidInput, ErrNotFound, ErrInsufficientBalance}"

lemma svc_call_error:
  assumes "svc_call_step (store_txns e) c d = (Inl err, d')"
  shows "carries err record_sentinels"
  using svc_call_step_cases [of "store_txns e" c d] assms
  by (auto dest!: sym [of "(Inl err, d')"] dest: st_RecordTransaction_error [THEN carries_mono])

lemma svc_Record_error:
  "svc_RecordEarn (store_txns e) t d = (Inl err, d') \<Longrightarrow> carries err record_sentinels"
  "svc_RecordSpend (store_txns e) t d = (Inl err, d') \<Longrightarrow> carries err record_sentinels"
  "svc_RecordRedeem (store_txns e) t d = (Inl err, d') \<Longrightarrow> carries err record_sentinels"
  using svc_call_error [of e "CallEarn t"] svc_call_error [of e "CallSpend t"]
    svc_call_error [of e "CallRedeem t"] by simp_all

lemma settled_CreateTransaction:
  "settled OpCreateTransaction (fst (h_CreateTransaction (wallet_server pf) wo r d))"
proof -
  have "settled OpCreateTransaction (writeJSON [] 200 (BTransaction x))"
    and "settled OpCreateTransaction (writeJSON [] 201 (BTransaction x))" for x
    by (rule settled_writeJSON; simp add: visit_members)+
  moreover have "settled OpCreateTransaction (record_error r err)" if "carries err record_sentinels" for err
    by (rule settled_record_error [OF that]) auto
  ultimately show ?thesis
    by (auto simp: h_CreateTransaction_def authorizeTarget_eq settled_forbidden settled_writeError
        dest: svc_Record_error split: option.split sum.split prod.split)
qed

lemma settled_RedeemPoints: "settled OpRedeemPoints (fst (h_RedeemPoints (wallet_server pf) wo r a d))"
proof -
  have "settled OpRedeemPoints (writeJSON [] 200 (BRedemption x))"
    and "settled OpRedeemPoints (writeJSON [] 201 (BRedemption x))" for x
    by (rule settled_writeJSON; simp add: visit_members)+
  moreover have "settled OpRedeemPoints (record_error r err)" if "carries err record_sentinels" for err
    by (rule settled_record_error [OF that]) auto
  ultimately show ?thesis
    by (auto simp: h_RedeemPoints_def authorizeTarget_eq settled_forbidden settled_writeError
        dest: svc_Record_error split: option.split sum.split prod.split)
qed

lemma settled_Login: "settled OpLogin (fst (h_Login (wallet_server pf) wo r d))"
proof -
  have "settled OpLogin (writeJSON [] 200 (BToken x))" for x
    by (rule settled_writeJSON) (simp_all add: visit_members)
  then show ?thesis
    by (auto simp: h_Login_def settled_writeError split: option.split sum.split)
qed

text \<open>The probe writes the two members in the other order and no line feed.\<close>

lemma health_alike:
  \<open>json_alike (body_bytes (BHealth \<lparr>gh_Db = ''up'', gh_Status = ''ok''\<rparr>)) ''{"status":"ok","db":"up"}''\<close>
  \<open>json_alike (body_bytes (BHealth \<lparr>gh_Db = ''down'', gh_Status = ''degraded''\<rparr>))
     ''{"status":"degraded","db":"down"}''\<close>
proof -
  have "json_first (body_bytes (BHealth \<lparr>gh_Db = ''up'', gh_Status = ''ok''\<rparr>))
      = Some (JObj [(''db'', JStr ''up''), (''status'', JStr ''ok'')])"
    and \<open>json_first ''{"status":"ok","db":"up"}'' = Some (JObj [(''status'', JStr ''ok''), (''db'', JStr ''up'')])\<close>
    by code_simp+
  then show \<open>json_alike (body_bytes (BHealth \<lparr>gh_Db = ''up'', gh_Status = ''ok''\<rparr>)) ''{"status":"ok","db":"up"}''\<close>
    by (simp add: json_alike_def insert_commute)
  have "json_first (body_bytes (BHealth \<lparr>gh_Db = ''down'', gh_Status = ''degraded''\<rparr>))
      = Some (JObj [(''db'', JStr ''down''), (''status'', JStr ''degraded'')])"
    and \<open>json_first ''{"status":"degraded","db":"down"}''
      = Some (JObj [(''status'', JStr ''degraded''), (''db'', JStr ''down'')])\<close>
    by code_simp+
  then show \<open>json_alike (body_bytes (BHealth \<lparr>gh_Db = ''down'', gh_Status = ''degraded''\<rparr>))
     ''{"status":"degraded","db":"down"}''\<close>
    by (simp add: json_alike_def insert_commute)
qed

lemma settled_GetHealth: "settled OpGetHealth (fst (h_GetHealth sv wo r s))"
proof (cases "sv_health sv (wo_call wo 0)")
  case None
  then have "answers_as (VisitGetHealthResponse (GetHealth200 \<lparr>gh_Db = ''up'', gh_Status = ''ok''\<rparr>))
      (fst (h_GetHealth sv wo r s))"
    unfolding VisitGetHealthResponse.simps
    by (intro answers_as_alike)
      (use health_alike(1) in \<open>simp_all add: h_GetHealth_def Check_def Let_def json_headers\<close>)
  then show ?thesis unfolding settled_def op_visits.simps by blast
next
  case (Some err)
  then have "answers_as (VisitGetHealthResponse (GetHealth503 \<lparr>gh_Db = ''down'', gh_Status = ''degraded''\<rparr>))
      (fst (h_GetHealth sv wo r s))"
    unfolding VisitGetHealthResponse.simps
    by (intro answers_as_alike)
      (use health_alike(2) in \<open>simp_all add: h_GetHealth_def Check_def Let_def json_headers\<close>)
  then show ?thesis unfolding settled_def op_visits.simps by blast
qed

text \<open>Creating an account: bcrypt's own errors are none of the domain's.\<close>

definition bcrypt_foreign :: "bcrypt \<Rightarrow> bool" where
  "bcrypt_foreign bc \<longleftrightarrow> (\<forall>secret cost err. bc_GenerateFromPassword bc secret cost = Inl err \<longrightarrow> carries err {})"

lemma svc_CreateAccount_error:
  assumes "bcrypt_foreign bc" and "svc_CreateAccount bc (store_accounts e) a secret d = (Some err, d')"
  shows "carries err {ErrInvalidInput, ErrAccountExists}"
  using assms by (auto simp: svc_CreateAccount_def hash_secret_def bcrypt_foreign_def
      dest: st_CreateAccount_error [THEN carries_mono] carries_mono split: if_splits sum.splits)

lemma svc_CreateAccount_found:
  assumes "svc_CreateAccount bc (store_accounts e) a secret d = (None, d')"
  shows "find_account d' (acc_ID a) \<noteq> None"
  using assms
  by (auto simp: svc_CreateAccount_def find_account_with_account split: if_splits sum.splits
      dest!: st_CreateAccount_cases)

lemma settled_CreateAccount:
  assumes "bcrypt_foreign (pf_bcrypt pf)"
  shows "settled OpCreateAccount (fst (h_CreateAccount (wallet_server pf) wo r d))"
proof -
  have made: "settled OpCreateAccount (writeJSON [(''Location'', l)] 201 (BAccount x))" for l x
  proof -
    have "answers_as (visit_json [(''Location'', l)] 201 (BAccount x)) (writeJSON [(''Location'', l)] 201 (BAccount x))"
      by (rule answers_as_visit_json)
        (simp_all add: with_headers_def Header_Set_def fresh_writer_def writeJSON_def fun_eq_iff)
    then have "answers_as (VisitCreateAccountResponse (CreateAccount201 x (Some l)))
        (writeJSON [(''Location'', l)] 201 (BAccount x))" by simp
    then show ?thesis unfolding settled_def op_visits.simps by blast
  qed
  have err: "settled OpCreateAccount (writeDomainError r err)"
    if "svc_CreateAccount (pf_bcrypt pf) (store_accounts e) a secret d = (Some err, d')" for e a secret err d'
    by (rule settled_domain [OF svc_CreateAccount_error [OF assms that]]) auto
  have read: "settled OpCreateAccount (writeDomainError r err)"
    if "find_account d' i \<noteq> None" "st_GetAccount e i d' = Inl err" for d' e i err
  proof -
    have "carries err {}"
      using that by (auto simp: st_GetAccount_def q_GetAccount_def dest!: db_fail_Some
          split: option.splits sum.splits if_splits)
    then show ?thesis by (rule settled_domain) simp
  qed
  show ?thesis
    using made err svc_CreateAccount_found read
    by (fastforce simp: h_CreateAccount_def svc_GetAccount_def settled_writeError
        split: option.split sum.split prod.split)
qed

lemma runs_op_settled:
  assumes "runs_op (wallet_server pf) wo t r d p d'" and "db_ok d" and "bcrypt_foreign (pf_bcrypt pf)"
  shows "settled t p"
  using assms(1)
proof cases
  case list_accounts
  then show ?thesis using settled_ListAccounts [OF assms(2)] by (metis fst_conv)
next
  case create_account
  then show ?thesis using settled_CreateAccount [OF assms(3)] by (metis fst_conv)
next
  case (get_account a)
  then show ?thesis using settled_GetAccount by (metis fst_conv)
next
  case (get_balance a)
  then show ?thesis using settled_GetBalance by (metis fst_conv)
next
  case (redeem a)
  then show ?thesis using settled_RedeemPoints by (metis fst_conv)
next
  case (list_transactions a)
  then show ?thesis using settled_ListTransactions by (metis fst_conv)
next
  case (list_audit q)
  then show ?thesis using settled_ListAudit by (metis fst_conv)
next
  case batch
  then show ?thesis using settled_IngestBatch by (metis fst_conv)
next
  case health
  then show ?thesis using settled_GetHealth by (metis fst_conv)
next
  case login
  then show ?thesis using settled_Login by (metis fst_conv)
next
  case transaction
  then show ?thesis using settled_CreateTransaction by (metis fst_conv)
qed

section \<open>The enums of the answers\<close>

text \<open>The named string types of a response hold any string; these are the values their enums allow.\<close>

fun well_typed :: "body \<Rightarrow> bool" where
  "well_typed (BAccountList xs) = list_all (\<lambda>x. AccountSummaryRole_Valid (gs_Role x)) xs"
| "well_typed (BTransactionList xs) = list_all (\<lambda>x. LedgerEntryKind_Valid (le_Kind x)) xs"
| "well_typed (BTransaction x) = TransactionKind_Valid (gt_Kind x)"
| "well_typed (BRedemption x) = RedemptionKind_Valid (rd_Kind x)"
| "well_typed (BAuditLog xs) = list_all (\<lambda>x. AuditEntryOutcome_Valid (ge_Outcome x)) xs"
| "well_typed (BToken x) = TokenResponseTokenType_Valid (tk_TokenType x)"
| "well_typed (BHealth x) = (HealthDb_Valid (gh_Db x) \<and> HealthStatus_Valid (gh_Status x))"
| "well_typed _ = True"

lemma well_typed_errors [simp]:
  "well_typed (rs_Body (writeError hs r st c m))" "well_typed (rs_Body (writeDomainError r err))"
  "well_typed (rs_Body (record_error r err))"
  by (simp_all add: writeError_def writeDomainError_def record_error_def)

lemma summaries_roles: "summaries rows = Inr xs \<Longrightarrow> \<forall>x \<in> set xs. AccountSummaryRole_Valid (as_Role x)"
  by (induction rows arbitrary: xs)
    (auto simp: ParseRole_Inr AccountSummaryRole_Valid_def role_consts split: sum.splits)

lemma ListAccounts_typed: "well_typed (rs_Body (fst (h_ListAccounts (wallet_server pf) wo r d)))"
  by (auto simp: h_ListAccounts_def svc_ListAccounts_def st_ListAccounts_def list_all_iff summary_to_wire_def
      dest: summaries_roles split: option.split sum.split sum.splits)

lemma row_kind:
  "db_ok d \<Longrightarrow> r \<in> set (transactions d) \<Longrightarrow> tr_kind r \<in> {''earn'', ''spend'', ''redeem''}"
  by (auto simp: db_ok_def txns_ok_def txn_row_ok_def list_all_iff)

lemma ListTransactions_typed:
  "db_ok d \<Longrightarrow> well_typed (rs_Body (fst (h_ListTransactions (wallet_server pf) wo r a d)))"
  by (auto simp: h_ListTransactions_def svc_ListTransactions_def st_ListTransactions_def
      q_ListTransactionsByAccount_def list_all_iff ledger_to_wire_def ledger_txn_def LedgerEntryKind_Valid_def
      dest!: row_kind split: option.split sum.split sum.splits option.splits if_splits)

lemma ListAudit_typed: "db_ok d \<Longrightarrow> well_typed (rs_Body (fst (h_ListAudit (wallet_server pf) wo r q d)))"
  by (auto simp: h_ListAudit_def svc_List_def st_ListAudit_def q_ListAuditLog_def q_ListAuditLogByAccount_def
      Let_def list_all_iff auditToWire_def auditFromRow_def AuditEntryOutcome_Valid_def db_ok_def audit_ok_def
      valid_outcome_def outcome_consts split: option.split sum.split sum.splits option.splits if_splits)

lemma held_kind: "db_ok d \<Longrightarrow> held_txn d k = Some u \<Longrightarrow> t_Kind u \<in> {''earn'', ''spend'', ''redeem''}"
  by (auto simp: held_txn_def txn_of_row_def dest!: find_txn_ref row_kind)

text \<open>The one value outside its enum: a redemption shown by a replayed POST /transactions.\<close>

lemma CreateTransaction_typed:
  assumes "db_ok d" and h: "h_CreateTransaction (wallet_server pf) wo r d = (p, d')"
  shows "well_typed (rs_Body p) \<or> (rs_Status p = 200 \<and>
    (\<exists>k u. held_txn d k = Some u \<and> t_Kind u = KindRedeem \<and> rs_Body p = BTransaction (txn_to_wire u)))"
  using h_CreateTransaction_cases [OF h]
proof (elim disjE exE conjE)
  assume "is_error p"
  then show ?thesis by (auto simp: is_error_def split: body.splits)
next
  fix body res
  assume step: "svc_call_step (sv_txns (wallet_server pf) (wo_call wo 0)) (txn_call body) d = (res, d')"
    and p: "p = record_response r (\<lambda>u. BTransaction (txn_to_wire u)) res"
  show ?thesis
  proof (cases res)
    case (Inl err)
    with p show ?thesis by (simp add: record_response_def)
  next
    case (Inr q)
    obtain u b where q: "q = (u, b)" by (cases q) auto
    have rec: "repo_RecordTransaction (store_txns (wo_call wo 0)) (svc_txn (txn_call body)) d = (Inr (u, b), d')"
      using svc_call_step_Inr [OF step [unfolded Inr q]] by simp
    show ?thesis
    proof (cases b)
      case True
      with ledger.record_created [OF assms(1)] rec have "t_Kind u = t_Kind (svc_txn (txn_call body))"
        by (auto simp: took_def)
      then have "TransactionKind_Valid (t_Kind u)"
        by (simp add: txn_call_def TransactionKind_Valid_def kind_consts)
      then show ?thesis using p Inr q by (simp add: record_response_def txn_to_wire_def)
    next
      case False
      with rec have "repo_RecordTransaction (store_txns (wo_call wo 0)) (svc_txn (txn_call body)) d
          = (Inr (u, False), d')" by simp
      from ledger.record_replay [OF assms(1) this]
      have held: "held_txn d (t_Ref (svc_txn (txn_call body))) = Some u" by blast
      with held_kind [OF assms(1) held] p Inr q False show ?thesis
        by (auto simp: record_response_def txn_to_wire_def TransactionKind_Valid_def kind_consts)
    qed
  qed
qed

lemma runs_op_typed:
  assumes "runs_op (wallet_server pf) wo t r d p d'" and "db_ok d" and "t \<noteq> OpCreateTransaction"
  shows "well_typed (rs_Body p)"
  using assms(1)
proof cases
  case list_accounts
  then show ?thesis using ListAccounts_typed by (metis fst_conv)
next
  case (list_transactions a)
  then show ?thesis using ListTransactions_typed [OF assms(2)] by (metis fst_conv)
next
  case (list_audit q)
  then show ?thesis using ListAudit_typed [OF assms(2)] by (metis fst_conv)
next
  case create_account
  then show ?thesis
    by (auto simp: h_CreateAccount_def split: option.splits if_splits prod.splits sum.splits)
next
  case (get_account a)
  then show ?thesis by (auto simp: h_GetAccount_def split: sum.splits)
next
  case (get_balance a)
  then show ?thesis by (auto simp: h_GetBalance_def split: sum.splits)
next
  case (redeem a)
  then show ?thesis
    by (auto simp: h_RedeemPoints_def redemption_to_wire_def RedemptionKind_Valid_def
        split: option.splits prod.splits sum.splits)
next
  case batch
  then show ?thesis
    by (auto simp: h_IngestBatch_def split: option.splits if_splits prod.splits list.splits)
next
  case health
  then show ?thesis by (auto simp: h_GetHealth_def Let_def)
next
  case login
  then show ?thesis
    by (auto simp: h_Login_def TokenResponseTokenType_Valid_def split: option.splits if_splits sum.splits)
next
  case transaction
  with assms(3) show ?thesis by simp
qed

end
