(* ===== verification/Examples.thy ===== *)
theory Examples
  imports Boot Concurrency Declared
begin

text \<open>
  Concrete inputs for the witnesses: an outside world in which nothing fails, stand-ins for the
  third-party parameters (a table of two tokens, a hash that prefixes the secret, a router that
  follows the route table), a few requests and database states reached by them.
\<close>

definition calm :: env where
  "calm = \<lparr>fails = (\<lambda>c. None), lands = (\<lambda>c. False), sql_msg = (\<lambda>x. ''constraint failed''),
     now_text = ''2024-06-01T10:00:00Z'', id_gap = 0\<rparr>"

text \<open>A world in which the commit reports a failure although it reached the disk.\<close>

definition lying_commit :: env where
  "lying_commit = calm\<lparr>fails := (\<lambda>c. if c = CCommit then Some ''disk I/O error'' else None),
     lands := (\<lambda>c. c = CCommit)\<rparr>"

lemma calm_no_faults [simp]: "no_faults calm" "quiet calm"
  by (simp_all add: calm_def no_faults_def quiet_def)

definition noon :: gotime where "noon = \<lparr>tm_sec = 1717243200, tm_nsec = 0\<rparr>"

definition calm_world :: "env world" where
  "calm_world = \<lparr>wo_call = (\<lambda>n. calm), wo_now = noon\<rparr>"

definition toy_bcrypt :: bcrypt where
  "toy_bcrypt = \<lparr>bc_GenerateFromPassword = (\<lambda>s c. Inr (CHR ''#'' # s)),
     bc_CompareHashAndPassword = (\<lambda>h s. if h = CHR ''#'' # s then None else Some (ErrorsNew ''mismatch''))\<rparr>"

definition member_claims :: claims where
  "member_claims = \<lparr>cl_Role = ''member'', cl_Subject = ''member-123'', cl_IssuedAt = 1717243200,
     cl_ExpiresAt = 1717246800\<rparr>"

definition admin_claims :: claims where
  "admin_claims = \<lparr>cl_Role = ''admin'', cl_Subject = ''admin-001'', cl_IssuedAt = 1717243200,
     cl_ExpiresAt = 1717246800\<rparr>"

definition toy_jwt :: jwt_lib where
  "toy_jwt =
     \<lparr>jwt_SignedString = (\<lambda>alg c key. if cl_Role c = ''admin'' then Inr ''tok-admin'' else Inr ''tok-member''),
      jwt_ParseWithClaims = (\<lambda>raw key methods now.
        if ''HS256'' \<notin> set methods then Inl (ErrorsNew ''signing method is invalid'')
        else if raw = ''tok-admin'' then Inr admin_claims
        else if raw = ''tok-member'' then Inr member_claims
        else Inl (ErrorsNew ''token is malformed''))\<rparr>"

definition earn_body :: new_transaction where
  "earn_body = \<lparr>nt_AccountId = ''member-123'', nt_Kind = ''earn'', nt_OccurredAt = noon,
     nt_Points = 100, nt_Ref = ''tx-1''\<rparr>"

definition spend_body :: new_transaction where
  "spend_body = \<lparr>nt_AccountId = ''member-123'', nt_Kind = ''spend'', nt_OccurredAt = noon,
     nt_Points = 500, nt_Ref = ''tx-2''\<rparr>"

definition redeem_body :: new_redemption where
  "redeem_body = \<lparr>nr_OccurredAt = noon, nr_Points = 40, nr_Ref = ''tx-3'', nr_Reward = ''coffee''\<rparr>"

text \<open>What a client sends for a body.\<close>

definition text_of :: "json option \<Rightarrow> string" where
  "text_of v = (case Encode v of None \<Rightarrow> [] | Some t \<Rightarrow> t)"

definition earn_text :: string where "earn_text = text_of (json_NewTransaction earn_body)"
definition spend_text :: string where "spend_text = text_of (json_NewTransaction spend_body)"
definition redeem_text :: string where "redeem_text = text_of (json_NewRedemption redeem_body)"

definition login_text :: "string \<Rightarrow> string" where
  "login_text a = text_of (json_LoginRequest \<lparr>lq_AccountId = a, lq_Secret = Some ''pw''\<rparr>)"

text \<open>A file with a stray quote in its second row and a repeated reference, and what its reads yield.\<close>

definition toy_file :: string where
  "toy_file = lines_of
     [''ref,account_id,kind,points,occurred_at'',
      ''b-1,member-123,earn,150,2024-06-01T10:00:00Z'',
      ''b'' @ [quote_char] @ ''9,member-123,earn,1,2024-06-01T10:00:00Z'',
      ''b-1,member-123,earn,150,2024-06-01T10:00:00Z'',
      [],
      ''b-2,member-123,spend,20,2024-06-01T11:00:00Z'',
      ''b-3,ghost,earn,20,2024-06-01T11:00:00Z'']"

definition toy_reads :: "string list option list" where
  "toy_reads =
     [Some expectedHeader,
      Some [''b-1'', ''member-123'', ''earn'', ''150'', ''2024-06-01T10:00:00Z''],
      None,
      Some [''b-1'', ''member-123'', ''earn'', ''150'', ''2024-06-01T10:00:00Z''],
      Some [''b-2'', ''member-123'', ''spend'', ''20'', ''2024-06-01T11:00:00Z''],
      Some [''b-3'', ''ghost'', ''earn'', ''20'', ''2024-06-01T11:00:00Z'']]"

lemma toy_file_reads: "csv_reads toy_file = toy_reads"
  by code_simp

text \<open>A file all of whose rows are accepted.\<close>

definition clean_rows :: "string list list" where
  "clean_rows =
     [expectedHeader,
      [''c-1'', ''member-123'', ''earn'', ''150'', ''2024-06-01T10:00:00Z''],
      [''c-2'', ''member-123'', ''spend'', ''20'', ''2024-06-01T11:00:00Z'']]"

definition clean_file :: string where
  "clean_file = csv_file clean_rows"

lemma clean_file_reads: "csv_reads clean_file = map Some clean_rows"
  by code_simp

definition demo_attempt :: audit_entry where
  "demo_attempt = attempt ''tx-1'' ''member-123'' ''earn'' 100 OutcomeAccepted ''ok''"

definition toy_codec :: codec where
  "toy_codec = \<lparr>cd_FormFile = (\<lambda>r. Some toy_file)\<rparr>"

definition toy_edge :: edge where
  "toy_edge =
     \<lparr>eg_RequestID = (\<lambda>r. ''req-1''),
      eg_Route = (\<lambda>rts r. case find (\<lambda>(m, pat, t). m = rq_Method r \<and> path_fits pat (rq_Path r)) rts of
                    None \<Rightarrow> NoRoute
                  | Some (m, pat, t) \<Rightarrow> Routed t (takeWhile (\<lambda>c. c \<noteq> CHR ''/'') (drop 10 (rq_Path r)))),
      eg_BindPath = Inr, eg_BindQuery = (\<lambda>q. Inr (if q = [] then None else Some q)),
      eg_LoadSpec = (\<lambda>y. None), eg_CheckSpec = (\<lambda>y. None), eg_Verdict = (\<lambda>y r. Accepts)\<rparr>"

lemma toy_edge_chi: "chi_ok toy_edge"
proof -
  have "\<exists>pat. (rq_Method r, pat, t) \<in> set rts \<and> path_fits pat (rq_Path r)"
    if "eg_Route toy_edge rts r = Routed t raw" for rts r t raw
    using that by (auto simp: toy_edge_def find_Some_iff split: option.splits)
      (metis nth_mem)
  then show ?thesis by (simp add: chi_ok_def)
qed

definition toy_platform :: platform where
  "toy_platform =
     \<lparr>pf_bcrypt = toy_bcrypt, pf_jwt = toy_jwt, pf_codec = toy_codec, pf_edge = toy_edge,
      pf_spec = ''openapi'', pf_secret = ''secret'', pf_ttl = 3600000000000\<rparr>"

definition clean_platform :: platform where
  "clean_platform = toy_platform\<lparr>pf_codec := \<lparr>cd_FormFile = (\<lambda>r. Some clean_file)\<rparr>\<rparr>"

definition req :: "string \<Rightarrow> string \<Rightarrow> string \<Rightarrow> string \<Rightarrow> request" where
  "req m path auth body =
     \<lparr>rq_Method = m, rq_Path = path, rq_Authorization = auth, rq_Query = [], rq_Body = body,
      rq_RequestID = [], rq_Identity = None\<rparr>"

definition earn_request :: request where
  "earn_request = req ''POST'' ''/transactions'' ''Bearer tok-member'' earn_text"

definition db0 :: db where "db0 = seed_db ''2024-06-01T00:00:00Z''"

definition member_req :: request where
  "member_req = (req ''POST'' ''/transactions'' [] earn_text)
     \<lparr>rq_Identity := Some \<lparr>id_AccountID = ''member-123'', id_Role = ''member''\<rparr>\<rparr>"

definition redeem_req :: request where
  "redeem_req = member_req\<lparr>rq_Body := redeem_text\<rparr>"

definition login_req :: "string \<Rightarrow> request" where
  "login_req a = req ''POST'' ''/login'' [] (login_text a)"

definition admin_req :: request where
  "admin_req = (req ''POST'' ''/batch'' [] [])
     \<lparr>rq_Identity := Some \<lparr>id_AccountID = ''admin-001'', id_Role = ''admin''\<rparr>\<rparr>"

definition earn_txn :: "string \<Rightarrow> int64 \<Rightarrow> txn" where
  "earn_txn ref p = \<lparr>t_Ref = ref, t_AccountID = ''member-123'', t_Kind = ''earn'', t_Points = p,
     t_Reward = [], t_OccurredAt = noon\<rparr>"

text \<open>The database after one earn of 100 points.\<close>

definition db1 :: db where "db1 = snd (st_RecordTransaction calm (earn_txn ''tx-1'' 100) db0)"

definition demo_calls :: "(env \<times> svc_call) list" where
  "demo_calls =
     [(calm, CallEarn (earn_txn ''tx-1'' 100)), (calm, CallEarn (earn_txn ''tx-1'' 100)),
      (calm, CallSpend (earn_txn ''tx-2'' 500)),
      (calm, CallRedeem ((earn_txn ''tx-3'' 40)\<lparr>t_Reward := ''coffee''\<rparr>))]"

lemma earn_txn_year:
  "fst (days_to_civil (tm_sec (t_OccurredAt (earn_txn ref p)) div 86400 + 719162)) \<in> {0..9999}"
proof -
  have "fst (days_to_civil (tm_sec noon div 86400 + 719162)) = 2024" by code_simp
  then show ?thesis by (simp add: earn_txn_def)
qed

lemma db0_ok [simp]: "db_ok db0" "solvent db0"
  by (simp_all add: db0_def seed_ok seed_solvent)

lemma db1_ok [simp]: "db_ok db1"
  by (metis db0_ok(1) db1_def db_ok_RecordTransaction prod.collapse)

text \<open>The database after the earn request was served.\<close>

definition db_earned :: db where
  "db_earned = snd (the (serve toy_platform calm_world earn_request db0))"

lemma serve_earn_value:
  "map_option (\<lambda>(p, d). (rs_Status p, balance_of d ''member-123'')) (serve toy_platform calm_world earn_request db0)
   = Some (201, 100)"
  by code_simp

lemma db_earned_reached: "reaches toy_platform db_earned"
proof -
  obtain p d where "serve toy_platform calm_world earn_request db0 = Some (p, d)"
    using serve_earn_value by (cases "serve toy_platform calm_world earn_request db0") auto
  then show ?thesis
    using reaches.request [OF reaches.start [of toy_platform "''2024-06-01T00:00:00Z''"]]
    by (simp add: db_earned_def db0_def)
qed

lemma db_earned_balance: "balance_of db_earned ''member-123'' = 100"
  using serve_earn_value
  by (cases "serve toy_platform calm_world earn_request db0") (auto simp: db_earned_def)

text \<open>The database after an account with a secret was created.\<close>

definition new_account_arg :: account where
  "new_account_arg = \<lparr>acc_ID = ''new-1'', acc_Name = ''New'', acc_CreatedAt = zero_time\<rparr>"

definition db_new :: db where
  "db_new = snd (svc_CreateAccount toy_bcrypt (store_accounts calm) new_account_arg ''pw'' db0)"

lemma db_new_value:
  "svc_CreateAccount toy_bcrypt (store_accounts calm) new_account_arg ''pw'' db0 = (None, db_new)"
proof -
  have "fst (svc_CreateAccount toy_bcrypt (store_accounts calm) new_account_arg ''pw'' db0) = None"
    by code_simp
  then show ?thesis by (metis db_new_def prod.collapse)
qed

lemma db_new_ok [simp]: "db_ok db_new"
  using credentials.create_view [OF db0_ok(1) db_new_value] by blast

text \<open>An edge that refuses every request.\<close>

definition strict_edge :: edge where
  "strict_edge = toy_edge\<lparr>eg_Verdict := (\<lambda>y r. Refuses)\<rparr>"

definition strict_platform :: platform where
  "strict_platform = toy_platform\<lparr>pf_edge := strict_edge\<rparr>"

text \<open>Earns whose sum does not fit, a reference used by another account, an earn under a redeem's reference.\<close>

definition db_big :: db where
  "db_big = snd (svc_RecordEarn (store_txns calm) (earn_txn ''big-1'' (2 ^ 63 - 1)) db0)"

definition db_overflow :: db where
  "db_overflow = snd (svc_RecordEarn (store_txns calm) (earn_txn ''big-2'' 1) db_big)"

definition db_other :: db where
  "db_other = snd (svc_RecordEarn (store_txns calm) ((earn_txn ''tx-1'' 77)\<lparr>t_AccountID := ''new-1''\<rparr>) db_new)"

definition db_earn3 :: db where
  "db_earn3 = snd (svc_RecordEarn (store_txns calm) (earn_txn ''tx-3'' 90) db0)"

text \<open>A strict server whose every method answers as the health probe does.\<close>

definition probe_answer :: strict_return where
  "probe_answer =
     Inr (Some \<lparr>ob_type = ''gen.GetHealth200JSONResponse'', ob_method = [visit_method ''GetHealth'' \<mapsto>
       VisitGetHealthResponse (GetHealth200 \<lparr>gh_Db = ''up'', gh_Status = ''ok''\<rparr>)]\<rparr>, None)"

definition probe_server :: "db strict_server" where
  "probe_server =
     \<lparr>ss_ListAccounts = (\<lambda>r s. (probe_answer, s)), ss_CreateAccount = (\<lambda>b r s. (probe_answer, s)),
      ss_GetAccount = (\<lambda>i r s. (probe_answer, s)), ss_GetBalance = (\<lambda>i r s. (probe_answer, s)),
      ss_RedeemPoints = (\<lambda>i b r s. (probe_answer, s)), ss_ListTransactions = (\<lambda>i r s. (probe_answer, s)),
      ss_ListAudit = (\<lambda>q r s. (probe_answer, s)), ss_IngestBatch = (\<lambda>m r s. (probe_answer, s)),
      ss_GetHealth = (\<lambda>r s. (probe_answer, s)), ss_Login = (\<lambda>b r s. (probe_answer, s)),
      ss_CreateTransaction = (\<lambda>b r s. (probe_answer, s))\<rparr>"

definition toy_strict_lib :: strict_lib where
  "toy_strict_lib = \<lparr>sl_DecodeError = (\<lambda>n b. ErrorsNew ''EOF''),
     sl_MultipartReader = (\<lambda>r. Inl (ErrorsNew ''request Content-Type is not multipart/form-data''))\<rparr>"

lemma toy_bcrypt_foreign: "bcrypt_foreign (pf_bcrypt toy_platform)"
  by (simp add: bcrypt_foreign_def toy_platform_def toy_bcrypt_def)

text \<open>A machine on which the program starts.\<close>

definition toy_host :: host where
  "toy_host =
     \<lparr>ho_Getenv = (\<lambda>k. if k = ''GOWALLET_JWT_SECRET'' then ''secret''
                      else if k = ''GOWALLET_JWT_TTL'' then ''1h'' else []),
      ho_ParseDuration = (\<lambda>v. Inr 3600000000000), ho_SqlOpen = (\<lambda>p. None), ho_SqlPing = (\<lambda>p. None),
      ho_GooseDialect = (\<lambda>p. None), ho_GooseUp = (\<lambda>p. None), ho_ReadFile = (\<lambda>p. Inr ''openapi''),
      ho_Listen = (\<lambda>a. None)\<rparr>"

text \<open>Three goroutines: an earn, a balance read that straddles it, an account listing.\<close>

definition demo_jobs :: "nat \<Rightarrow> store_op" where
  "demo_jobs i =
     (if i = 0 then ORecord calm (earn_txn ''tx-1'' 100)
      else if i = 1 then OBalance calm ''member-123'' else OAccounts calm)"

definition demo_schedule :: "nat list" where
  "demo_schedule = [1, 0, 0, 0, 0, 0, 0, 2, 1]"

definition demo_machine :: machine where
  "demo_machine = the (run_schedule demo_jobs demo_schedule (initial db0))"

lemma demo_machine_value:
  "map_option (\<lambda>m. (map fst (mc_log m), map (mc_place m) [0, 1, 2], last (map snd (mc_log m)),
       balance_of (mc_db m) ''member-123'')) (run_schedule demo_jobs demo_schedule (initial db0))
   = Some ([0, 2, 1], [Finished, Finished, Finished], RBalance (Inr 100), 100)"
  by code_simp

lemma demo_machine_run: "run_schedule demo_jobs demo_schedule (initial db0) = Some demo_machine"
  using demo_machine_value
  by (cases "run_schedule demo_jobs demo_schedule (initial db0)") (simp_all add: demo_machine_def)

end
