(* ===== verification/Spec2Isabelle.thy ===== *)
theory Spec2Isabelle
  imports Examples
begin

text \<open>
  A verification of gowallet, a loyalty-points wallet written in Go: accounts earn, spend and redeem
  points through an HTTP API over SQLite. The program has three layers, wired together by
  \<^verbatim>\<open>cmd/gowallet/main.go\<close>: the wallet core (\<^verbatim>\<open>internal/wallet\<close>, pure rules and services over
  repository interfaces), the SQLite store that implements the interfaces
  (\<^verbatim>\<open>internal/sqlitestore\<close>), and the transport (\<^verbatim>\<open>internal/httpapi\<close>, router, middlewares,
  handlers). A request passes the contract check, the token check and a handler; the handler calls
  a service; the service calls the store; the store runs SQL on its one connection.

  \<^bold>\<open>Theories, in import order.\<close>
  \<^item> \<^verbatim>\<open>Prelude\<close>: \<open>int64\<close> as a 64-bit word, lookups and orders over tables as lists.
  \<^item> \<^verbatim>\<open>GoText\<close>, \<^verbatim>\<open>GoTime\<close>: what the program uses of Go's \<^verbatim>\<open>strings\<close>, \<^verbatim>\<open>strconv\<close> and \<^verbatim>\<open>time\<close>
    (trimming, ParseInt, RFC 3339 formatting and parsing over the proleptic calendar), with the
    round trips.
  \<^item> \<^verbatim>\<open>GoCSV\<close>: the reads of \<^verbatim>\<open>encoding/csv\<close> on the bytes of a file, with the round trip of a file whose
    fields are quoted. \<^verbatim>\<open>GoJSON\<close>, \<^verbatim>\<open>JSONRoundTrip\<close>: the tokens, the decoder's state machine, the
    storing of members into fields and the encoder of \<^verbatim>\<open>encoding/json\<close>; what is encoded is read back.
  \<^item> \<^verbatim>\<open>Domain\<close>: errors, accounts, transactions, roles, the access rule, audit outcomes, health
    (\<^verbatim>\<open>wallet.go\<close>, \<^verbatim>\<open>auth.go\<close>, \<^verbatim>\<open>audit.go\<close>, \<^verbatim>\<open>health.go\<close> of the core).
  \<^item> \<^verbatim>\<open>Services\<close>: the service methods over repository records, and the contracts of the
    repositories as locales (\<open>txn_contract\<close>, \<open>account_contract\<close>, \<open>audit_contract\<close>,
    \<open>wallet_contract\<close>, \<open>api_contract\<close>) with what the services guarantee over any storage that
    meets them.
  \<^item> \<^verbatim>\<open>Schema\<close>: the tables of the migrations and one definition per query of
    \<^verbatim>\<open>gen/queries.sql.go\<close>, constraints included.
  \<^item> \<^verbatim>\<open>Store\<close>: the repository methods of \<^verbatim>\<open>sqlitestore\<close>; the invariant \<open>db_ok\<close>; the outcome
    relation of RecordTransaction; the interpretations of the contracts on the store.
  \<^item> \<^verbatim>\<open>Ledger\<close>: the abstract ledger and the refinement of recording to it.
  \<^item> \<^verbatim>\<open>Wire\<close>, \<^verbatim>\<open>Bodies\<close>, \<^verbatim>\<open>Auth\<close>, \<^verbatim>\<open>Handlers\<close>, \<^verbatim>\<open>Batch\<close>, \<^verbatim>\<open>Router\<close>: the API types and the error
    envelope, the bodies as JSON, tokens and gates, the request handlers, CSV ingestion, the route
    table with the middleware chain and \<open>NewRouter\<close>.
  \<^item> \<^verbatim>\<open>Strict\<close>: the strict half of the generated server: response writer, declared response objects,
    strict handler. \<^verbatim>\<open>Declared\<close>: the hand-written handlers over the store against the declared
    responses and their enums.
  \<^item> \<^verbatim>\<open>System\<close>: the store wired into the router, one served request as a function on the database,
    the reachable states.
  \<^item> \<^verbatim>\<open>Boot\<close>: configuration, opening, migrating, running.
  \<^item> \<^verbatim>\<open>Concurrency\<close>: the statements of concurrent storage calls interleaved on the one connection, as a
    step relation; the serialisation theorem.
  \<^item> \<^verbatim>\<open>Examples\<close>: concrete inputs for the witnesses.

  \<^bold>\<open>State.\<close> The only state that outlives a request is the database: \<open>db\<close>, three tables as lists of
  rows in insertion order with the two AUTOINCREMENT counters. Handlers and services pass it
  explicitly. A \<^verbatim>\<open>sql.Tx\<close> is a second database value that Commit makes the database. What the outside
  decides is an argument: \<open>env\<close> says for one storage call which database calls report a failure,
  whether a write whose failure was reported reached the disk nevertheless, the driver's messages,
  the clock's text and the gaps in the row ids; \<open>world\<close> gives every storage call of a request its own
  \<open>env\<close>. \<open>quiet\<close> excludes only the landed failures, \<open>no_faults\<close> all failures.

  \<^bold>\<open>Third-party code\<close> is a parameter: bcrypt, the JWT library, chi's routing, the oapi-codegen
  binders, kin-openapi (records \<open>bcrypt\<close>, \<open>jwt_lib\<close>, \<open>edge\<close>). What a theorem relies on of them is a
  named hypothesis (for example \<open>chi_ok\<close>: a route without a parameter is taken only for exactly its
  path; \<open>bcrypt_foreign\<close>: bcrypt's errors carry none of the domain's sentinels), shown satisfiable by
  its witness. The bytes of the uploaded form file (\<^verbatim>\<open>mime/multipart\<close>) are the record \<open>codec\<close>, the
  reading of durations and files the record \<open>host\<close>, what the strict server takes from the standard
  library besides JSON the record \<open>strict_lib\<close>.

  \<^bold>\<open>What is shown.\<close> Money: every reachable state is consistent and free of negative balances (C1);
  recording refines the abstract ledger (C2), is all or nothing under any failures (C3), and runs
  of calls have exact balances and count every reference once (C4, C5); nothing is ever taken back
  (C6); refusals are justified (C7). Reading: balances, listings and ledgers report what is stored
  (C8 to C10). Access: no write without a verified token (C11), balances moved only by owner or admin
  (C12), no new admins (C13), gates before the store (C14); what statuses mean (C15, C16).
  Credentials and tokens: C17 to C21. Audit: C22. Batches: sums, balances, idempotence, complete audit
  (C23 to C26), round trip of a file (C27), end of the loop (C29). Stored times: C28. The wire: bodies
  in and out (C30, C31), the declared answers (C32), their enums (C33), the strict server (C34). The
  order of the middlewares (C35) and two departures from the documentation (C36, C37); further ones
  are theorems without a number. Starting: C38. Concurrent requests: serialisation (C39) and progress
  (C40).

  \<^bold>\<open>Bounds.\<close> Points, balances, ids and counters are 64-bit words; sums are over the integers and
  \<open>sum64\<close> fails where SQLite's SUM does, so the refinement asks that the points an account ever
  earned stay below \<open>2 ^ 63\<close>. All functions are total: the batch loop recurses on the finite list of
  reads (no longer than the file, C29), the JSON tokens and the trimming on the length of the text; the
  decoder refuses nesting beyond 10000 as Go does; no fuel is used.

  \<^bold>\<open>Not modelled.\<close> The parsing of multipart bodies and of durations, and the text of JSON syntax errors
  (parameters); logging; goose, the PRAGMAs and the files of SQLite; the \<^verbatim>\<open>Handler\<close> and
  \<^verbatim>\<open>HandlerFromMux\<close> conveniences of the generated file. A time in a request keeps its instant, not its
  offset.

  \<^bold>\<open>Plan.\<close> Next: multipart form parsing in place of \<open>codec\<close>, \<^verbatim>\<open>time.ParseDuration\<close>, a run-level
  refinement of whole request sequences to the abstract ledger.
\<close>

section \<open>Money: no overdraft, every reference once, exact balances\<close>

text \<open>
  C1. In every state the program reaches by serving requests from the migrated database, whatever
  database calls fail on the way, the tables are consistent (unique references and account ids,
  valid kinds, roles and outcomes, positive points, every transaction on an existing account) and
  no account has a negative balance.
\<close>

theorem reachable_states_safe:
  assumes "reaches pf d"
  shows "db_ok d \<and> (\<forall>a. 0 \<le> balance_of d a)"
  using reaches_sound [OF assms] by (simp add: sound_db_def solvent_def)

theorem reachable_states_safe_witness:
  "balance_of db_earned ''member-123'' = 100 \<and> db_ok db_earned \<and> (\<forall>a. 0 \<le> balance_of db_earned a)"
  using reachable_states_safe [OF db_earned_reached] db_earned_balance by simp

text \<open>
  C2. Recording refines the abstract ledger: in every reachable state, when no database call
  fails, row ids are left and the account's lifetime earnings fit in 64 bits, the store's
  transaction (insert first, check the balance, roll back or re-read and commit) returns what the
  ledger's four-line rule returns (unknown account, replay, short, new) and leaves the ledger in
  the state of that rule.
\<close>

theorem record_refines_ledger:
  assumes "reaches pf d" and "recordable e t d"
  shows "(case st_RecordTransaction e t d of (r, d') \<Rightarrow> (r, abs_db d')) =
         (case ledger_record t (abs_db d) of (r, L) \<Rightarrow> (result_of r, L))"
  using record_refines [OF _ assms(2)] reaches_sound [OF assms(1)] by (simp add: sound_db_def)

lemma recordable_db_earned: "recordable calm ((earn_txn ''tx-9'' 500)\<lparr>t_Kind := KindSpend\<rparr>) db_earned"
proof -
  have "no_faults calm" by simp
  moreover have "txn_seq db_earned + 1 + int (id_gap calm) \<le> max_int64" by code_simp
  moreover have "earned db_earned ''member-123'' + sint (500 :: int64) \<le> max_int64" by code_simp
  ultimately show ?thesis by (simp add: recordable_def earn_txn_def kind_consts)
qed

theorem record_refines_ledger_witness:
  "(case st_RecordTransaction calm ((earn_txn ''tx-9'' 500)\<lparr>t_Kind := KindSpend\<rparr>) db_earned of
      (r, d') \<Rightarrow> (r, abs_db d')) = (Inl (Sentinel ErrInsufficientBalance), abs_db db_earned)"
proof -
  have "balance_of db_earned ''member-123'' = 100" by (rule db_earned_balance)
  moreover have "held_txn db_earned ''tx-9'' = None" by code_simp
  moreover have "find_account db_earned ''member-123'' \<noteq> None" by code_simp
  ultimately show ?thesis
    using record_refines_ledger [OF db_earned_reached recordable_db_earned]
    by (simp add: ledger_record_def abs_db_def earn_txn_def signed_points_def kind_consts)
qed

text \<open>
  C3. Recording a transaction is all or nothing under any database failures. If it reports a new
  transaction, the reference was free and now holds it, and exactly that account's balance moved by
  its signed points, not below zero for a spend or redeem; if it reports a replay, the reference
  already held the returned transaction and the ledger is unchanged; if it reports an error, the
  ledger is unchanged, or some failed call landed and the whole transaction was applied.
\<close>

theorem record_all_or_nothing:
  assumes "db_ok d" and "st_RecordTransaction e t d = (r, d')"
  shows "db_ok d' \<and>
    (case r of
       Inr (u, True) \<Rightarrow> took held_txn balance_of t u d d'
     | Inr (u, False) \<Rightarrow> held_txn d (t_Ref t) = Some u \<and> same_view held_txn balance_of d d'
     | Inl err \<Rightarrow> same_view held_txn balance_of d d' \<or>
         (\<not> quiet e \<and> (\<exists>u. took held_txn balance_of t u d d')))"
proof -
  have rep: "repo_RecordTransaction (store_txns e) t d = (r, d')"
    using assms(2) by (simp add: store_txns_def)
  have "db_ok d'" by (rule db_ok_RecordTransaction [OF assms])
  moreover have "r = Inr (u, True) \<Longrightarrow> took held_txn balance_of t u d d'" for u
    using ledger.record_created [OF assms(1)] rep by blast
  moreover have "r = Inr (u, False) \<Longrightarrow> held_txn d (t_Ref t) = Some u \<and> same_view held_txn balance_of d d'" for u
    using ledger.record_replay [OF assms(1)] rep by blast
  moreover have "r = Inl err \<Longrightarrow> same_view held_txn balance_of d d' \<or>
      (\<not> quiet e \<and> (\<exists>u. took held_txn balance_of t u d d'))" for err
    using ledger.record_refused [OF assms(1)] rep by blast
  ultimately show ?thesis by (simp split: sum.split prod.split bool.split)
qed

lemma lying_commit_value:
  "st_RecordTransaction lying_commit (earn_txn ''tx-1'' 100) db0 =
     (Inl (Errorf ''commit'' (ErrorsNew ''disk I/O error'')),
      snd (st_RecordTransaction lying_commit (earn_txn ''tx-1'' 100) db0))"
  by code_simp

theorem record_all_or_nothing_witness:
  "\<exists>d'. balance_of d' ''member-123'' = 100 \<and> db_ok d' \<and>
     (same_view held_txn balance_of db0 d' \<or>
      (\<exists>u. took held_txn balance_of (earn_txn ''tx-1'' 100) u db0 d'))"
proof -
  let ?d = "snd (st_RecordTransaction lying_commit (earn_txn ''tx-1'' 100) db0)"
  have "balance_of ?d ''member-123'' = 100" by code_simp
  with record_all_or_nothing [OF db0_ok(1) lying_commit_value] show ?thesis by auto
qed

text \<open>
  C4. Over any sequence of earn, spend and redeem calls whose reported failures did not land, the
  balance of every account changes by exactly the signed points of the transactions reported as
  new.
\<close>

theorem run_balance_exact:
  assumes "db_ok d" and "\<forall>ec \<in> set cs. quiet (fst ec)" and "svc_run store_txns cs d = (rs, d')"
  shows "balance_of d' a = balance_of d a + sum_list (map (created_effect a) rs)"
  by (rule ledger.run_effect [OF assms])

theorem run_balance_exact_witness:
  "balance_of (snd (svc_run store_txns demo_calls db0)) ''member-123'' = 60"
proof -
  have q: "\<forall>ec \<in> set demo_calls. quiet (fst ec)" by (simp add: demo_calls_def)
  have "sum_list (map (created_effect ''member-123'') (fst (svc_run store_txns demo_calls db0))) = 60"
    by code_simp
  moreover have "balance_of db0 ''member-123'' = 0" by code_simp
  ultimately show ?thesis
    using run_balance_exact [OF db0_ok(1) q prod.collapse [symmetric], of "''member-123''"] by simp
qed

text \<open>
  C5. Over any sequence of calls, under any failures, no reference is ever reported as new twice,
  and none that was held before the sequence.
\<close>

theorem run_reference_once:
  assumes "db_ok d" and "svc_run store_txns cs d = (rs, d')"
  shows "distinct (created_refs rs) \<and> (\<forall>k \<in> set (created_refs rs). held_txn d k = None)"
  by (rule ledger.run_created_refs [OF assms])

theorem run_reference_once_witness:
  "created_refs (fst (svc_run store_txns demo_calls db0)) = [''tx-1'', ''tx-3''] \<and>
   distinct (created_refs (fst (svc_run store_txns demo_calls db0)))"
proof -
  have "created_refs (fst (svc_run store_txns demo_calls db0)) = [''tx-1'', ''tx-3'']" by code_simp
  with run_reference_once [OF db0_ok(1) prod.collapse [symmetric], of demo_calls] show ?thesis by simp
qed

text \<open>
  C6. Serving a request never takes anything back: a reference keeps the transaction it holds, an
  account keeps its credential, and the audit log keeps its entries as its older part.
\<close>

theorem serving_is_append_only:
  assumes "reaches pf d" and "serve pf wo r d = Some (p, d')"
  shows "(\<forall>k u. held_txn d k = Some u \<longrightarrow> held_txn d' k = Some u) \<and>
    (\<forall>i c. credential d i = Some c \<longrightarrow> credential d' i = Some c) \<and>
    (\<exists>new. audit_view d' = new @ audit_view d)"
proof -
  have "db_ok d" using reaches_sound [OF assms(1)] by (simp add: sound_db_def)
  with serve_keeps [OF assms(2)] have "evolves held_txn credential audit_view d d'"
    by (simp add: keeps_def)
  then show ?thesis unfolding evolves_def by blast
qed

theorem serving_is_append_only_witness:
  "\<exists>p d'. serve toy_platform calm_world earn_request db_earned = Some (p, d') \<and>
     held_txn db_earned ''tx-1'' \<noteq> None \<and> held_txn d' ''tx-1'' = held_txn db_earned ''tx-1''"
proof -
  have "map_option (\<lambda>(p, d). rs_Status p) (serve toy_platform calm_world earn_request db_earned) = Some 200"
    by code_simp
  then obtain p d' where s: "serve toy_platform calm_world earn_request db_earned = Some (p, d')"
    by (cases "serve toy_platform calm_world earn_request db_earned") auto
  have "held_txn db_earned ''tx-1'' = Some (earn_txn ''tx-1'' 100)" by code_simp
  with serving_is_append_only [OF db_earned_reached s] s show ?thesis by simp
qed

text \<open>
  C7. A refusal for insufficient balance is justified and harmless: the reference was free, the
  transaction was a spend or redeem that would have taken the balance below zero, and the database
  is exactly as before.
\<close>

theorem insufficient_justified:
  assumes "st_RecordTransaction e t d = (Inl err, d')" and "errors_is err ErrInsufficientBalance"
  shows "d' = d \<and> held_txn d (t_Ref t) = None \<and> deducts t
    \<and> balance_of d (t_AccountID t) - sint (t_Points t) < 0"
  using st_RecordTransaction_outcome [OF assms(1)]
proof cases
  case insufficient
  then have "balance_of d (t_AccountID t) + signed_points (t_Kind t) (t_Points t) < 0"
    by (simp add: balance_with_row)
  moreover have "signed_points (t_Kind t) (t_Points t) = - sint (t_Points t)"
    using insufficient(3) by (auto simp: deducts_def signed_points_def kind_consts)
  ultimately show ?thesis using insufficient by (simp add: insertable_def held_txn_def)
qed (use assms(2) in simp_all)

theorem insufficient_justified_witness:
  "balance_of db_earned ''member-123'' - sint (500 :: int64) < 0"
proof -
  let ?t = "(earn_txn ''tx-9'' 500)\<lparr>t_Kind := KindSpend\<rparr>"
  have "fst (st_RecordTransaction calm ?t db_earned) = Inl (Sentinel ErrInsufficientBalance)" by code_simp
  then have "st_RecordTransaction calm ?t db_earned
      = (Inl (Sentinel ErrInsufficientBalance), snd (st_RecordTransaction calm ?t db_earned))"
    by (metis prod.collapse)
  from insufficient_justified [OF this] show ?thesis by (simp add: earn_txn_def)
qed

section \<open>Reading: what the responses say is what the database holds\<close>

text \<open>
  C8. A 200 answer to a balance request names the requested account, which exists, and carries its
  exact balance; only the account's owner or an admin gets it.
\<close>

theorem balance_response_exact:
  assumes "h_GetBalance (wallet_server pf) wo r a d = (p, d')" and "rs_Status p = 200"
  shows "may_act r a \<and> d' = d \<and> (\<exists>b. rs_Body p = BBalance \<lparr>gb_AccountId = a, gb_Balance = b\<rparr>
    \<and> sint b = balance_of d a \<and> find_account d a \<noteq> None)"
  using h_GetBalance_ok [OF assms] h_GetBalance_state [of "wallet_server pf" wo r a d] assms(1) by simp

theorem balance_response_exact_witness:
  "\<exists>b. rs_Body (fst (h_GetBalance (wallet_server toy_platform) calm_world member_req ''member-123'' db_earned))
        = BBalance \<lparr>gb_AccountId = ''member-123'', gb_Balance = b\<rparr> \<and> sint b = 100"
proof -
  let ?h = "h_GetBalance (wallet_server toy_platform) calm_world member_req ''member-123'' db_earned"
  have "rs_Status (fst ?h) = 200" by code_simp
  from balance_response_exact [OF prod.collapse [symmetric] this] show ?thesis
    by (auto simp: db_earned_balance)
qed

text \<open>
  C9. A 200 answer to the account listing goes to an admin only and lists every account once, in
  the order of the ids, with its stored role and the same exact balance a balance request reports.
\<close>

theorem account_list_exact:
  assumes "h_ListAccounts (wallet_server pf) wo r d = (p, d')" and "rs_Status p = 200"
  shows "is_admin r \<and> (\<exists>ws. rs_Body p = BAccountList ws
    \<and> map gs_AccountId ws = map ar_id (sort_key ar_id (accounts d))
    \<and> map gs_Role ws = map ar_role (sort_key ar_id (accounts d))
    \<and> (\<forall>w \<in> set ws. sint (gs_Balance w) = balance_of d (gs_AccountId w)))"
proof -
  obtain xs where a: "is_admin r" and b: "rs_Body p = BAccountList (map summary_to_wire xs)"
    and xs: "st_ListAccounts (wo_call wo 0) d = Inr xs"
    using h_ListAccounts_ok [OF assms] by blast
  have w: "gs_AccountId (summary_to_wire x) = as_ID x" "gs_Role (summary_to_wire x) = as_Role x"
    "gs_Balance (summary_to_wire x) = as_Balance x" for x
    by (simp_all add: summary_to_wire_def)
  show ?thesis
    using a st_ListAccounts_Inr [OF xs] unfolding b by (simp add: w comp_def)
qed

theorem account_list_exact_witness:
  "\<exists>ws. rs_Body (fst (h_ListAccounts (wallet_server toy_platform) calm_world admin_req db_earned))
      = BAccountList ws \<and> map gs_Role ws = [''admin'', ''member'']"
proof -
  let ?h = "h_ListAccounts (wallet_server toy_platform) calm_world admin_req db_earned"
  have "rs_Status (fst ?h) = 200" by code_simp
  moreover have "map ar_role (sort_key ar_id (accounts db_earned)) = [''admin'', ''member'']" by code_simp
  ultimately show ?thesis using account_list_exact [OF prod.collapse [symmetric]] by fastforce
qed

text \<open>
  C10. A 200 answer to a ledger request lists the transactions of the requested account and no
  other, all of them, newest first, and the signed points of the listed entries add up to the
  account's balance.
\<close>

theorem ledger_explains_balance:
  assumes "db_ok d" and "h_ListTransactions (wallet_server pf) wo r a d = (p, d')" and "rs_Status p = 200"
  shows "may_act r a \<and> (\<exists>ws. rs_Body p = BTransactionList ws
    \<and> map le_Ref ws = rev (map tr_ref (filter (\<lambda>r. tr_account r = a) (transactions d)))
    \<and> sum_list (map (\<lambda>w. signed_points (le_Kind w) (le_Points w)) ws) = balance_of d a
    \<and> (\<forall>w \<in> set ws. LedgerEntryKind_Valid (le_Kind w) \<and> 0 < sint (le_Points w)))"
proof -
  let ?rows = "filter (\<lambda>r. tr_account r = a) (transactions d)"
  obtain xs where act: "may_act r a" and b: "rs_Body p = BTransactionList (map ledger_to_wire xs)"
    and xs: "st_ListTransactions (wo_call wo 0) a d = Inr xs"
    using h_ListTransactions_ok [OF assms(2,3)] by blast
  note eq = st_ListTransactions_value(1) [OF assms(1) xs]
  have "list_all (txn_row_ok d) (transactions d)"
    using assms(1) by (simp add: db_ok_def txns_ok_def)
  then have "\<forall>w \<in> set (map ledger_to_wire xs). LedgerEntryKind_Valid (le_Kind w) \<and> 0 < sint (le_Points w)"
    by (auto simp: eq list_all_iff txn_row_ok_def ledger_to_wire_def ledger_txn_def enum_defs)
  moreover have "map le_Ref (map ledger_to_wire xs) = rev (map tr_ref ?rows)"
    by (simp add: eq rev_map ledger_to_wire_def ledger_txn_def comp_def)
  ultimately show ?thesis
    using act ledger_entries_sum [of a d] unfolding b eq by blast
qed

theorem ledger_explains_balance_witness:
  "\<exists>ws. rs_Body (fst (h_ListTransactions (wallet_server toy_platform) calm_world member_req ''member-123'' db1))
      = BTransactionList ws \<and> map le_Ref ws = [''tx-1'']
      \<and> sum_list (map (\<lambda>w. signed_points (le_Kind w) (le_Points w)) ws) = 100"
proof -
  let ?h = "h_ListTransactions (wallet_server toy_platform) calm_world member_req ''member-123'' db1"
  have "rs_Status (fst ?h) = 200" by code_simp
  moreover have "map tr_ref (filter (\<lambda>r. tr_account r = ''member-123'') (transactions db1)) = [''tx-1'']"
    by code_simp
  moreover have "balance_of db1 ''member-123'' = 100" by code_simp
  ultimately show ?thesis using ledger_explains_balance [OF db1_ok prod.collapse [symmetric]] by fastforce
qed

section \<open>Access: who may do what\<close>

text \<open>
  C11. A request whose token does not verify (none, malformed, refused by the JWT library, unknown
  role, empty subject) leaves the database exactly as it was, on every route, whatever its body
  says, provided a signing secret is configured and chi routes along the route table.
\<close>

theorem no_token_no_write:
  assumes "serve pf wo r d = Some (p, d')" and "chi_ok (pf_edge pf)" and "pf_secret pf \<noteq> []"
    and "proven pf wo r = None"
  shows "d' = d"
  by (rule serve_anonymous [OF assms])

theorem no_token_no_write_witness:
  "map_option snd (serve toy_platform calm_world (earn_request\<lparr>rq_Authorization := ''Bearer nonsense''\<rparr>) db_earned)
     = Some db_earned"
proof -
  let ?r = "earn_request\<lparr>rq_Authorization := ''Bearer nonsense''\<rparr>"
  have "map_option (\<lambda>(p, d). rs_Status p) (serve toy_platform calm_world ?r db_earned) = Some 401"
    by code_simp
  then obtain p d' where s: "serve toy_platform calm_world ?r db_earned = Some (p, d')"
    by (cases "serve toy_platform calm_world ?r db_earned") auto
  have "proven toy_platform calm_world ?r = None" by code_simp
  with no_token_no_write [OF s] toy_edge_chi s show ?thesis by (simp add: toy_platform_def)
qed

text \<open>
  C12. A served request moves the balance of an account only if its token proves the account's
  owner or an admin: a member's request, whatever path or body it names, changes no other balance.
\<close>

theorem balance_moved_by_owner_or_admin:
  assumes "reaches pf d" and "serve pf wo r d = Some (p, d')" and "balance_of d' a \<noteq> balance_of d a"
  shows "\<exists>i. proven pf wo r = Some i \<and> (id_Role i = RoleAdmin \<or> id_AccountID i = a)"
proof -
  have "db_ok d" using reaches_sound [OF assms(1)] by (simp add: sound_db_def)
  with serve_keeps [OF assms(2)] assms(3) show ?thesis
    by (simp add: keeps_def may_reach_def proven_def)
qed

theorem balance_moved_by_owner_or_admin_witness:
  "\<exists>i. proven toy_platform calm_world earn_request = Some i
     \<and> (id_Role i = RoleAdmin \<or> id_AccountID i = ''member-123'')"
proof -
  have "map_option (\<lambda>(p, d). balance_of d ''member-123'') (serve toy_platform calm_world earn_request db0)
      = Some 100" by code_simp
  then obtain p d' where "serve toy_platform calm_world earn_request db0 = Some (p, d')"
    and "balance_of d' ''member-123'' = 100"
    by (cases "serve toy_platform calm_world earn_request db0") auto
  moreover have "balance_of db0 ''member-123'' = 0" by code_simp
  moreover have "reaches toy_platform db0" unfolding db0_def by (rule reaches.start)
  ultimately show ?thesis using balance_moved_by_owner_or_admin by (metis zero_neq_numeral)
qed

text \<open>
  C13. Serving requests never makes an admin: in every reachable state the only admin is the seeded
  one, with its seeded hash.
\<close>

theorem only_seeded_admin:
  assumes "reaches pf d" and "credential d i = Some (h, RoleAdmin)"
  shows "i = ''admin-001'' \<and> h = seed_hash_admin"
  by (rule reaches_admin [OF assms])

theorem only_seeded_admin_witness:
  "credential db_earned ''admin-001'' = Some (seed_hash_admin, RoleAdmin)"
proof -
  have "\<exists>h. credential db_earned ''admin-001'' = Some (h, RoleAdmin)"
    by (rule exI [of _ seed_hash_admin]) code_simp
  with only_seeded_admin [OF db_earned_reached] show ?thesis by blast
qed

text \<open>
  C14. The gates stand before the store: a caller who may not act on an account gets the same 403
  from the account, balance, ledger and redeem handlers in every state, so the answer does not
  tell whether the account exists; a caller who is no admin gets it from the listing, audit and
  batch handlers; and the state is untouched.
\<close>

theorem forbidden_before_store:
  assumes "\<not> may_act r a" and "Decode_NewRedemption (rq_Body r) \<noteq> None"
  shows "h_GetAccount sv wo r a s = (writeError [] r 403 ''forbidden'' ''you may not access this account'', s)
    \<and> h_GetBalance sv wo r a s = (writeError [] r 403 ''forbidden'' ''you may not access this account'', s)
    \<and> h_ListTransactions sv wo r a s = (writeError [] r 403 ''forbidden'' ''you may not access this account'', s)
    \<and> h_RedeemPoints sv wo r a s = (writeError [] r 403 ''forbidden'' ''you may not access this account'', s)
    \<and> h_ListAccounts sv wo r s = (writeError [] r 403 ''forbidden'' ''you may not access this account'', s)
    \<and> h_ListAudit sv wo r q s = (writeError [] r 403 ''forbidden'' ''you may not access this account'', s)
    \<and> h_IngestBatch sv wo r s = (writeError [] r 403 ''forbidden'' ''you may not access this account'', s)"
proof -
  have "authorizeTarget r a = Inl (Sentinel ErrForbidden)" using assms(1) by (simp add: authorizeTarget_eq)
  moreover have "requireAdmin r = Some (Sentinel ErrForbidden)"
    using assms(1) by (auto simp: requireAdmin_eq is_admin_def may_act_def)
  ultimately show ?thesis
    using assms(2)
    by (auto simp: h_GetAccount_def h_GetBalance_def h_ListTransactions_def h_RedeemPoints_def
        h_ListAccounts_def h_ListAudit_def h_IngestBatch_def writeDomainError_Sentinel split: option.splits)
qed

theorem forbidden_before_store_witness:
  "h_GetBalance (wallet_server toy_platform) calm_world member_req ''ghost'' db0
   = (writeError [] member_req 403 ''forbidden'' ''you may not access this account'', db0)"
proof -
  have 1: "\<not> may_act member_req ''ghost''" by (simp add: may_act_def member_req_def RoleAdmin_def)
  have 2: "Decode_NewRedemption (rq_Body member_req) \<noteq> None" by code_simp
  from forbidden_before_store [OF 1 2, of "wallet_server toy_platform" calm_world db0] show ?thesis by blast
qed

text \<open>
  C15. What the answer to POST /transactions says happened: 201 carries the new transaction, which
  the ledger took for an account the caller may act on; 200 carries the transaction the reference
  already held, with the ledger unchanged; any other status leaves the ledger unchanged unless a
  failed database call landed.
\<close>

theorem transaction_status:
  assumes "db_ok d" and h: "h_CreateTransaction (wallet_server pf) wo r d = (p, d')"
  shows "(rs_Status p = 201 \<longrightarrow> (\<exists>t u. rs_Body p = BTransaction (txn_to_wire u)
             \<and> took held_txn balance_of t u d d' \<and> may_act r (t_AccountID t)))
    \<and> (rs_Status p = 200 \<longrightarrow> (\<exists>u. rs_Body p = BTransaction (txn_to_wire u)
             \<and> held_txn d (t_Ref u) = Some u \<and> same_view held_txn balance_of d d'))
    \<and> (rs_Status p \<notin> {200, 201} \<and> quiet (wo_call wo 0) \<longrightarrow> same_view held_txn balance_of d d')"
  using h_CreateTransaction_cases [OF h]
proof (elim disjE exE conjE)
  fix body res
  assume act: "may_act r (nt_AccountId body)"
    and "svc_call_step (sv_txns (wallet_server pf) (wo_call wo 0)) (txn_call body) d = (res, d')"
    and p: "p = record_response r (\<lambda>u. BTransaction (txn_to_wire u)) res"
  then have step: "svc_call_step (store_txns (wo_call wo 0)) (txn_call body) d = (res, d')" by simp
  have "rs_Status p = 201 \<Longrightarrow> \<exists>t u. rs_Body p = BTransaction (txn_to_wire u)
      \<and> took held_txn balance_of t u d d' \<and> may_act r (t_AccountID t)"
    using api_db.record_status(1) [OF assms(1) step p] act by (metis txn_call_account(1))
  moreover have "rs_Status p = 200 \<Longrightarrow> \<exists>u. rs_Body p = BTransaction (txn_to_wire u)
      \<and> held_txn d (t_Ref u) = Some u \<and> same_view held_txn balance_of d d'"
    using api_db.record_status(2) [OF assms(1) step p] held_txn_ref by metis
  ultimately show ?thesis using api_db.record_status(3) [OF assms(1) step p] by blast
qed (auto simp: same_view_def)

theorem transaction_status_witness:
  "\<exists>t u. rs_Body (fst (h_CreateTransaction (wallet_server toy_platform) calm_world member_req db0))
        = BTransaction (txn_to_wire u)
      \<and> took held_txn balance_of t u db0 (snd (h_CreateTransaction (wallet_server toy_platform) calm_world member_req db0))"
proof -
  have "rs_Status (fst (h_CreateTransaction (wallet_server toy_platform) calm_world member_req db0)) = 201"
    by code_simp
  with transaction_status [OF db0_ok(1) prod.collapse [symmetric]] show ?thesis by blast
qed



section \<open>Credentials and tokens\<close>

text \<open>
  C17. A 200 answer to POST /login is earned: the account has a stored non-empty hash, the given
  secret passed the bcrypt comparison against it, and the token was issued for that account with
  the role stored for it, whatever the request says.
\<close>

theorem login_success_sound:
  assumes "db_ok d" and h: "h_Login (wallet_server pf) wo r d = (p, d')" and "rs_Status p = 200"
  shows "\<exists>body hash role token. Decode_LoginRequest (rq_Body r) = Some body
    \<and> credential d (lq_AccountId body) = Some (hash, role) \<and> hash \<noteq> []
    \<and> bc_CompareHashAndPassword (pf_bcrypt pf) hash (secret_of (lq_Secret body)) = None
    \<and> IssueToken (pf_jwt pf) (pf_secret pf) (pf_ttl pf)
        \<lparr>id_AccountID = lq_AccountId body, id_Role = role\<rparr> (wo_now wo) = Inr token
    \<and> (\<exists>n. rs_Body p = BToken \<lparr>tk_ExpiresIn = n, tk_Token = token, tk_TokenType = ''Bearer''\<rparr>)"
proof -
  obtain body i token n where body: "Decode_LoginRequest (rq_Body r) = Some body"
    and i: "fst (svc_Login (pf_bcrypt pf) (store_accounts (wo_call wo 0)) (lq_AccountId body)
              (secret_of (lq_Secret body)) d) = Inr i"
    and tok: "IssueToken (pf_jwt pf) (pf_secret pf) (pf_ttl pf) i (wo_now wo) = Inr token"
    and p: "rs_Body p = BToken \<lparr>tk_ExpiresIn = n, tk_Token = token, tk_TokenType = ''Bearer''\<rparr>"
    using h assms(3)
    by (auto simp: h_Login_def gen_Bearer_def split: option.splits sum.splits if_splits)
  from credentials.login_identity [OF assms(1) i] obtain hash where "id_AccountID i = lq_AccountId body"
    and "credential d (lq_AccountId body) = Some (hash, id_Role i)" and "hash \<noteq> []"
    and "bc_CompareHashAndPassword (pf_bcrypt pf) hash (secret_of (lq_Secret body)) = None"
    by blast
  moreover from this(1) have "i = \<lparr>id_AccountID = lq_AccountId body, id_Role = id_Role i\<rparr>" by simp
  ultimately show ?thesis using body tok p by metis
qed

theorem login_success_sound_witness:
  "\<exists>hash role. credential db_new ''new-1'' = Some (hash, role)
     \<and> bc_CompareHashAndPassword toy_bcrypt hash ''pw'' = None"
proof -
  let ?h = "h_Login (wallet_server toy_platform) calm_world (login_req ''new-1'') db_new"
  have "rs_Status (fst ?h) = 200" by code_simp
  moreover have "Decode_LoginRequest (rq_Body (login_req ''new-1''))
      = Some \<lparr>lq_AccountId = ''new-1'', lq_Secret = Some ''pw''\<rparr>" by code_simp
  ultimately show ?thesis
    using login_success_sound [OF db_new_ok prod.collapse [symmetric], of toy_platform calm_world "login_req ''new-1''"]
    by (auto simp: toy_platform_def secret_of_def)
qed

text \<open>
  C18. Logins fail alike: whether the account is unknown, has no secret, cannot be read, or the
  secret is wrong, the answer is the same 401 envelope, and on every path exactly one bcrypt
  comparison of the given secret runs, against a non-empty hash.
\<close>

theorem login_failures_alike:
  assumes "Decode_LoginRequest (rq_Body r) = Some body"
  shows "(\<exists>hash. hash \<noteq> [] \<and> snd (svc_Login (sv_bcrypt sv) (sv_accounts sv (wo_call wo 0)) (lq_AccountId body)
             (secret_of (lq_Secret body)) s) = [(hash, secret_of (lq_Secret body))])
    \<and> (\<forall>err. fst (svc_Login (sv_bcrypt sv) (sv_accounts sv (wo_call wo 0)) (lq_AccountId body)
             (secret_of (lq_Secret body)) s) = Inl err \<longrightarrow>
         h_Login sv wo r s = (writeError [] r 401 ''invalid_credentials'' ''invalid credentials'', s))"
proof -
  have "dummyHash \<noteq> []" by (simp add: dummyHash_def)
  then have "\<exists>hash. hash \<noteq> [] \<and> snd (svc_Login (sv_bcrypt sv) (sv_accounts sv (wo_call wo 0)) (lq_AccountId body)
             (secret_of (lq_Secret body)) s) = [(hash, secret_of (lq_Secret body))]"
    by (auto simp: svc_Login_def split: sum.split option.split)
  moreover have "h_Login sv wo r s = (writeError [] r 401 ''invalid_credentials'' ''invalid credentials'', s)"
    if "fst (svc_Login (sv_bcrypt sv) (sv_accounts sv (wo_call wo 0)) (lq_AccountId body)
          (secret_of (lq_Secret body)) s) = Inl err" for err
    using that svc_Login_error [OF that] by (simp add: h_Login_def assms)
  ultimately show ?thesis by blast
qed

theorem login_failures_alike_witness:
  "h_Login (wallet_server toy_platform) calm_world (login_req ''ghost'') db0
   = (writeError [] (login_req ''ghost'') 401 ''invalid_credentials'' ''invalid credentials'', db0)"
proof -
  let ?r = "login_req ''ghost''"
  let ?b = "\<lparr>lq_AccountId = ''ghost'', lq_Secret = Some ''pw''\<rparr>"
  have b: "Decode_LoginRequest (rq_Body ?r) = Some ?b" by code_simp
  have "fst (svc_Login (sv_bcrypt (wallet_server toy_platform)) (sv_accounts (wallet_server toy_platform) (wo_call calm_world 0))
      (lq_AccountId ?b) (secret_of (lq_Secret ?b)) db0) = Inl (Sentinel ErrInvalidCredentials)" by code_simp
  with login_failures_alike [OF b, of "wallet_server toy_platform" calm_world db0] show ?thesis by blast
qed

text \<open>
  C19. An account created with a secret can log in with it as a member: creation succeeds only for
  a free id, adds exactly that credential and changes no other, and when the database answers, the
  login with the same secret yields the member identity. bcrypt is assumed to accept a secret
  against the hash it generated from it.
\<close>

theorem create_then_login_member:
  assumes "db_ok d" and c: "svc_CreateAccount bc (store_accounts e) a secret d = (None, d')"
    and "secret \<noteq> []" and "no_faults e'"
    and "\<forall>h. bc_GenerateFromPassword bc secret bcryptCost = Inr h \<longrightarrow>
           h \<noteq> [] \<and> bc_CompareHashAndPassword bc h secret = None"
  shows "fst (svc_Login bc (store_accounts e') (acc_ID a) secret d')
           = Inr \<lparr>id_AccountID = acc_ID a, id_Role = RoleMember\<rparr>
    \<and> credential d (acc_ID a) = None \<and> (\<forall>i. i \<noteq> acc_ID a \<longrightarrow> credential d' i = credential d i)"
proof -
  obtain h where rep: "repo_CreateAccount (store_accounts e) a h d = (None, d')"
    using c assms(3) by (auto simp: svc_CreateAccount_def split: sum.splits if_splits)
  have op: "opened credential (acc_ID a) h d d'" by (rule credentials.create_opened [OF assms(1) rep])
  have ok: "db_ok d'" by (rule credentials.invar_create [OF assms(1) rep])
  have "repo_GetCredential (store_accounts e') (acc_ID a) d' = Inr (h, RoleMember)"
    using st_GetCredential_value [OF assms(4) ok] op by (simp add: opened_def)
  from credentials.create_then_login [OF assms(1) c assms(3) _ this] assms(5)
  have "fst (svc_Login bc (store_accounts e') (acc_ID a) secret d')
           = Inr \<lparr>id_AccountID = acc_ID a, id_Role = RoleMember\<rparr>" by blast
  with op show ?thesis by (simp add: opened_def)
qed

theorem create_then_login_member_witness:
  "fst (svc_Login toy_bcrypt (store_accounts calm) ''new-1'' ''pw'' db_new)
   = Inr \<lparr>id_AccountID = ''new-1'', id_Role = RoleMember\<rparr>"
proof -
  have c: "svc_CreateAccount toy_bcrypt (store_accounts calm) new_account_arg ''pw'' db0 = (None, db_new)"
    by (simp add: db_new_value)
  have "\<forall>h. bc_GenerateFromPassword toy_bcrypt ''pw'' bcryptCost = Inr h \<longrightarrow>
      h \<noteq> [] \<and> bc_CompareHashAndPassword toy_bcrypt h ''pw'' = None"
    by (simp add: toy_bcrypt_def)
  from create_then_login_member [OF db0_ok(1) c _ calm_no_faults(1) this] show ?thesis
    by (simp add: new_account_arg_def)
qed

text \<open>
  C20. A token issued at login verifies to the identity it was issued for until it expires: the
  role and the subject survive signing and parsing. The JWT library is assumed to return the
  claims it signed with HS256 and the same key when the token has not expired.
\<close>

theorem token_roundtrip:
  assumes "IssueToken j secret ttl i now = Inr raw"
    and "id_Role i = RoleMember \<or> id_Role i = RoleAdmin" and "id_AccountID i \<noteq> []"
    and "tm_sec later < tm_sec (tm_Add now ttl)"
    and "jwt_SignedString j ''HS256'' (token_claims i now ttl) secret = Inr raw
           \<longrightarrow> tm_sec later < cl_ExpiresAt (token_claims i now ttl)
           \<longrightarrow> jwt_ParseWithClaims j raw secret [''HS256''] later = Inr (token_claims i now ttl)"
  shows "verifyToken j secret raw later = Inr i"
proof -
  have "ParseRole (id_Role i) = Inr (id_Role i)" using assms(2) by (simp add: ParseRole_Inr)
  moreover have "jwt_ParseWithClaims j raw secret [''HS256''] later = Inr (token_claims i now ttl)"
    using assms(1,4,5) by (simp add: IssueToken_def token_claims_def)
  ultimately show ?thesis using assms(3) by (simp add: verifyToken_def token_claims_def)
qed

theorem token_roundtrip_witness:
  "verifyToken toy_jwt ''secret'' ''tok-member'' noon
   = Inr \<lparr>id_AccountID = ''member-123'', id_Role = ''member''\<rparr>"
proof -
  let ?i = "\<lparr>id_AccountID = ''member-123'', id_Role = ''member''\<rparr>"
  have "IssueToken toy_jwt ''secret'' 3600000000000 ?i noon = Inr ''tok-member''" by code_simp
  moreover have "jwt_ParseWithClaims toy_jwt ''tok-member'' ''secret'' [''HS256''] noon
      = Inr (token_claims ?i noon 3600000000000)" by code_simp
  moreover have "tm_sec noon < tm_sec (tm_Add noon 3600000000000)" by code_simp
  ultimately show ?thesis
    using token_roundtrip [of toy_jwt "''secret''" 3600000000000 ?i noon "''tok-member''" noon]
    by (simp add: role_consts)
qed

text \<open>
  C21. The signing method is pinned: a token that verifies was signed with HS256, whatever method
  its own header asks for, it carries one of the two roles, and a non-empty subject. The JWT
  library is assumed to accept only tokens whose method is in the list it is given.
\<close>

theorem token_method_pinned:
  assumes "\<forall>raw key methods now c. jwt_ParseWithClaims j raw key methods now = Inr c \<longrightarrow> alg raw \<in> set methods"
    and "verifyToken j secret raw now = Inr i"
  shows "alg raw = ''HS256'' \<and> (id_Role i = RoleMember \<or> id_Role i = RoleAdmin) \<and> id_AccountID i \<noteq> []"
  using verifyToken_Inr [OF assms(2)] assms(1) by fastforce

theorem token_method_pinned_witness:
  "(\<lambda>raw. ''HS256'') ''tok-admin'' = ''HS256'' \<and> verifyToken toy_jwt ''secret'' ''tok-admin'' noon
     = Inr \<lparr>id_AccountID = ''admin-001'', id_Role = ''admin''\<rparr>"
proof -
  have v: "verifyToken toy_jwt ''secret'' ''tok-admin'' noon
      = Inr \<lparr>id_AccountID = ''admin-001'', id_Role = ''admin''\<rparr>" by code_simp
  have "\<forall>raw key methods now c. jwt_ParseWithClaims toy_jwt raw key methods now = Inr c
      \<longrightarrow> (\<lambda>raw. ''HS256'') raw \<in> set methods"
    by (simp add: toy_jwt_def)
  from token_method_pinned [OF this v] v show ?thesis by simp
qed

section \<open>The audit trail\<close>

text \<open>
  The audit trail records attempts, not transactions: recording the same attempt twice adds two
  entries on top of the log, each with the attempt's fields, and neither touches the ledger or a
  credential.
\<close>

theorem audit_records_every_attempt:
  assumes "db_ok d" and 1: "svc_Record (store_audit e) x d = (Inr y, d1)"
    and 2: "svc_Record (store_audit e') x d1 = (Inr z, d2)"
  shows "audit_view d2 = z # y # audit_view d \<and> same_attempt x y \<and> same_attempt x z
    \<and> same_view held_txn balance_of d d2 \<and> credential d2 = credential d"
proof -
  have v: "valid_outcome (ae_Outcome x)" using 1 by (auto simp: svc_Record_def split: if_splits)
  then have a1: "st_AppendAudit e x d = (Inr y, d1)" and a2: "st_AppendAudit e' x d1 = (Inr z, d2)"
    using 1 2 by (simp_all add: svc_Record_def)
  show ?thesis
    using audit_trail.record_twice [OF assms] st_AppendAudit_view [OF a1] st_AppendAudit_view [OF a2]
    by (simp add: same_view_def)
qed

theorem audit_records_every_attempt_witness:
  "length (audit_view (snd (svc_Record (store_audit calm) demo_attempt
      (snd (svc_Record (store_audit calm) demo_attempt db0))))) = 2"
proof -
  let ?r1 = "svc_Record (store_audit calm) demo_attempt db0"
  let ?r2 = "svc_Record (store_audit calm) demo_attempt (snd ?r1)"
  have "(\<exists>y. fst ?r1 = Inr y) \<and> (\<exists>z. fst ?r2 = Inr z)"
  proof
    show "\<exists>y. fst ?r1 = Inr y"
      by (rule exI [of _ "demo_attempt\<lparr>ae_ID := 1, ae_CreatedAt := \<lparr>tm_sec = 1717236000, tm_nsec = 0\<rparr>\<rparr>"]) code_simp
    show "\<exists>z. fst ?r2 = Inr z"
      by (rule exI [of _ "demo_attempt\<lparr>ae_ID := 2, ae_CreatedAt := \<lparr>tm_sec = 1717236000, tm_nsec = 0\<rparr>\<rparr>"]) code_simp
  qed
  then obtain y z where "?r1 = (Inr y, snd ?r1)" "?r2 = (Inr z, snd ?r2)" by (metis prod.collapse)
  from audit_records_every_attempt [OF db0_ok(1) this]
  show ?thesis by (simp add: audit_view_def db0_def seed_db_def)
qed

text \<open>
  C22. A 200 answer to GET /audit goes to an admin only and lists the log newest first, all of it
  or, with the filter, exactly the entries of that account; every listed outcome is one of the
  three the contract names.
\<close>

theorem audit_list_exact:
  assumes "db_ok d" and "h_ListAudit (wallet_server pf) wo r q d = (p, d')" and "rs_Status p = 200"
  shows "is_admin r \<and> (\<exists>ws. rs_Body p = BAuditLog ws
    \<and> ws = map auditToWire (if secret_of q = [] then audit_view d
                            else filter (\<lambda>y. ae_AccountID y = secret_of q) (audit_view d))
    \<and> (\<forall>w \<in> set ws. AuditEntryOutcome_Valid (ge_Outcome w)))"
proof -
  obtain xs where adm: "is_admin r" and b: "rs_Body p = BAuditLog (map auditToWire xs)"
    and xs: "st_ListAudit (wo_call wo 0) (secret_of q) d = Inr xs"
    using h_ListAudit_ok [OF assms(2,3)] by blast
  note eq = st_ListAudit_Inr [OF assms(1) xs]
  have "list_all (\<lambda>r. valid_outcome (lr_outcome r)) (audit_log d)"
    using assms(1) by (auto simp: db_ok_def audit_ok_def list_all_iff)
  then have "\<forall>y \<in> set (audit_view d). valid_outcome (ae_Outcome y)"
    by (auto simp: audit_view_def auditFromRow_def list_all_iff)
  then have "\<forall>w \<in> set (map auditToWire xs). AuditEntryOutcome_Valid (ge_Outcome w)"
    by (auto simp: eq auditToWire_def valid_outcome_def outcome_consts enum_defs split: if_splits)
  with adm show ?thesis unfolding b eq by blast
qed

theorem audit_list_exact_witness:
  "rs_Body (fst (h_ListAudit (wallet_server toy_platform) calm_world admin_req None db0)) = BAuditLog []"
proof -
  let ?h = "h_ListAudit (wallet_server toy_platform) calm_world admin_req None db0"
  have "rs_Status (fst ?h) = 200" by code_simp
  from audit_list_exact [OF db0_ok(1) prod.collapse [symmetric] this] show ?thesis
    by (simp add: audit_view_def db0_def seed_db_def secret_of_def)
qed

section \<open>Batches\<close>

text \<open>
  C23. The summary of a batch adds up: processed is the number of rows after the header, malformed
  ones included, and equals accepted plus rejected plus duplicates.
\<close>

theorem batch_summary_adds_up:
  assumes "h_IngestBatch sv wo r s = (p, s')" and "rs_Status p = 200"
  shows "\<exists>header rows sm. upload_reads (sv_codec sv) r = Some (Some header # rows)
    \<and> rs_Body p = BBatchSummary sm \<and> bs_Processed sm = of_nat (length rows)
    \<and> bs_Processed sm = bs_Accepted sm + bs_Rejected sm + bs_Duplicates sm"
proof -
  obtain header rows tr where upload: "upload_reads (sv_codec sv) r = Some (Some header # rows)"
    and tr: "batch_trace sv wo 0 rows s = (tr, s')"
    and p: "p = writeJSON [] 200 (BBatchSummary (foldl (\<lambda>acc bx. count_row (fst bx) acc) zero_summary tr))"
    using h_IngestBatch_cases [OF assms(1)] assms(2) by auto
  show ?thesis
    using upload in_bucket_total [of tr, symmetric] length_batch_trace [OF tr]
    by (simp add: p count_rows zero_summary_def flip: of_nat_add)
qed

theorem batch_summary_adds_up_witness:
  "\<exists>sm. rs_Body (fst (h_IngestBatch (wallet_server toy_platform) calm_world admin_req db0)) = BBatchSummary sm
     \<and> bs_Processed sm = 5 \<and> bs_Processed sm = bs_Accepted sm + bs_Rejected sm + bs_Duplicates sm"
proof -
  let ?h = "h_IngestBatch (wallet_server toy_platform) calm_world admin_req db0"
  have "rs_Status (fst ?h) = 200" by code_simp
  from batch_summary_adds_up [OF prod.collapse [symmetric] this] show ?thesis
    by (auto simp: toy_platform_def toy_codec_def upload_reads_def toy_file_reads toy_reads_def)
qed



text \<open>
  C25. Uploading a file again is harmless: after an upload in which no row was rejected, a second
  upload of the same file, by any admin and under any database failures, accepts no row and leaves
  the ledger as it is.
\<close>

theorem batch_upload_idempotent:
  assumes "db_ok d" and h1: "h_IngestBatch (wallet_server pf) wo r d = (p, d1)"
    and sm: "rs_Body p = BBatchSummary sm" "bs_Rejected sm = 0"
    and upload: "upload_reads (pf_codec pf) r = Some (header # rows)" "length rows < 2 ^ 64"
    and h2: "h_IngestBatch (wallet_server pf) wo2 r2 d1 = (p2, d2)" "cd_FormFile (pf_codec pf) r2 = cd_FormFile (pf_codec pf) r"
  shows "same_view held_txn balance_of d1 d2
    \<and> (rs_Status p2 = 200 \<longrightarrow> (\<exists>sm2. rs_Body p2 = BBatchSummary sm2 \<and> bs_Accepted sm2 = 0))"
proof -
  note W = wired_store [of pf]
  have ok: "\<not> is_error p" using sm(1) by (simp add: is_error_def)
  obtain tr where tr: "batch_trace (wallet_server pf) wo 0 rows d = (tr, d1)"
    and p: "p = writeJSON [] 200 (BBatchSummary (foldl (\<lambda>acc bx. count_row (fst bx) acc) zero_summary tr))"
    using h_IngestBatch_cases [OF h1] ok upload(1) by auto
  have "in_bucket bucketRejected tr \<le> length tr" by (simp add: in_bucket_def)
  then have "in_bucket bucketRejected tr < 2 ^ 64" using upload(2) length_batch_trace [OF tr] by simp
  moreover have "(of_nat (in_bucket bucketRejected tr) :: int64) = 0"
    using sm by (auto simp: p count_rows zero_summary_def)
  ultimately have "in_bucket bucketRejected tr = 0"
    by (auto simp: word_of_nat_eq_0_iff dest: nat_dvd_not_less [rotated])
  then have held: "\<forall>rd \<in> set rows. \<forall>ref. row_ref rd = Some ref \<longrightarrow> held_txn d1 ref \<noteq> None"
    using api_db.batch_trace_holds [OF W assms(1) tr] by fastforce
  have d1: "db_ok d1" using api_db.batch_trace_keeps [OF W tr] assms(1) by (simp add: keeps_def)
  from h_IngestBatch_cases [OF h2(1)] show ?thesis
  proof (elim disjE exE conjE)
    fix header2 rows2 tr2
    assume "upload_reads (sv_codec (wallet_server pf)) r2 = Some (Some header2 # rows2)"
      and "batch_trace (wallet_server pf) wo2 0 rows2 d1 = (tr2, d2)"
      and p2: "p2 = writeJSON [] 200 (BBatchSummary (foldl (\<lambda>acc bx. count_row (fst bx) acc) zero_summary tr2))"
    then have "batch_trace (wallet_server pf) wo2 0 rows d1 = (tr2, d2)" using upload(1) h2(2) by (auto simp: upload_reads_def)
    from api_db.batch_trace_again [OF W d1 this held] show ?thesis
      by (simp add: p2 count_rows zero_summary_def)
  qed (auto simp: same_view_def)
qed

theorem batch_upload_idempotent_witness:
  "\<exists>p d2. h_IngestBatch (wallet_server clean_platform) calm_world admin_req
            (snd (h_IngestBatch (wallet_server clean_platform) calm_world admin_req db0)) = (p, d2)
     \<and> (\<exists>sm. rs_Body p = BBatchSummary sm \<and> bs_Accepted sm = 0)"
proof -
  let ?sv = "wallet_server clean_platform"
  let ?h1 = "h_IngestBatch ?sv calm_world admin_req db0"
  let ?h2 = "h_IngestBatch ?sv calm_world admin_req (snd ?h1)"
  have b: "rs_Body (fst ?h1) = BBatchSummary \<lparr>bs_Accepted = 2, bs_Duplicates = 0, bs_Processed = 2, bs_Rejected = 0\<rparr>"
    by code_simp
  have st: "rs_Status (fst ?h2) = 200" by code_simp
  have f: "upload_reads (pf_codec clean_platform) admin_req = Some (Some (hd clean_rows) # map Some (tl clean_rows))"
    by (simp add: clean_platform_def upload_reads_def clean_file_reads) (simp add: clean_rows_def)
  have l: "length (map Some (tl clean_rows)) < 2 ^ 64" by (simp add: clean_rows_def)
  have r: "bs_Rejected \<lparr>bs_Accepted = 2, bs_Duplicates = 0, bs_Processed = 2, bs_Rejected = 0\<rparr> = 0" by simp
  have "\<exists>sm. rs_Body (fst ?h2) = BBatchSummary sm \<and> bs_Accepted sm = 0"
    using batch_upload_idempotent [OF db0_ok(1) prod.collapse [symmetric] b r f l prod.collapse [symmetric] refl] st
    by blast
  then show ?thesis by (metis prod.collapse)
qed



text \<open>
  Writing a transaction as a row and parsing the row gives the transaction back, for an earn or
  spend of at least one point at a whole second of the years 0 to 9999: number and time formats,
  and the trimming of fields, lose nothing.
\<close>

theorem row_roundtrip:
  assumes "t_Kind t = KindEarn \<or> t_Kind t = KindSpend" and "0 < sint (t_Points t)" and "t_Reward t = []"
    and "tm_nsec (t_OccurredAt t) = 0"
    and "fst (days_to_civil (tm_sec (t_OccurredAt t) div 86400 + 719162)) \<in> {0..9999}"
  shows "parseRow (row_of_txn t) = Inr t"
  by (rule parseRow_row_of_txn [OF assms])

theorem row_roundtrip_witness:
  "parseRow [''tx-1'', ''member-123'', ''earn'', ''100'', ''2024-06-01T12:00:00Z''] = Inr (earn_txn ''tx-1'' 100)"
proof -
  have "row_of_txn (earn_txn ''tx-1'' 100)
      = [''tx-1'', ''member-123'', ''earn'', ''100'', ''2024-06-01T12:00:00Z'']" by code_simp
  moreover have "parseRow (row_of_txn (earn_txn ''tx-1'' 100)) = Inr (earn_txn ''tx-1'' 100)"
    by (rule row_roundtrip [OF _ _ _ _ earn_txn_year]) (simp_all add: earn_txn_def kind_consts noon_def)
  ultimately show ?thesis by simp
qed

text \<open>
  C27. A file of transactions survives the upload: earns and spends of at least one point at whole
  seconds of the years 0 to 9999, written under the documented header with every field quoted, are
  read back row by row by the CSV reader and parsed back to the same transactions, whatever commas,
  quotes and line feeds their references hold, as long as they hold no carriage return.
\<close>

theorem upload_roundtrip:
  assumes "\<forall>t \<in> set ts. (t_Kind t = KindEarn \<or> t_Kind t = KindSpend) \<and> 0 < sint (t_Points t) \<and> t_Reward t = []
      \<and> tm_nsec (t_OccurredAt t) = 0
      \<and> fst (days_to_civil (tm_sec (t_OccurredAt t) div 86400 + 719162)) \<in> {0..9999}
      \<and> CR \<notin> set (t_Ref t @ t_AccountID t)"
  shows "csv_reads (csv_file (expectedHeader # map row_of_txn ts))
      = Some expectedHeader # map (\<lambda>t. Some (row_of_txn t)) ts
    \<and> map parseRow (map row_of_txn ts) = map Inr ts"
proof
  have "\<forall>fs \<in> set (expectedHeader # map row_of_txn ts). fs \<noteq> [] \<and> (\<forall>f \<in> set fs. CR \<notin> set f)"
    using assms row_of_txn_no_CR by (auto simp: expectedHeader_def)
  from csv_file_roundtrip [OF this] show "csv_reads (csv_file (expectedHeader # map row_of_txn ts))
      = Some expectedHeader # map (\<lambda>t. Some (row_of_txn t)) ts" by simp
  show "map parseRow (map row_of_txn ts) = map Inr ts"
    using assms by (auto intro!: parseRow_row_of_txn)
qed

theorem upload_roundtrip_witness:
  "csv_reads (csv_file [expectedHeader, row_of_txn (earn_txn ''tx-1'' 100), row_of_txn (earn_txn ''a,b'' 7)])
     = [Some expectedHeader, Some [''tx-1'', ''member-123'', ''earn'', ''100'', ''2024-06-01T12:00:00Z''],
        Some [''a,b'', ''member-123'', ''earn'', ''7'', ''2024-06-01T12:00:00Z'']]
   \<and> parseRow [''a,b'', ''member-123'', ''earn'', ''7'', ''2024-06-01T12:00:00Z''] = Inr (earn_txn ''a,b'' 7)"
proof -
  let ?ts = "[earn_txn ''tx-1'' 100, earn_txn ''a,b'' 7]"
  have rows: "map row_of_txn ?ts = [[''tx-1'', ''member-123'', ''earn'', ''100'', ''2024-06-01T12:00:00Z''],
      [''a,b'', ''member-123'', ''earn'', ''7'', ''2024-06-01T12:00:00Z'']]" by code_simp
  have "\<forall>t \<in> set ?ts. fst (days_to_civil (tm_sec (t_OccurredAt t) div 86400 + 719162)) \<in> {0..9999}"
    using earn_txn_year by simp
  with upload_roundtrip [of ?ts] rows show ?thesis by (simp add: earn_txn_def kind_consts noon_def)
qed

text \<open>
  C28. A stored transaction is read back as it was given, its time cut to the second, when the time
  falls in the years 0 to 9999 (UTC).
\<close>

theorem stored_time_kept:
  assumes "db_ok d" and "st_RecordTransaction e t d = (Inr (u, True), d')"
    and "fst (days_to_civil (tm_sec (t_OccurredAt t) div 86400 + 719162)) \<in> {0..9999}"
  shows "held_txn d' (t_Ref t) = Some (t\<lparr>t_OccurredAt := (t_OccurredAt t)\<lparr>tm_nsec := 0\<rparr>\<rparr>)"
  using st_RecordTransaction_outcome [OF assms(2)]
proof cases
  case created
  then show ?thesis
    using held_with_row [of d t e] parse_or_zero_Format [OF assms(3)]
    by (simp add: insertable_def txn_of_new_row stored_txn_def)
qed simp

theorem stored_time_kept_witness:
  "held_txn db1 ''tx-1'' = Some (earn_txn ''tx-1'' 100)"
proof -
  have "fst (st_RecordTransaction calm (earn_txn ''tx-1'' 100) db0) = Inr (earn_txn ''tx-1'' 100, True)"
    by code_simp
  then have r: "st_RecordTransaction calm (earn_txn ''tx-1'' 100) db0 = (Inr (earn_txn ''tx-1'' 100, True), db1)"
    by (metis db1_def prod.collapse)
  from stored_time_kept [OF db0_ok(1) r earn_txn_year] show ?thesis
    by (simp add: earn_txn_def noon_def)
qed

section \<open>Bodies on the wire\<close>



lemma demo_bodies_plain:
  "list_all valid_utf8 [nt_AccountId earn_body, nt_Kind earn_body, nt_Ref earn_body]"
  "list_all valid_utf8 [nr_Ref redeem_body, nr_Reward redeem_body]"
  "plain_time (nt_OccurredAt earn_body)" "plain_time (nr_OccurredAt redeem_body)"
  "list_all valid_utf8 [na_AccountId \<lparr>na_AccountId = ''new-1'', na_Name = ''New'', na_Secret = None\<rparr>,
     na_Name \<lparr>na_AccountId = ''new-1'', na_Name = ''New'', na_Secret = None\<rparr>,
     secret_of (na_Secret \<lparr>na_AccountId = ''new-1'', na_Name = ''New'', na_Secret = None\<rparr>)]"
  "list_all valid_utf8 [lq_AccountId \<lparr>lq_AccountId = ''new-1'', lq_Secret = Some ''pw''\<rparr>,
     secret_of (lq_Secret \<lparr>lq_AccountId = ''new-1'', lq_Secret = Some ''pw''\<rparr>)]"
  by code_simp+

text \<open>
  C30. What a client encodes is what a handler sees: each of the four request bodies, encoded with the
  escapes of \<^verbatim>\<open>encoding/json\<close> and followed by anything, decodes to the value it was made from, for
  texts that are UTF-8 and times at whole seconds of the years 0 to 9999.
\<close>

theorem request_bodies_roundtrip:
  assumes "list_all valid_utf8 [nt_AccountId t, nt_Kind t, nt_Ref t]" and "plain_time (nt_OccurredAt t)"
    and "list_all valid_utf8 [nr_Ref q, nr_Reward q]" and "plain_time (nr_OccurredAt q)"
    and "list_all valid_utf8 [na_AccountId a, na_Name a, secret_of (na_Secret a)]"
    and "list_all valid_utf8 [lq_AccountId l, secret_of (lq_Secret l)]"
  shows "Decode_NewTransaction (the (Encode (json_NewTransaction t)) @ rest) = Some t
    \<and> Decode_NewRedemption (the (Encode (json_NewRedemption q)) @ rest) = Some q
    \<and> Decode_NewAccount (the (Encode (json_NewAccount a)) @ rest) = Some a
    \<and> Decode_LoginRequest (the (Encode (json_LoginRequest l)) @ rest) = Some l"
proof (intro conjI)
  have e: "Encode x = Some (the (Encode x))" if "x \<noteq> None" for x using that by (auto simp: Encode_def)
  note simps = decode_simps json_obj_def
  have some: "json_NewTransaction t \<noteq> None" "json_NewRedemption q \<noteq> None" "json_NewAccount a \<noteq> None"
    "json_LoginRequest l \<noteq> None"
    using assms(2,4)
    by (simp_all add: json_NewTransaction_def json_NewRedemption_def json_NewAccount_def
        json_LoginRequest_def simps split: option.split)
  show "Decode_NewTransaction (the (Encode (json_NewTransaction t)) @ rest) = Some t"
    by (rule Decode_NewTransaction_Encode [OF e [OF some(1)] assms(1,2)])
  show "Decode_NewRedemption (the (Encode (json_NewRedemption q)) @ rest) = Some q"
    by (rule Decode_NewRedemption_Encode [OF e [OF some(2)] assms(3,4)])
  show "Decode_NewAccount (the (Encode (json_NewAccount a)) @ rest) = Some a"
    by (rule Decode_NewAccount_Encode [OF e [OF some(3)]]) (use assms(5) in \<open>auto simp: secret_of_def\<close>)
  show "Decode_LoginRequest (the (Encode (json_LoginRequest l)) @ rest) = Some l"
    by (rule Decode_LoginRequest_Encode [OF e [OF some(4)]]) (use assms(6) in \<open>auto simp: secret_of_def\<close>)
qed

theorem request_bodies_roundtrip_witness:
  "Decode_NewTransaction (earn_text @ ''  '') = Some earn_body
   \<and> Decode_LoginRequest (login_text ''new-1'' @ ''  '') = Some \<lparr>lq_AccountId = ''new-1'', lq_Secret = Some ''pw''\<rparr>"
proof -
  have "Encode (json_NewTransaction earn_body) \<noteq> None"
    "Encode (json_LoginRequest \<lparr>lq_AccountId = ''new-1'', lq_Secret = Some ''pw''\<rparr>) \<noteq> None" by code_simp+
  then show ?thesis
    using request_bodies_roundtrip [OF demo_bodies_plain(1,3,2,4,5,6), of "''  ''"]
    by (auto simp: earn_text_def login_text_def text_of_def)
qed

text \<open>
  C31. The balance reaches the client: the bytes of a 200 balance answer hold one JSON object whose
  \<open>account_id\<close> unquotes to the requested account and whose \<open>balance\<close> parses, as a 64-bit integer, to
  the account's exact balance.
\<close>

theorem balance_on_the_wire:
  assumes "h_GetBalance (wallet_server pf) wo r a d = (p, d')" and "rs_Status p = 200" and "valid_utf8 a"
  shows "\<exists>x y b. json_first (body_bytes (rs_Body p) @ rest) = Some (JObj [(''account_id'', JStr x), (''balance'', JNum y)])
    \<and> unquote x = a \<and> ParseInt64 y = Some b \<and> sint b = balance_of d a"
proof -
  obtain b where body: "rs_Body p = BBalance \<lparr>gb_AccountId = a, gb_Balance = b\<rparr>" and b: "sint b = balance_of d a"
    using h_GetBalance_ok [OF assms(1,2)] by blast
  then show ?thesis
    using balance_bytes [of "\<lparr>gb_AccountId = a, gb_Balance = b\<rparr>" rest] unquote_json_escape [OF assms(3)]
      ParseInt64_int_text [of b] by auto
qed

theorem balance_on_the_wire_witness:
  "rs_Status (fst (h_GetBalance (wallet_server toy_platform) calm_world member_req ''member-123'' db_earned)) = 200
   \<and> (\<exists>y b. json_first (body_bytes (rs_Body (fst (h_GetBalance (wallet_server toy_platform) calm_world member_req
          ''member-123'' db_earned)))) = Some (JObj [(''account_id'', JStr ''member-123''), (''balance'', JNum y)])
       \<and> ParseInt64 y = Some b \<and> sint b = 100)"
proof -
  let ?h = "h_GetBalance (wallet_server toy_platform) calm_world member_req ''member-123'' db_earned"
  have st: "rs_Status (fst ?h) = 200" by code_simp
  have utf: "valid_utf8 ''member-123''" by code_simp
  have "json_first (body_bytes (rs_Body (fst ?h)))
      = Some (JObj [(''account_id'', JStr ''member-123''), (''balance'', JNum ''100'')])" by code_simp
  with balance_on_the_wire [OF prod.collapse [symmetric] st utf, of "[]"] st db_earned_balance show ?thesis
    by auto
qed



text \<open>
  C33. The answers are well typed: in every reachable state each role, kind, outcome and token type of
  an answer is a value of its enum, but for one case, a POST /transactions that replays the reference
  of a redemption and shows kind redeem.
\<close>

theorem answers_well_typed:
  assumes "reaches pf d" and "runs_op (wallet_server pf) wo t r d p d'"
  shows "well_typed (rs_Body p) \<or>
    (t = OpCreateTransaction \<and> rs_Status p = 200 \<and>
     (\<exists>k u. held_txn d k = Some u \<and> t_Kind u = KindRedeem \<and> rs_Body p = BTransaction (txn_to_wire u)))"
proof (cases "t = OpCreateTransaction")
  case True
  have "db_ok d" using reaches_sound [OF assms(1)] by (simp add: sound_db_def)
  moreover have "h_CreateTransaction (wallet_server pf) wo r d = (p, d')"
    using assms(2) True by (auto elim: runs_op.cases)
  ultimately show ?thesis using CreateTransaction_typed True by blast
next
  case False
  then show ?thesis
    using runs_op_typed [OF assms(2)] reaches_sound [OF assms(1)] by (simp add: sound_db_def)
qed

theorem answers_well_typed_witness:
  "\<exists>xs. rs_Body (fst (h_ListAccounts (wallet_server toy_platform) calm_world admin_req db_earned)) = BAccountList xs
     \<and> length xs = 2 \<and> list_all (\<lambda>x. AccountSummaryRole_Valid (gs_Role x)) xs"
proof -
  let ?h = "h_ListAccounts (wallet_server toy_platform) calm_world admin_req db_earned"
  have "(case rs_Body (fst ?h) of BAccountList xs \<Rightarrow> length xs = 2 | _ \<Rightarrow> False)" by code_simp
  then obtain xs where xs: "rs_Body (fst ?h) = BAccountList xs" "length xs = 2" by (auto split: body.splits)
  from answers_well_typed [OF db_earned_reached runs_op.list_accounts [OF prod.collapse [symmetric]]] xs
  show ?thesis by (metis target.distinct well_typed.simps(1))
qed



section \<open>The edge\<close>

text \<open>
  Error answers say nothing about the inside: the answer to a domain error depends only on
  which sentinels the error carries, however deeply it is wrapped and whatever text it has; its
  message is one of six fixed ones and its status one of 400, 403, 404, 409 and 500.
\<close>

theorem error_answer_by_sentinel:
  "writeDomainError r (Errorf m err) = writeDomainError r err
   \<and> writeDomainError r (ErrorsNew m) = writeError [] r 500 ''internal_error'' ''an unexpected error occurred''
   \<and> rs_Status (writeDomainError r err) \<in> {400, 403, 404, 409, 500}
   \<and> (\<exists>x. rs_Body (writeDomainError r err) = BError x \<and> er_Message x \<in>
        {''you may not access this account'', ''resource not found'', ''account_id already exists'',
         ''transaction would drive balance below zero'', ''request body is invalid'',
         ''an unexpected error occurred''})"
  using writeDomainError_status(1) [of r err]
  by (auto simp: writeDomainError_def writeError_def)

text \<open>
  C35. The contract check is the outermost middleware: a request the contract refuses is answered
  400 without the token being looked at, so an anonymous caller sees 400 rather than 401 for a
  malformed request, and no handler runs.
\<close>

theorem contract_checked_before_token:
  assumes "middlewares_of j eg dp now = Inr mws" and "dp_SpecYAML dp \<noteq> []"
    and "eg_Verdict eg (dp_SpecYAML dp) r = Refuses"
  shows "with_middlewares mws h r s =
    (Inr (writeError [] r 400 ''invalid_input'' ''request does not satisfy the API contract''), s)"
  using assms(2,3) unfolding middlewares_of_Inr [OF assms(1)] with_middlewares_def
  by (simp add: validate_middleware_def)

theorem contract_checked_before_token_witness:
  "map_option (\<lambda>(p, d). rs_Status p) (serve strict_platform calm_world (req ''POST'' ''/transactions'' [] []) db0)
     = Some 400
   \<and> with_middlewares [auth_middleware toy_jwt noon ''secret'', validate_middleware strict_edge ''openapi'']
       (handled (h_ListAccounts (wallet_server strict_platform) calm_world)) (req ''GET'' ''/accounts'' [] []) db0
     = (Inr (writeError [] (req ''GET'' ''/accounts'' [] []) 400 ''invalid_input''
              ''request does not satisfy the API contract''), db0)"
proof -
  have m: "middlewares_of toy_jwt strict_edge (store_deps ''openapi'' ''secret'' 0) noon
      = Inr [auth_middleware toy_jwt noon ''secret'', validate_middleware strict_edge ''openapi'']"
    by (simp add: middlewares_of_def newValidator_def store_deps_def strict_edge_def toy_edge_def)
  have "map_option (\<lambda>(p, d). rs_Status p) (serve strict_platform calm_world (req ''POST'' ''/transactions'' [] []) db0)
     = Some 400" by code_simp
  moreover have "dp_SpecYAML (store_deps ''openapi'' ''secret'' 0) = ''openapi''" by (simp add: store_deps_def)
  moreover have "eg_Verdict strict_edge ''openapi'' x = Refuses" for x by (simp add: strict_edge_def)
  ultimately show ?thesis using contract_checked_before_token [OF m] by simp
qed

text \<open>
  A panic below the recoverer is answered with the 500 envelope, and a route that does not
  exist or does not allow the method is answered by the envelope too, always without touching the
  state; the 405 answer always has an Allow header.
\<close>

theorem edge_failures_enveloped:
  "recoverer (\<lambda>r s. (Inl m, s)) r s = (writeError [] r 500 ''internal_error'' ''an unexpected error occurred'', s)
   \<and> rs_Status (notFoundHandler r) = 404 \<and> is_error (notFoundHandler r)
   \<and> rs_Status (methodNotAllowedHandler hs r) = 405 \<and> is_error (methodNotAllowedHandler hs r)
   \<and> map_of (rs_Header (methodNotAllowedHandler hs r)) ''Allow'' \<notin> {None, Some []}"
  by (auto simp: recoverer_def notFoundHandler_def methodNotAllowedHandler_def Let_def writeError_def
      is_error_def update_conv split: option.splits list.splits)

section \<open>Where the behaviour departs from the documentation\<close>



text \<open>
  A redemption under the reference of an earlier earn is answered 200 with kind redeem and an
  empty reward, although nothing was redeemed: the reference holds the earn and the balance is
  unchanged.
\<close>

theorem redeem_replays_earn:
  "rs_Status (fst (h_RedeemPoints (wallet_server toy_platform) calm_world redeem_req ''member-123'' db_earn3)) = 200
   \<and> rs_Body (fst (h_RedeemPoints (wallet_server toy_platform) calm_world redeem_req ''member-123'' db_earn3))
     = BRedemption \<lparr>rd_AccountId = ''member-123'', rd_Kind = ''redeem'', rd_OccurredAt = noon, rd_Points = 90,
         rd_Ref = ''tx-3'', rd_Reward = []\<rparr>
   \<and> map_option t_Kind (held_txn db_earn3 ''tx-3'') = Some ''earn''
   \<and> balance_of (snd (h_RedeemPoints (wallet_server toy_platform) calm_world redeem_req ''member-123'' db_earn3))
       ''member-123'' = balance_of db_earn3 ''member-123''"
  by (intro conjI; code_simp)

text \<open>
  The hash compared against when an account is unknown is the seeded administrator's own hash,
  so it does belong to a real secret.
\<close>

theorem dummy_hash_is_admin_hash:
  "credential (seed_db now) ''admin-001'' = Some (dummyHash, RoleAdmin)"
  by (simp add: credential_def find_account_def seed_db_def null_string_def dummyHash_def
      seed_hash_admin_def role_consts)

text \<open>
  A row may carry a time whose UTC year has five digits (through its offset); it is accepted
  and stored, but reads back as the zero time.
\<close>

theorem five_digit_year_lost:
  "(case parseRow [''y-1'', ''member-123'', ''earn'', ''5'', ''9999-12-31T23:59:59-01:00''] of
      Inl e \<Rightarrow> False
    | Inr t \<Rightarrow> \<not> IsZero (t_OccurredAt t)
        \<and> (case st_RecordTransaction calm t db0 of
             (Inr (u, created), d') \<Rightarrow> created \<and> IsZero (t_OccurredAt u)
           | _ \<Rightarrow> False))"
  by code_simp

section \<open>Starting\<close>

text \<open>
  C38. The program never serves unprotected: if the process comes to serving, the signing secret is
  not empty and the migrations were applied, and therefore a request whose token does not verify
  changes nothing. (An empty secret ends the process before the database is opened.)
\<close>

theorem served_only_with_secret:
  assumes "served_with (main_gowallet ho third now) = Some pf" and "chi_ok (pf_edge third)"
  shows "pf_secret pf \<noteq> [] \<and> Migrate ho (cfg_dbPath (projr (loadConfig ho)) @ pragmas) = None \<and>
    (\<forall>wo r d p d'. serve pf wo r d = Some (p, d') \<and> proven pf wo r = None \<longrightarrow> d' = d)"
proof -
  note m = main_served [OF assms(1)]
  then have chi: "chi_ok (pf_edge pf)" using assms(2) by simp
  have "d' = d" if "serve pf wo r d = Some (p, d')" "proven pf wo r = None" for wo r d p d'
    using serve_anonymous [OF that(1) chi _ that(2)] m by blast
  with m show ?thesis by blast
qed

theorem served_only_with_secret_witness:
  "served_with (main_gowallet toy_host toy_platform noon) = Some toy_platform \<and> pf_secret toy_platform \<noteq> []"
proof -
  have s: "served_with (main_gowallet toy_host toy_platform noon) = Some toy_platform"
    by (simp add: main_gowallet_def loadConfig_def run_gowallet_def Open_def Migrate_def envOr_def
        toy_host_def toy_platform_def middlewares_of_def newValidator_def store_deps_def toy_edge_def Let_def)
  moreover have "chi_ok (pf_edge toy_platform)" using toy_edge_chi by (simp add: toy_platform_def)
  ultimately show ?thesis using served_only_with_secret by blast
qed

section \<open>Concurrent requests\<close>

text \<open>
  C39. However the statements of concurrent requests interleave on the one connection, the results
  and the database are those of running the finished jobs one after the other, each at once, in the
  order they finished; every job finishes at most once, and no interleaving makes the tables
  inconsistent or a balance negative.
\<close>

theorem concurrent_is_serial:
  assumes "executes job d m" and "sound_db d"
  shows "serial_run (map (\<lambda>x. job (fst x)) (mc_log m)) d = (map snd (mc_log m), mc_db m)
    \<and> distinct (map fst (mc_log m)) \<and> (\<forall>i. mc_place m i = Finished \<longleftrightarrow> i \<in> fst ` set (mc_log m))
    \<and> db_ok (mc_db m) \<and> (\<forall>a. 0 \<le> balance_of (mc_db m) a)"
proof -
  have run: "serial_run (map (\<lambda>x. job (fst x)) (mc_log m)) d = (map snd (mc_log m), mc_db m)"
    and log: "log_ok m"
    using executes_ok [OF assms(1)] by (simp_all add: serialised_def jobs_done_def)
  have "sound_db (mc_db m)" by (rule serial_run_sound [OF assms(2) run])
  then show ?thesis using run log by (simp add: log_ok_def sound_db_def solvent_def)
qed

theorem concurrent_is_serial_witness:
  "serial_run (map (\<lambda>x. demo_jobs (fst x)) (mc_log demo_machine)) db0
     = (map snd (mc_log demo_machine), mc_db demo_machine)
   \<and> map fst (mc_log demo_machine) = [0, 2, 1] \<and> balance_of (mc_db demo_machine) ''member-123'' = 100"
proof -
  have ex: "executes demo_jobs db0 demo_machine"
    using run_schedule_executes [OF executes.start demo_machine_run] .
  have "sound_db db0" by (simp add: sound_db_def)
  from concurrent_is_serial [OF ex this]
  have "serial_run (map (\<lambda>x. demo_jobs (fst x)) (mc_log demo_machine)) db0
     = (map snd (mc_log demo_machine), mc_db demo_machine)" by blast
  then show ?thesis using demo_machine_value by (simp add: demo_machine_run)
qed

text \<open>
  C40. No request waits forever: however \<open>n\<close> goroutines are scheduled, they make at most \<open>6 * n\<close>
  moves in all, and as long as one of them has not finished its job, one of them can move.
\<close>

theorem concurrent_jobs_finish:
  assumes "(step_below n job ^^ k) (initial d) m"
  shows "k \<le> 6 * n \<and> ((\<exists>m'. step_below n job m m') \<or> (\<forall>i<n. mc_place m i = Finished))"
  using steps_below_work [OF assms] stuck_done [OF assms] by (auto simp: initial_work)

theorem concurrent_jobs_finish_witness:
  "length demo_schedule \<le> 6 * 3
   \<and> ((\<exists>m'. step_below 3 demo_jobs demo_machine m') \<or> (\<forall>i<3. mc_place demo_machine i = Finished))"
proof -
  have "(step_below 3 demo_jobs ^^ length demo_schedule) (initial db0) demo_machine"
    using run_schedule_steps [OF demo_machine_run, of 3] by (simp add: demo_schedule_def)
  from concurrent_jobs_finish [OF this] show ?thesis by blast
qed

end
